(* ===== verification/Prelude.thy ===== *)
theory Prelude
  imports Main "HOL-Library.Sublist"
begin

text \<open>
  Shared vocabulary of the development: the part of the JavaScript language and of its standard
  library that the modelled TypeScript uses, and the generic facts about it.

  \<^item> A JavaScript string is a sequence of UTF-16 code units; it is the type \<open>js_string\<close>, a list of
    naturals. Source literals are written \<open>js ''...''\<close>.
  \<^item> \<open>trim\<close>, \<open>split_on\<close>, \<open>join\<close>, \<open>index_of\<close>, \<open>str_includes\<close>, \<open>starts_with\<close>, \<open>slice\<close> and
    \<open>slice_last\<close> are the \<open>String.prototype\<close> methods on code units.
  \<^item> \<open>set_add\<close> and \<open>js_set\<close> are \<open>Set.prototype.add\<close> and \<open>new Set(xs)\<close>: a JavaScript set iterates
    in insertion order, so it is a duplicate-free list.
  \<^item> \<open>str_or\<close> is the operator \<open>||\<close> on strings, for which only the empty string is falsy.
\<close>

named_theorems js_str \<open>facts about the string operations of the standard library\<close>
named_theorems js_set_simps \<open>facts about insertion-ordered sets\<close>

section \<open>Strings as sequences of code units\<close>

type_synonym code_unit = nat
type_synonym js_string = "code_unit list"

definition js :: "string \<Rightarrow> js_string" where
  "js s = map of_char s"

abbreviation ch :: "char \<Rightarrow> code_unit" where
  "ch c \<equiv> of_char c"

text \<open>The code units that \<open>trim\<close> and the class \<open>\s\<close> of regular expressions treat as white space
  (ECMA-262, WhiteSpace and LineTerminator).\<close>

definition is_ws :: "code_unit \<Rightarrow> bool" where
  "is_ws c \<longleftrightarrow> (9 \<le> c \<and> c \<le> 13) \<or> c = 32 \<or> c = 160 \<or> c = 5760 \<or> (8192 \<le> c \<and> c \<le> 8202)
     \<or> c = 8232 \<or> c = 8233 \<or> c = 8239 \<or> c = 8287 \<or> c = 12288 \<or> c = 65279"

definition is_digit :: "code_unit \<Rightarrow> bool" where
  "is_digit c \<longleftrightarrow> 48 \<le> c \<and> c \<le> 57"

definition trim :: "js_string \<Rightarrow> js_string" where
  "trim s = rev (dropWhile is_ws (rev (dropWhile is_ws s)))"

fun split_on :: "'a \<Rightarrow> 'a list \<Rightarrow> 'a list list" where
  "split_on c [] = [[]]"
| "split_on c (x # xs) =
     (if x = c then [] # split_on c xs
      else (case split_on c xs of [] \<Rightarrow> [[x]] | p # ps \<Rightarrow> (x # p) # ps))"

fun join :: "'a list \<Rightarrow> 'a list list \<Rightarrow> 'a list" where
  "join sep [] = []"
| "join sep [x] = x"
| "join sep (x # y # zs) = x @ sep @ join sep (y # zs)"

fun index_of :: "'a list \<Rightarrow> 'a list \<Rightarrow> nat option" where
  "index_of p [] = (if p = [] then Some 0 else None)"
| "index_of p (x # xs) = (if prefix p (x # xs) then Some 0 else map_option Suc (index_of p xs))"

definition index_of_from :: "'a list \<Rightarrow> 'a list \<Rightarrow> nat \<Rightarrow> nat option" where
  "index_of_from p s i = map_option ((+) i) (index_of p (drop i s))"

definition str_includes :: "'a list \<Rightarrow> 'a list \<Rightarrow> bool" where
  "str_includes s p \<longleftrightarrow> index_of p s \<noteq> None"

definition starts_with :: "'a list \<Rightarrow> 'a list \<Rightarrow> bool" where
  "starts_with s p \<longleftrightarrow> prefix p s"

text \<open>\<open>s.slice(0, n)\<close>, \<open>s.slice(-n)\<close> and \<open>s.substring(i, j)\<close> for \<open>i \<le> j\<close>.\<close>

definition slice :: "nat \<Rightarrow> 'a list \<Rightarrow> 'a list" where
  "slice n s = take n s"

definition slice_last :: "nat \<Rightarrow> 'a list \<Rightarrow> 'a list" where
  "slice_last n s = drop (length s - n) s"

definition substring :: "nat \<Rightarrow> nat \<Rightarrow> 'a list \<Rightarrow> 'a list" where
  "substring i j s = take (j - i) (drop i s)"

definition str_or :: "js_string \<Rightarrow> js_string \<Rightarrow> js_string" where
  "str_or a b = (if a = [] then b else a)"

definition opt_str :: "js_string option \<Rightarrow> js_string" where
  "opt_str a = (case a of None \<Rightarrow> [] | Some s \<Rightarrow> s)"

text \<open>\<open>xs.filter(Boolean)\<close> on strings.\<close>

definition filter_truthy :: "'a list list \<Rightarrow> 'a list list" where
  "filter_truthy xs = filter (\<lambda>s. s \<noteq> []) xs"

section \<open>Insertion-ordered sets\<close>

definition set_add :: "'a list \<Rightarrow> 'a \<Rightarrow> 'a list" where
  "set_add s x = (if x \<in> set s then s else s @ [x])"

definition js_set :: "'a list \<Rightarrow> 'a list" where
  "js_set xs = foldl set_add [] xs"

section \<open>Ordered objects\<close>

text \<open>A JavaScript object used as a dictionary: its own properties in insertion order.\<close>

fun obj_get :: "('k \<times> 'v) list \<Rightarrow> 'k \<Rightarrow> 'v option" where
  "obj_get [] k = None"
| "obj_get ((k', v) # ps) k = (if k' = k then Some v else obj_get ps k)"

fun obj_set :: "('k \<times> 'v) list \<Rightarrow> 'k \<Rightarrow> 'v \<Rightarrow> ('k \<times> 'v) list" where
  "obj_set [] k v = [(k, v)]"
| "obj_set ((k', v') # ps) k v = (if k' = k then (k', v) # ps else (k', v') # obj_set ps k v)"

definition obj_delete :: "('k \<times> 'v) list \<Rightarrow> 'k \<Rightarrow> ('k \<times> 'v) list" where
  "obj_delete ps k = filter (\<lambda>p. fst p \<noteq> k) ps"

definition obj_has :: "('k \<times> 'v) list \<Rightarrow> 'k \<Rightarrow> bool" where
  "obj_has ps k \<longleftrightarrow> obj_get ps k \<noteq> None"

text \<open>The spread \<open>{ ...a, ...b }\<close>.\<close>

definition obj_spread :: "('k \<times> 'v) list \<Rightarrow> ('k \<times> 'v) list \<Rightarrow> ('k \<times> 'v) list" where
  "obj_spread a b = foldl (\<lambda>o' (k, v). obj_set o' k v) a b"

section \<open>Sorting with a comparator\<close>

text \<open>\<open>Array.prototype.sort\<close> is stable; with a consistent comparator its result is determined, and
  insertion from the right computes it.\<close>

fun insort_by :: "('a \<Rightarrow> 'a \<Rightarrow> int) \<Rightarrow> 'a \<Rightarrow> 'a list \<Rightarrow> 'a list" where
  "insort_by cmp x [] = [x]"
| "insort_by cmp x (y # ys) = (if cmp x y \<le> 0 then x # y # ys else y # insort_by cmp x ys)"

definition js_sort :: "('a \<Rightarrow> 'a \<Rightarrow> int) \<Rightarrow> 'a list \<Rightarrow> 'a list" where
  "js_sort cmp xs = foldr (insort_by cmp) xs []"

section \<open>Facts about literals\<close>

lemma js_eq_iff [simp]: "js s = js t \<longleftrightarrow> s = t"
  by (simp add: js_def inj_map_eq_map inj_def)

lemma js_Nil [simp]: "js [] = []"
  by (simp add: js_def)

lemma js_eq_Nil_iff [simp]: "js s = [] \<longleftrightarrow> s = []"
  by (simp add: js_def)

lemma js_Cons: "js (c # s) = of_char c # js s"
  by (simp add: js_def)

lemma length_js [simp]: "length (js s) = length s"
  by (simp add: js_def)

section \<open>Facts about trim\<close>

lemma dropWhile_rev_trim:
  "xs \<noteq> [] \<Longrightarrow> \<not> P (last xs) \<Longrightarrow> dropWhile P (rev xs) = rev xs"
  by (cases xs rule: rev_cases) auto

lemma trim_Nil [simp, js_str]: "trim [] = []"
  by (simp add: trim_def)

lemma trim_eq_Nil_iff [js_str]: "trim s = [] \<longleftrightarrow> (\<forall>c\<in>set s. is_ws c)"
proof
  assume "trim s = []"
  then have "\<forall>c\<in>set (dropWhile is_ws s). is_ws c"
    by (simp add: trim_def dropWhile_eq_Nil_conv)
  then have "dropWhile is_ws s = []"
    by (cases "dropWhile is_ws s") (use hd_dropWhile [of is_ws s] in auto)
  then show "\<forall>c\<in>set s. is_ws c" by (simp add: dropWhile_eq_Nil_conv)
next
  assume "\<forall>c\<in>set s. is_ws c"
  then show "trim s = []" by (auto simp: trim_def dest!: set_dropWhileD)
qed

text \<open>A string is trimmed when it neither starts nor ends with white space.\<close>

definition trimmed :: "js_string \<Rightarrow> bool" where
  "trimmed s \<longleftrightarrow> s = [] \<or> (\<not> is_ws (hd s) \<and> \<not> is_ws (last s))"

lemma trim_id [js_str]: "trimmed s \<Longrightarrow> trim s = s"
  using dropWhile_rev_trim [of s is_ws]
  by (cases s) (auto simp: trimmed_def trim_def split: if_splits)

lemma trimmed_trim [simp, js_str]: "trimmed (trim s)"
proof (cases "dropWhile is_ws s = []")
  case True
  then have "trim s = []" unfolding trim_def by (simp only: True) simp
  then show ?thesis by (simp add: trimmed_def)
next
  case False
  define t where "t = dropWhile is_ws s"
  have hd_t: "\<not> is_ws (hd t)" and "t \<noteq> []"
    using False hd_dropWhile [of is_ws s] by (auto simp: t_def)
  define u where "u = dropWhile is_ws (rev t)"
  have u_ne: "u \<noteq> []"
    using hd_t \<open>t \<noteq> []\<close> by (auto simp: u_def dropWhile_eq_Nil_conv intro!: bexI [of _ "hd t"])
  have "\<not> is_ws (hd u)" using u_ne hd_dropWhile [of is_ws "rev t"] by (simp add: u_def)
  moreover have "last u = hd t"
  proof -
    have "rev t = takeWhile is_ws (rev t) @ u" by (simp add: u_def)
    then have "last (rev t) = last u" using u_ne by (metis last_appendR)
    then show ?thesis using \<open>t \<noteq> []\<close> by (simp add: last_rev)
  qed
  ultimately show ?thesis
    using u_ne hd_t by (auto simp: trimmed_def trim_def t_def [symmetric] u_def [symmetric]
      hd_rev last_rev)
qed

lemma trim_trim [simp, js_str]: "trim (trim s) = trim s"
  by (rule trim_id) simp

lemma set_trim_subset [js_str]: "set (trim s) \<subseteq> set s"
  unfolding trim_def by (auto dest!: set_dropWhileD)

section \<open>Facts about split and join\<close>

lemma split_on_ne [simp]: "split_on c s \<noteq> []"
  by (cases s) (auto split: list.split)

lemma join_split_on [js_str]: "join [c] (split_on c s) = s"
proof (induction s)
  case Nil
  then show ?case by simp
next
  case (Cons x xs)
  obtain p ps where sp: "split_on c xs = p # ps" by (cases "split_on c xs") auto
  with Cons show ?case by (cases ps) auto
qed

lemma split_on_no_sep [js_str]: "c \<notin> set s \<Longrightarrow> split_on c s = [s]"
  by (induction s) auto

lemma split_on_append_sep [js_str]: "c \<notin> set s \<Longrightarrow> split_on c (s @ c # t) = s # split_on c t"
  by (induction s) auto

lemma split_on_join [js_str]:
  "xs \<noteq> [] \<Longrightarrow> \<forall>x\<in>set xs. c \<notin> set x \<Longrightarrow> split_on c (join [c] xs) = xs"
  by (induction "[c]" xs rule: join.induct) (auto simp: split_on_no_sep split_on_append_sep)

lemma split_on_parts_no_sep [js_str]: "p \<in> set (split_on c s) \<Longrightarrow> c \<notin> set p"
proof (induction s arbitrary: p)
  case Nil
  then show ?case by simp
next
  case (Cons x xs)
  obtain q qs where sp: "split_on c xs = q # qs" by (cases "split_on c xs") auto
  from Cons.prems sp Cons.IH show ?case by (auto split: if_splits)
qed

lemma length_split_on [js_str]: "length (split_on c s) = Suc (count_list s c)"
proof (induction s)
  case Nil
  then show ?case by simp
next
  case (Cons x xs)
  obtain q qs where "split_on c xs = q # qs" by (cases "split_on c xs") auto
  with Cons show ?case by auto
qed

lemma join_eq_Nil_iff [js_str]:
  "\<forall>x\<in>set xs. x \<noteq> [] \<Longrightarrow> join sep xs = [] \<longleftrightarrow> xs = []"
  by (induction sep xs rule: join.induct) auto

lemma set_joinD: "c \<in> set (join sep xs) \<Longrightarrow> c \<in> set sep \<or> (\<exists>x\<in>set xs. c \<in> set x)"
  by (induction sep xs rule: join.induct) auto

section \<open>Facts about searching\<close>

lemma index_of_Some_prefix [js_str]: "index_of p s = Some i \<Longrightarrow> prefix p (drop i s) \<and> i \<le> length s"
  by (induction s arbitrary: i) (auto split: if_splits)

lemma index_of_Some_length [js_str]: "index_of p s = Some i \<Longrightarrow> i + length p \<le> length s"
  using index_of_Some_prefix [of p s i] by (auto dest!: prefix_length_le)

lemma index_of_None_iff [js_str]: "index_of p s = None \<longleftrightarrow> \<not> sublist p s"
proof (induction s)
  case Nil
  then show ?case by simp
next
  case (Cons x xs)
  then show ?case by (auto simp: sublist_Cons_right)
qed

lemma str_includes_iff_sublist [js_str]: "str_includes s p \<longleftrightarrow> sublist p s"
  using index_of_None_iff [of p s] by (auto simp: str_includes_def)

lemma index_of_minimal [js_str]:
  "index_of p s = Some i \<Longrightarrow> j < i \<Longrightarrow> \<not> prefix p (drop j s)"
proof (induction s arbitrary: i j)
  case Nil
  then show ?case by (auto split: if_splits)
next
  case (Cons x xs)
  then show ?case by (cases j) (auto split: if_splits)
qed

lemma index_of_from_bounds [js_str]:
  assumes "index_of_from p s i = Some j" and "i \<le> length s"
  shows "i \<le> j" and "j + length p \<le> length s"
  using assms by (auto simp: index_of_from_def dest!: index_of_Some_length)

lemma index_of_split [js_str]:
  "index_of p s = Some i \<Longrightarrow> s = take i s @ p @ drop (i + length p) s"
  using index_of_Some_prefix [of p s i]
  by (metis append_eq_conv_conj append_take_drop_id drop_drop add.commute prefix_def)

section \<open>Facts about insertion-ordered sets\<close>

lemma set_set_add [simp, js_set_simps]: "set (set_add s x) = insert x (set s)"
  by (auto simp: set_add_def)

lemma distinct_set_add [js_set_simps]: "distinct s \<Longrightarrow> distinct (set_add s x)"
  by (simp add: set_add_def)

lemma set_foldl_set_add [js_set_simps]: "set (foldl set_add s xs) = set s \<union> set xs"
  by (induction xs arbitrary: s) auto

lemma distinct_foldl_set_add [js_set_simps]: "distinct s \<Longrightarrow> distinct (foldl set_add s xs)"
  by (induction xs arbitrary: s) (auto simp: distinct_set_add)

lemma set_js_set [simp, js_set_simps]: "set (js_set xs) = set xs"
  by (simp add: js_set_def set_foldl_set_add)

lemma distinct_js_set [simp, js_set_simps]: "distinct (js_set xs)"
  by (simp add: js_set_def distinct_foldl_set_add)

lemma foldl_set_add_distinct [js_set_simps]:
  "distinct (s @ xs) \<Longrightarrow> foldl set_add s xs = s @ xs"
  by (induction xs arbitrary: s) (auto simp: set_add_def)

lemma js_set_distinct [js_set_simps]: "distinct xs \<Longrightarrow> js_set xs = xs"
  by (simp add: js_set_def foldl_set_add_distinct)

lemma js_set_js_set [simp, js_set_simps]: "js_set (js_set xs) = js_set xs"
  by (simp add: js_set_distinct)

lemma foldl_set_add_absorb [js_set_simps]: "set xs \<subseteq> set s \<Longrightarrow> foldl set_add s xs = s"
  by (induction xs) (auto simp: set_add_def)

lemma js_set_Nil [simp]: "js_set [] = []"
  by (simp add: js_set_def)

lemma length_js_set_le: "length (js_set xs) \<le> length xs"
  by (metis card_length distinct_card distinct_js_set set_js_set)

section \<open>Facts about ordered objects\<close>

lemma obj_get_set [simp]: "obj_get (obj_set ps k v) k' = (if k' = k then Some v else obj_get ps k')"
  by (induction ps k v rule: obj_set.induct) auto

lemma obj_get_delete [simp]:
  "obj_get (obj_delete ps k) k' = (if k' = k then None else obj_get ps k')"
  by (induction ps) (auto simp: obj_delete_def)

lemma obj_get_eq_None_iff: "obj_get ps k = None \<longleftrightarrow> k \<notin> fst ` set ps"
  by (induction ps k rule: obj_get.induct) auto

lemma fst_obj_set: "fst ` set (obj_set ps k v) = insert k (fst ` set ps)"
  by (induction ps k v rule: obj_set.induct) auto

lemma distinct_obj_set: "distinct (map fst ps) \<Longrightarrow> distinct (map fst (obj_set ps k v))"
  by (induction ps k v rule: obj_set.induct) (auto simp: fst_obj_set image_iff)

lemma distinct_obj_delete: "distinct (map fst ps) \<Longrightarrow> distinct (map fst (obj_delete ps k))"
  by (simp add: obj_delete_def distinct_map_filter)

lemma obj_get_foldl_set:
  "distinct (map fst b) \<Longrightarrow>
   obj_get (foldl (\<lambda>o' (k, v). obj_set o' k v) a b) k =
     (case obj_get b k of None \<Rightarrow> obj_get a k | Some v \<Rightarrow> Some v)"
proof (induction b arbitrary: a)
  case Nil
  then show ?case by simp
next
  case (Cons p b)
  obtain k' v where p: "p = (k', v)" by force
  have "obj_get b k' = None" using Cons.prems p by (simp add: obj_get_eq_None_iff)
  with Cons p show ?case by (auto split: option.split)
qed

lemma obj_get_spread:
  "distinct (map fst b) \<Longrightarrow>
   obj_get (obj_spread a b) k = (case obj_get b k of None \<Rightarrow> obj_get a k | Some v \<Rightarrow> Some v)"
  by (simp add: obj_spread_def obj_get_foldl_set)

section \<open>Consistent comparators\<close>

lemma set_insort_by [simp]: "set (insort_by cmp x xs) = insert x (set xs)"
  by (induction xs) auto

lemma set_js_sort [simp]: "set (js_sort cmp xs) = set xs"
  by (induction xs) (auto simp: js_sort_def)

lemma length_insort_by [simp]: "length (insort_by cmp x xs) = Suc (length xs)"
  by (induction xs) auto

lemma length_js_sort [simp]: "length (js_sort cmp xs) = length xs"
  by (induction xs) (auto simp: js_sort_def)

lemma js_sort_Nil [simp]: "js_sort cmp [] = []"
  by (simp add: js_sort_def)

locale comparator =
  fixes cmp :: "'a \<Rightarrow> 'a \<Rightarrow> int"
  assumes cmp_total: "cmp x y \<le> 0 \<or> cmp y x \<le> 0"
    and cmp_trans: "cmp x y \<le> 0 \<Longrightarrow> cmp y z \<le> 0 \<Longrightarrow> cmp x z \<le> 0"
begin

lemma sorted_insort_by:
  "sorted_wrt (\<lambda>a b. cmp a b \<le> 0) xs \<Longrightarrow> sorted_wrt (\<lambda>a b. cmp a b \<le> 0) (insort_by cmp x xs)"
  using cmp_total cmp_trans by (induction xs) fastforce+

lemma sorted_js_sort: "sorted_wrt (\<lambda>a b. cmp a b \<le> 0) (js_sort cmp xs)"
  by (induction xs) (auto simp: js_sort_def sorted_insort_by)

lemma js_sort_sorted: "sorted_wrt (\<lambda>a b. cmp a b \<le> 0) xs \<Longrightarrow> js_sort cmp xs = xs"
proof (induction xs)
  case Nil
  then show ?case by simp
next
  case (Cons x xs)
  then show ?case by (cases xs) (auto simp: js_sort_def)
qed

end

section \<open>Order-preserving deduplication and filtering\<close>

lemma filter_truthy_id: "\<forall>x\<in>set xs. x \<noteq> [] \<Longrightarrow> filter_truthy xs = xs"
  by (simp add: filter_truthy_def)

lemma set_filter_truthy [simp]: "set (filter_truthy xs) = {x \<in> set xs. x \<noteq> []}"
  by (auto simp: filter_truthy_def)

end
