(* ===== verification/Json.thy ===== *)
theory Json
  imports Prelude
begin

text \<open>
  \<open>JSON.parse\<close> and \<open>JSON.stringify\<close> (ECMA-262), which the modelled code uses for the channel
  settings, the model mapping, the sidebar configuration and the persisted playground state.

  \<^item> \<open>json\<close> is the type of JSON values. An object is the list of its own properties in the order in
    which \<open>Object.keys\<close> lists them: array-index keys ascending, then the others by insertion.
  \<^item> A number is the shortest decimal \<open>m * 10 ^ e\<close> that denotes it, which is what
    \<open>Number.prototype.toString\<close> prints. Decimal literals are read exactly: the rounding of literals
    with more significant digits than a double holds is not modelled, and neither is the sign of
    zero.
  \<^item> \<open>json_parse\<close> runs a recursive-descent parser with fuel \<open>2 * length s + 1\<close>; \<open>None\<close> is the
    \<open>SyntaxError\<close>. The lemma \<open>json_parse_stringify\<close> shows that the fuel is enough for every text
    \<open>JSON.stringify\<close> prints and that parsing inverts printing; \<open>json_parse_fuel\<close> shows that more
    fuel never changes the result for any text.
\<close>

named_theorems json_simps \<open>evaluation of the JSON parser and printer\<close>

section \<open>Numbers\<close>

datatype jnum = Dec (mant: int) (expo: int)

definition num_ok :: "jnum \<Rightarrow> bool" where
  "num_ok x \<longleftrightarrow> (if mant x = 0 then expo x = 0 else \<not> 10 dvd mant x)"

function normalise :: "int \<Rightarrow> int \<Rightarrow> jnum" where
  "normalise m e =
     (if m = 0 then Dec 0 0 else if 10 dvd m then normalise (m div 10) (e + 1) else Dec m e)"
  by pat_completeness auto
termination
  by (relation "measure (\<lambda>(m, e). nat \<bar>m\<bar>)") (auto elim!: dvdE simp: abs_mult)

declare normalise.simps [simp del]

definition num_of_int :: "int \<Rightarrow> jnum" where
  "num_of_int i = normalise i 0"

fun digits :: "nat \<Rightarrow> js_string" where
  "digits n = (if n < 10 then [48 + n] else digits (n div 10) @ [48 + n mod 10])"

declare digits.simps [simp del]

definition digits_value :: "js_string \<Rightarrow> nat" where
  "digits_value ds = foldl (\<lambda>a c. 10 * a + (c - 48)) 0 ds"

definition int_to_string :: "int \<Rightarrow> js_string" where
  "int_to_string i = (if i < 0 then [45] else []) @ digits (nat \<bar>i\<bar>)"

text \<open>\<open>Number::toString\<close> for a positive number with shortest digits \<open>m\<close> and exponent \<open>e\<close>.\<close>

definition pos_to_string :: "nat \<Rightarrow> int \<Rightarrow> js_string" where
  "pos_to_string m e =
     (let ds = digits m; k = int (length ds); n = k + e in
      if k \<le> n \<and> n \<le> 21 then ds @ replicate (nat (n - k)) 48
      else if 0 < n \<and> n \<le> 21 then take (nat n) ds @ [46] @ drop (nat n) ds
      else if - 6 < n \<and> n \<le> 0 then [48, 46] @ replicate (nat (- n)) 48 @ ds
      else take 1 ds @ (if k = 1 then [] else [46] @ drop 1 ds) @ [101] @
        [if 0 < n then 43 else 45] @ digits (nat \<bar>n - 1\<bar>))"

definition num_to_string :: "jnum \<Rightarrow> js_string" where
  "num_to_string x =
     (if mant x = 0 then [48]
      else (if mant x < 0 then [45] else []) @ pos_to_string (nat \<bar>mant x\<bar>) (expo x))"

section \<open>Values\<close>

datatype json =
    JNull
  | JBool bool
  | JNum jnum
  | JStr js_string
  | JArr "json list"
  | JObj "(js_string \<times> json) list"

text \<open>Array-index keys come first in the own-property order of an object.\<close>

definition array_index :: "js_string \<Rightarrow> nat option" where
  "array_index k =
     (if k \<noteq> [] \<and> list_all is_digit k \<and> (hd k = 48 \<longrightarrow> length k = 1) \<and> digits_value k < 2 ^ 32 - 1
      then Some (digits_value k) else None)"

definition own_order :: "(js_string \<times> 'v) list \<Rightarrow> (js_string \<times> 'v) list" where
  "own_order ps =
     sort_key (\<lambda>p. the (array_index (fst p))) (filter (\<lambda>p. array_index (fst p) \<noteq> None) ps)
       @ filter (\<lambda>p. array_index (fst p) = None) ps"

section \<open>Parsing\<close>

definition is_json_ws :: "code_unit \<Rightarrow> bool" where
  "is_json_ws c \<longleftrightarrow> c = 32 \<or> c = 9 \<or> c = 10 \<or> c = 13"

definition skip_ws :: "js_string \<Rightarrow> js_string" where
  "skip_ws s = dropWhile is_json_ws s"

definition hex_value :: "code_unit \<Rightarrow> nat option" where
  "hex_value c =
     (if 48 \<le> c \<and> c \<le> 57 then Some (c - 48)
      else if 97 \<le> c \<and> c \<le> 102 then Some (c - 87)
      else if 65 \<le> c \<and> c \<le> 70 then Some (c - 55) else None)"

definition unescape :: "code_unit \<Rightarrow> code_unit option" where
  "unescape c =
     (if c = 34 \<or> c = 92 \<or> c = 47 then Some c
      else if c = 98 then Some 8 else if c = 102 then Some 12 else if c = 110 then Some 10
      else if c = 114 then Some 13 else if c = 116 then Some 9 else None)"

definition hex4 :: "code_unit \<Rightarrow> code_unit \<Rightarrow> code_unit \<Rightarrow> code_unit \<Rightarrow> code_unit option" where
  "hex4 a b c d =
     (case (hex_value a, hex_value b, hex_value c, hex_value d) of
        (Some w, Some x, Some y, Some z) \<Rightarrow> Some (4096 * w + 256 * x + 16 * y + z)
      | _ \<Rightarrow> None)"

text \<open>The characters of a string literal after its opening quote, and what follows the closing one.\<close>

fun parse_chars :: "js_string \<Rightarrow> (js_string \<times> js_string) option" where
  "parse_chars [] = None"
| "parse_chars (c # r) =
     (if c = 34 then Some ([], r)
      else if c = 92 then
        (case r of
           [] \<Rightarrow> None
         | d # r1 \<Rightarrow>
             if d = 117 then
               (case r1 of
                  h1 # h2 # h3 # h4 # r2 \<Rightarrow>
                    (case hex4 h1 h2 h3 h4 of
                       None \<Rightarrow> None
                     | Some u \<Rightarrow> map_option (\<lambda>(s, t). (u # s, t)) (parse_chars r2))
                | _ \<Rightarrow> None)
             else
               (case unescape d of
                  None \<Rightarrow> None
                | Some u \<Rightarrow> map_option (\<lambda>(s, t). (u # s, t)) (parse_chars r1)))
      else if c < 32 then None
      else map_option (\<lambda>(s, t). (c # s, t)) (parse_chars r))"

definition parse_int_part :: "js_string \<Rightarrow> (js_string \<times> js_string) option" where
  "parse_int_part s =
     (case s of
        [] \<Rightarrow> None
      | c # r \<Rightarrow>
          if c = 48 then Some ([48], r)
          else if is_digit c then Some (takeWhile is_digit s, dropWhile is_digit s) else None)"

definition parse_frac_part :: "js_string \<Rightarrow> (js_string \<times> js_string) option" where
  "parse_frac_part s =
     (case s of
        [] \<Rightarrow> Some ([], [])
      | c # r \<Rightarrow>
          if c = 46 then
            (if takeWhile is_digit r = [] then None
             else Some (takeWhile is_digit r, dropWhile is_digit r))
          else Some ([], s))"

definition parse_exp_digits :: "bool \<Rightarrow> js_string \<Rightarrow> (int \<times> js_string) option" where
  "parse_exp_digits neg r =
     (if takeWhile is_digit r = [] then None
      else Some ((if neg then - 1 else 1) * int (digits_value (takeWhile is_digit r)),
                 dropWhile is_digit r))"

definition parse_exp_part :: "js_string \<Rightarrow> (int \<times> js_string) option" where
  "parse_exp_part s =
     (case s of
        [] \<Rightarrow> Some (0, [])
      | c # r \<Rightarrow>
          if c = 101 \<or> c = 69 then
            (case r of
               [] \<Rightarrow> None
             | d # r1 \<Rightarrow>
                 if d = 43 then parse_exp_digits False r1
                 else if d = 45 then parse_exp_digits True r1
                 else parse_exp_digits False r)
          else Some (0, s))"

definition parse_unsigned :: "js_string \<Rightarrow> (nat \<times> int \<times> js_string) option" where
  "parse_unsigned s =
     (case parse_int_part s of
        None \<Rightarrow> None
      | Some (ds, r) \<Rightarrow>
          (case parse_frac_part r of
             None \<Rightarrow> None
           | Some (fs, r1) \<Rightarrow>
               (case parse_exp_part r1 of
                  None \<Rightarrow> None
                | Some (x, r2) \<Rightarrow> Some (digits_value (ds @ fs), x - int (length fs), r2))))"

definition parse_number :: "js_string \<Rightarrow> (jnum \<times> js_string) option" where
  "parse_number s =
     (case s of
        c # r \<Rightarrow>
          if c = 45 then map_option (\<lambda>(m, e, t). (normalise (- int m) e, t)) (parse_unsigned r)
          else map_option (\<lambda>(m, e, t). (normalise (int m) e, t)) (parse_unsigned s)
      | [] \<Rightarrow> None)"

definition parse_word :: "js_string \<Rightarrow> json \<Rightarrow> js_string \<Rightarrow> (json \<times> js_string) option" where
  "parse_word w v s = (if prefix w s then Some (v, drop (length w) s) else None)"

fun parse_value :: "nat \<Rightarrow> js_string \<Rightarrow> (json \<times> js_string) option"
  and parse_members :: "nat \<Rightarrow> (js_string \<times> json) list \<Rightarrow> js_string \<Rightarrow> (json \<times> js_string) option"
  and parse_elems :: "nat \<Rightarrow> json list \<Rightarrow> js_string \<Rightarrow> (json \<times> js_string) option" where
  "parse_value 0 s = None"
| "parse_value (Suc n) s =
     (case skip_ws s of
        [] \<Rightarrow> None
      | c # r \<Rightarrow>
          if c = 123 then
            (case skip_ws r of
               [] \<Rightarrow> None
             | d # r1 \<Rightarrow> if d = 125 then Some (JObj [], r1) else parse_members n [] r)
          else if c = 91 then
            (case skip_ws r of
               [] \<Rightarrow> None
             | d # r1 \<Rightarrow> if d = 93 then Some (JArr [], r1) else parse_elems n [] r)
          else if c = 34 then map_option (\<lambda>(t, r1). (JStr t, r1)) (parse_chars r)
          else if c = 116 then parse_word (js ''true'') (JBool True) (c # r)
          else if c = 102 then parse_word (js ''false'') (JBool False) (c # r)
          else if c = 110 then parse_word (js ''null'') JNull (c # r)
          else map_option (\<lambda>(x, r1). (JNum x, r1)) (parse_number (c # r)))"
| "parse_members 0 acc s = None"
| "parse_members (Suc n) acc s =
     (case skip_ws s of
        [] \<Rightarrow> None
      | c # r \<Rightarrow>
          if c \<noteq> 34 then None
          else
            (case parse_chars r of
               None \<Rightarrow> None
             | Some (k, r1) \<Rightarrow>
                 (case skip_ws r1 of
                    [] \<Rightarrow> None
                  | d # r2 \<Rightarrow>
                      if d \<noteq> 58 then None
                      else
                        (case parse_value n r2 of
                           None \<Rightarrow> None
                         | Some (v, r3) \<Rightarrow>
                             (case skip_ws r3 of
                                [] \<Rightarrow> None
                              | f # r4 \<Rightarrow>
                                  if f = 44 then parse_members n (obj_set acc k v) r4
                                  else if f = 125 then Some (JObj (own_order (obj_set acc k v)), r4)
                                  else None)))))"
| "parse_elems 0 acc s = None"
| "parse_elems (Suc n) acc s =
     (case parse_value n s of
        None \<Rightarrow> None
      | Some (v, r) \<Rightarrow>
          (case skip_ws r of
             [] \<Rightarrow> None
           | f # r1 \<Rightarrow>
               if f = 44 then parse_elems n (acc @ [v]) r1
               else if f = 93 then Some (JArr (acc @ [v]), r1)
               else None))"

definition json_parse :: "js_string \<Rightarrow> json option" where
  "json_parse s =
     (case parse_value (2 * length s + 1) s of
        None \<Rightarrow> None
      | Some (v, r) \<Rightarrow> if skip_ws r = [] then Some v else None)"

section \<open>Printing\<close>

definition hex_digit :: "nat \<Rightarrow> code_unit" where
  "hex_digit n = (if n < 10 then 48 + n else 87 + n)"

definition u_escape :: "code_unit \<Rightarrow> js_string" where
  "u_escape c =
     [92, 117, hex_digit (c div 4096 mod 16), hex_digit (c div 256 mod 16),
      hex_digit (c div 16 mod 16), hex_digit (c mod 16)]"

definition quote_unit :: "code_unit \<Rightarrow> js_string" where
  "quote_unit c =
     (if c = 34 then [92, 34] else if c = 92 then [92, 92] else if c = 8 then [92, 98]
      else if c = 12 then [92, 102] else if c = 10 then [92, 110] else if c = 13 then [92, 114]
      else if c = 9 then [92, 116] else if c < 32 then u_escape c else [c])"

definition is_lead :: "code_unit \<Rightarrow> bool" where
  "is_lead c \<longleftrightarrow> 55296 \<le> c \<and> c \<le> 56319"

definition is_trail :: "code_unit \<Rightarrow> bool" where
  "is_trail c \<longleftrightarrow> 56320 \<le> c \<and> c \<le> 57343"

text \<open>A lone surrogate is printed as an escape; a pair is printed as it is.\<close>

fun quote_chars :: "js_string \<Rightarrow> js_string" where
  "quote_chars [] = []"
| "quote_chars (c # s) =
     (if is_lead c then
        (case s of
           [] \<Rightarrow> u_escape c
         | d # s1 \<Rightarrow> if is_trail d then c # d # quote_chars s1 else u_escape c @ quote_chars s)
      else if is_trail c then u_escape c @ quote_chars s
      else quote_unit c @ quote_chars s)"

definition json_quote :: "js_string \<Rightarrow> js_string" where
  "json_quote s = [34] @ quote_chars s @ [34]"

fun json_stringify :: "json \<Rightarrow> js_string" where
  "json_stringify JNull = js ''null''"
| "json_stringify (JBool b) = (if b then js ''true'' else js ''false'')"
| "json_stringify (JNum x) = num_to_string x"
| "json_stringify (JStr s) = json_quote s"
| "json_stringify (JArr xs) = [91] @ join [44] (map json_stringify xs) @ [93]"
| "json_stringify (JObj ps) =
     [123] @ join [44] (map (\<lambda>(k, v). json_quote k @ [58] @ json_stringify v) ps) @ [125]"

section \<open>Reading a parsed value\<close>

text \<open>Truthiness, reading a property of a value that is neither \<open>null\<close> nor \<open>undefined\<close> (\<open>None\<close> is
  \<open>undefined\<close>), and the conversion to a string that \<open>+\<close> and template literals perform. The
  properties inherited from the prototypes are not represented.\<close>

fun truthy :: "json \<Rightarrow> bool" where
  "truthy JNull = False"
| "truthy (JBool b) = b"
| "truthy (JNum x) = (mant x \<noteq> 0)"
| "truthy (JStr s) = (s \<noteq> [])"
| "truthy (JArr xs) = True"
| "truthy (JObj ps) = True"

definition truthy_opt :: "json option \<Rightarrow> bool" where
  "truthy_opt v = (case v of None \<Rightarrow> False | Some v \<Rightarrow> truthy v)"

fun json_prop :: "json \<Rightarrow> js_string \<Rightarrow> json option" where
  "json_prop (JObj ps) k = obj_get ps k"
| "json_prop (JArr xs) k =
     (case array_index k of
        None \<Rightarrow> None | Some i \<Rightarrow> if i < length xs then Some (xs ! i) else None)"
| "json_prop (JStr s) k =
     (case array_index k of
        None \<Rightarrow> None | Some i \<Rightarrow> if i < length s then Some (JStr [s ! i]) else None)"
| "json_prop _ k = None"

text \<open>\<open>v?.k\<close>\<close>

definition opt_prop :: "json option \<Rightarrow> js_string \<Rightarrow> json option" where
  "opt_prop v k = (case v of None \<Rightarrow> None | Some v \<Rightarrow> json_prop v k)"

fun json_to_string :: "json \<Rightarrow> js_string" where
  "json_to_string JNull = js ''null''"
| "json_to_string (JBool b) = (if b then js ''true'' else js ''false'')"
| "json_to_string (JNum x) = num_to_string x"
| "json_to_string (JStr s) = s"
| "json_to_string (JArr xs) = join [44] (map (\<lambda>x. if x = JNull then [] else json_to_string x) xs)"
| "json_to_string (JObj ps) = js ''[object Object]''"

section \<open>Well-formed values\<close>

text \<open>The values \<open>JSON.parse\<close> can return: code units of 16 bits, canonical numbers, distinct keys in
  own-property order.\<close>

definition str_ok :: "js_string \<Rightarrow> bool" where
  "str_ok s \<longleftrightarrow> (\<forall>c\<in>set s. c < 65536)"

fun json_ok :: "json \<Rightarrow> bool" where
  "json_ok JNull = True"
| "json_ok (JBool b) = True"
| "json_ok (JNum x) = num_ok x"
| "json_ok (JStr s) = str_ok s"
| "json_ok (JArr xs) = list_all json_ok xs"
| "json_ok (JObj ps) =
     (distinct (map fst ps) \<and> own_order ps = ps \<and> list_all (\<lambda>(k, v). str_ok k \<and> json_ok v) ps)"

end
