(* ===== verification/JsonRoundTrip.thy ===== *)
theory JsonRoundTrip
  imports Json
begin

text \<open>
  Correctness of the JSON model: decimal digits, numbers, string literals and values are read back
  from their printed form. The interface the clients use is the locale \<open>json_codec\<close>, interpreted on
  \<open>json_parse\<close> and \<open>json_stringify\<close>.
\<close>

section \<open>Decimal digits\<close>

lemma digits_ne [simp]: "digits n \<noteq> []"
  by (subst digits.simps) simp

lemma digits_all [json_simps]: "list_all is_digit (digits n)"
proof (induction n rule: digits.induct)
  case (1 n)
  then show ?case
    by (cases "n < 10") (simp_all add: digits.simps [of n] is_digit_def)
qed

lemma digits_value_Nil [simp]: "digits_value [] = 0"
  by (simp add: digits_value_def)

lemma digits_value_snoc [simp]: "digits_value (ds @ [c]) = 10 * digits_value ds + (c - 48)"
  by (simp add: digits_value_def)

lemma digits_value_append: "digits_value (xs @ ys) = digits_value xs * 10 ^ length ys + digits_value ys"
proof (induction ys rule: rev_induct)
  case Nil
  then show ?case by simp
next
  case (snoc y ys)
  have "digits_value (xs @ ys @ [y]) = 10 * digits_value (xs @ ys) + (y - 48)"
    using digits_value_snoc [of "xs @ ys" y] by simp
  with snoc show ?case by (simp add: algebra_simps)
qed

lemma digits_value_zeros [simp]: "digits_value (replicate k 48) = 0"
proof (induction k)
  case 0
  then show ?case by simp
next
  case (Suc k)
  then show ?case
    using digits_value_append [of "[48]" "replicate k 48"] digits_value_snoc [of "[]" 48] by simp
qed

lemma digits_value_digits [simp]: "digits_value (digits n) = n"
proof (induction n rule: digits.induct)
  case (1 n)
  show ?case
  proof (cases "n < 10")
    case True
    then show ?thesis by (simp add: digits.simps [of n] digits_value_def)
  next
    case False
    with 1 show ?thesis by (simp add: digits.simps [of n])
  qed
qed

lemma hd_digits: "0 < n \<Longrightarrow> hd (digits n) \<noteq> 48"
proof (induction n rule: digits.induct)
  case (1 n)
  then show ?case
    by (cases "n < 10") (auto simp: digits.simps [of n])
qed

lemma digits_0: "digits 0 = [48]"
  by (simp add: digits.simps)

lemma takeWhile_digits_append:
  "list_all is_digit ds \<Longrightarrow> (t = [] \<or> \<not> is_digit (hd t)) \<Longrightarrow> takeWhile is_digit (ds @ t) = ds"
  by (induction ds) (cases t, auto)

lemma dropWhile_digits_append:
  "list_all is_digit ds \<Longrightarrow> (t = [] \<or> \<not> is_digit (hd t)) \<Longrightarrow> dropWhile is_digit (ds @ t) = t"
  by (induction ds) (cases t, auto)

section \<open>Normal forms of numbers\<close>

lemma normalise_canonical: "num_ok (Dec m e) \<Longrightarrow> normalise m e = Dec m e"
  by (subst normalise.simps) (auto simp: num_ok_def split: if_splits)

lemma normalise_mult_10: "m \<noteq> 0 \<Longrightarrow> normalise (m * 10) e = normalise m (e + 1)"
  by (subst normalise.simps) simp

lemma normalise_mult_pow: "m \<noteq> 0 \<Longrightarrow> normalise (m * 10 ^ k) e = normalise m (e + int k)"
proof (induction k arbitrary: e)
  case 0
  then show ?case by simp
next
  case (Suc k)
  have "normalise (m * 10 ^ Suc k) e = normalise ((m * 10 ^ k) * 10) e"
    by (simp add: algebra_simps)
  also have "\<dots> = normalise (m * 10 ^ k) (e + 1)"
    using Suc.prems by (intro normalise_mult_10) simp
  finally show ?case using Suc by (simp add: algebra_simps)
qed

lemma num_ok_normalise: "num_ok (normalise m e)"
proof (induction m e rule: normalise.induct)
  case (1 m e)
  then show ?case by (subst normalise.simps) (auto simp: num_ok_def)
qed

lemma num_ok_num_of_int [simp]: "num_ok (num_of_int i)"
  by (simp add: num_of_int_def num_ok_normalise)

section \<open>Reading a printed number\<close>

text \<open>What may follow a number: nothing that could continue its literal.\<close>

definition follow_ok :: "js_string \<Rightarrow> bool" where
  "follow_ok t \<longleftrightarrow> t = [] \<or> (\<not> is_digit (hd t) \<and> hd t \<noteq> 46 \<and> hd t \<noteq> 101 \<and> hd t \<noteq> 69)"

lemma parse_int_part_digits:
  assumes "list_all is_digit ds" and "ds \<noteq> []" and "hd ds \<noteq> 48" and "t = [] \<or> \<not> is_digit (hd t)"
  shows "parse_int_part (ds @ t) = Some (ds, t)"
proof -
  obtain c r where ds: "ds = c # r" using assms(2) by (cases ds) auto
  have "parse_int_part (ds @ t) = Some (takeWhile is_digit (ds @ t), dropWhile is_digit (ds @ t))"
    using assms ds by (simp add: parse_int_part_def)
  then show ?thesis
    using assms by (simp add: takeWhile_digits_append dropWhile_digits_append)
qed

lemma parse_frac_part_none: "t = [] \<or> hd t \<noteq> 46 \<Longrightarrow> parse_frac_part t = Some ([], t)"
  by (cases t) (auto simp: parse_frac_part_def)

lemma parse_frac_part_digits:
  "list_all is_digit ds \<Longrightarrow> ds \<noteq> [] \<Longrightarrow> t = [] \<or> \<not> is_digit (hd t) \<Longrightarrow>
   parse_frac_part (46 # ds @ t) = Some (ds, t)"
  by (simp add: parse_frac_part_def takeWhile_digits_append dropWhile_digits_append)

lemma parse_exp_part_none: "t = [] \<or> (hd t \<noteq> 101 \<and> hd t \<noteq> 69) \<Longrightarrow> parse_exp_part t = Some (0, t)"
  by (cases t) (auto simp: parse_exp_part_def)

lemma parse_exp_part_digits:
  assumes "t = [] \<or> \<not> is_digit (hd t)" and "x \<noteq> 0"
  shows "parse_exp_part (101 # (if 0 < x then 43 else 45) # digits (nat \<bar>x\<bar>) @ t) = Some (x, t)"
  using assms
  by (auto simp: parse_exp_part_def parse_exp_digits_def takeWhile_digits_append
      dropWhile_digits_append digits_all)

lemma follow_okD:
  assumes "follow_ok t"
  shows "t = [] \<or> \<not> is_digit (hd t)" and "t = [] \<or> hd t \<noteq> 46"
    and "t = [] \<or> (hd t \<noteq> 101 \<and> hd t \<noteq> 69)"
  using assms by (auto simp: follow_ok_def)

lemma parse_unsigned_integer:
  assumes "0 < m" and t: "follow_ok t"
  shows "parse_unsigned (digits m @ replicate z 48 @ t) = Some (m * 10 ^ z, 0, t)"
proof -
  have "parse_int_part ((digits m @ replicate z 48) @ t) = Some (digits m @ replicate z 48, t)"
    using assms hd_digits [of m] follow_okD(1) [OF t] digits_all [of m]
    by (intro parse_int_part_digits) (auto simp: list_all_iff is_digit_def)
  then show ?thesis
    using follow_okD [OF t]
    by (simp add: parse_unsigned_def parse_frac_part_none parse_exp_part_none digits_value_append)
qed

lemma parse_unsigned_point:
  assumes m: "0 < m" and j: "0 < j" "j < length (digits m)" and t: "follow_ok t"
  shows "parse_unsigned (take j (digits m) @ 46 # drop j (digits m) @ t) =
    Some (m, - int (length (digits m) - j), t)"
proof -
  have all: "list_all is_digit (take j (digits m))" "list_all is_digit (drop j (digits m))"
    using digits_all [of m] by (auto simp: list_all_iff dest: in_set_takeD in_set_dropD)
  have "parse_int_part (take j (digits m) @ (46 # drop j (digits m) @ t)) =
      Some (take j (digits m), 46 # drop j (digits m) @ t)"
    using all hd_digits [OF m] j
    by (intro parse_int_part_digits) (auto simp: is_digit_def hd_take)
  moreover have "parse_frac_part (46 # drop j (digits m) @ t) = Some (drop j (digits m), t)"
    using all j follow_okD(1) [OF t] by (intro parse_frac_part_digits) auto
  ultimately show ?thesis
    using follow_okD(3) [OF t] by (simp add: parse_unsigned_def parse_exp_part_none)
qed

lemma parse_unsigned_zero_point:
  assumes t: "follow_ok t"
  shows "parse_unsigned (48 # 46 # replicate z 48 @ digits m @ t) =
    Some (m, - int (z + length (digits m)), t)"
proof -
  have "parse_frac_part (46 # (replicate z 48 @ digits m) @ t) = Some (replicate z 48 @ digits m, t)"
    using follow_okD(1) [OF t] digits_all [of m]
    by (intro parse_frac_part_digits) (auto simp: list_all_iff is_digit_def)
  moreover have "parse_int_part (48 # s) = Some ([48], s)" for s
    by (simp add: parse_int_part_def)
  moreover have "digits_value (48 # replicate z 48 @ digits m) = m"
    using digits_value_append [of "replicate (Suc z) 48" "digits m"]
      digits_value_zeros [of "Suc z"] by (simp del: digits_value_zeros)
  ultimately show ?thesis
    using follow_okD(3) [OF t] by (simp add: parse_unsigned_def parse_exp_part_none)
qed

lemma parse_unsigned_exp:
  assumes m: "0 < m" and x: "x \<noteq> 0" and t: "follow_ok t"
  shows "parse_unsigned (take 1 (digits m) @
      (if length (digits m) = 1 then [] else 46 # drop 1 (digits m)) @
      101 # (if 0 < x then 43 else 45) # digits (nat \<bar>x\<bar>) @ t) =
    Some (m, x - int (length (digits m) - 1), t)" (is "parse_unsigned (_ @ _ @ ?e) = _")
proof -
  have e: "parse_exp_part ?e = Some (x, t)"
    using follow_okD(1) [OF t] x by (rule parse_exp_part_digits)
  obtain d ds where ds: "digits m = d # ds" by (cases "digits m") auto
  have all: "is_digit d" "list_all is_digit ds" using digits_all [of m] ds by auto
  have d: "d \<noteq> 48" using hd_digits [OF m] ds by simp
  have val: "digits_value (d # ds) = m" using digits_value_digits [of m] ds by simp
  show ?thesis
  proof (cases ds)
    case Nil
    have "parse_int_part ([d] @ ?e) = Some ([d], ?e)"
      using all d by (intro parse_int_part_digits) (auto simp: is_digit_def)
    with Nil ds e val show ?thesis by (simp add: parse_unsigned_def parse_frac_part_none)
  next
    case (Cons d' ds')
    have i: "parse_int_part ([d] @ (46 # ds @ ?e)) = Some ([d], 46 # ds @ ?e)"
      using all d by (intro parse_int_part_digits) (auto simp: is_digit_def)
    have f: "parse_frac_part (46 # ds @ ?e) = Some (ds, ?e)"
      using all Cons by (intro parse_frac_part_digits) (auto simp: is_digit_def)
    from Cons ds e val i f show ?thesis by (simp add: parse_unsigned_def)
  qed
qed

lemma parse_unsigned_pos_to_string:
  assumes m: "0 < m" and t: "follow_ok t"
  shows "\<exists>m' e'. parse_unsigned (pos_to_string m e @ t) = Some (m', e', t) \<and>
    (\<exists>z. m' = m * 10 ^ z \<and> e = e' + int z)"
proof -
  define k where "k = int (length (digits m))"
  define n where "n = k + e"
  have k: "1 \<le> k" using digits_ne [of m] by (cases "digits m") (auto simp: k_def)
  have unf: "pos_to_string m e =
     (if k \<le> n \<and> n \<le> 21 then digits m @ replicate (nat (n - k)) 48
      else if 0 < n \<and> n \<le> 21 then take (nat n) (digits m) @ [46] @ drop (nat n) (digits m)
      else if - 6 < n \<and> n \<le> 0 then [48, 46] @ replicate (nat (- n)) 48 @ digits m
      else take 1 (digits m) @ (if k = 1 then [] else [46] @ drop 1 (digits m)) @ [101] @
        [if 0 < n then 43 else 45] @ digits (nat \<bar>n - 1\<bar>))"
    unfolding pos_to_string_def Let_def k_def n_def by (rule refl)
  consider (int) "k \<le> n \<and> n \<le> 21" | (point) "\<not> (k \<le> n \<and> n \<le> 21)" "0 < n \<and> n \<le> 21"
    | (zero) "- 6 < n \<and> n \<le> 0" | (exp) "n > 21 \<or> n \<le> - 6" by linarith
  then show ?thesis
  proof cases
    case int
    then have "pos_to_string m e @ t = digits m @ replicate (nat e) 48 @ t"
      unfolding unf by (simp add: n_def)
    with parse_unsigned_integer [OF m t, of "nat e"] int show ?thesis by (auto simp: n_def)
  next
    case point
    then have eq: "pos_to_string m e @ t = take (nat n) (digits m) @ 46 # drop (nat n) (digits m) @ t"
      unfolding unf by simp
    from point have "0 < nat n" "nat n < length (digits m)" by (auto simp: k_def)
    from parse_unsigned_point [OF m this t] eq show ?thesis
      using point by (intro exI conjI) (auto simp: n_def k_def intro!: exI [of _ 0])
  next
    case zero
    then have eq: "pos_to_string m e @ t = 48 # 46 # replicate (nat (- n)) 48 @ digits m @ t"
      unfolding unf using k by simp
    from parse_unsigned_zero_point [OF t, of "nat (- n)" m] eq show ?thesis
      using zero by (intro exI conjI) (auto simp: n_def k_def intro!: exI [of _ 0])
  next
    case exp
    have k1: "k = 1 \<longleftrightarrow> length (digits m) = 1" by (simp add: k_def)
    from exp k have ne: "\<not> (k \<le> n \<and> n \<le> 21)" "\<not> (0 < n \<and> n \<le> 21)" "\<not> (- 6 < n \<and> n \<le> 0)"
      by linarith+
    from exp have sgn: "0 < n \<longleftrightarrow> 0 < n - 1" by linarith
    from exp have eq: "pos_to_string m e @ t = take 1 (digits m) @
        (if length (digits m) = 1 then [] else 46 # drop 1 (digits m)) @
        101 # (if 0 < n - 1 then 43 else 45) # digits (nat \<bar>n - 1\<bar>) @ t"
      using ne by (simp only: unf k1 sgn if_False append.simps append_assoc)
    from exp have "n - 1 \<noteq> 0" by linarith
    from parse_unsigned_exp [OF m this t] eq show ?thesis
      using k by (intro exI conjI) (auto simp: n_def k_def intro!: exI [of _ 0])
  qed
qed

lemma hd_pos_to_string: "0 < m \<Longrightarrow> is_digit (hd (pos_to_string m e)) \<and> pos_to_string m e \<noteq> []"
proof -
  obtain d ds where ds: "digits m = d # ds" by (cases "digits m") auto
  then have "is_digit d" using digits_all [of m] by simp
  then show ?thesis
    by (auto simp: pos_to_string_def Let_def ds is_digit_def take_Cons' split: if_splits)
qed

lemma parse_number_num_to_string:
  assumes ok: "num_ok x" and t: "follow_ok t"
  shows "parse_number (num_to_string x @ t) = Some (x, t)"
proof (cases "mant x = 0")
  case True
  then have "x = Dec 0 0" using ok by (cases x) (simp add: num_ok_def)
  then show ?thesis
    using follow_okD [OF t]
    by (simp add: num_to_string_def parse_number_def parse_unsigned_def parse_int_part_def
        parse_frac_part_none parse_exp_part_none digits_value_def normalise.simps)
next
  case False
  obtain m e where x: "x = Dec m e" by (cases x)
  have m: "0 < nat \<bar>m\<bar>" using False x by simp
  obtain m' e' z where p: "parse_unsigned (pos_to_string (nat \<bar>m\<bar>) e @ t) = Some (m', e', t)"
    and z: "m' = nat \<bar>m\<bar> * 10 ^ z" "e = e' + int z"
    using parse_unsigned_pos_to_string [OF m t, of e] by blast
  have hd: "hd (pos_to_string (nat \<bar>m\<bar>) e @ t) \<noteq> 45" "pos_to_string (nat \<bar>m\<bar>) e \<noteq> []"
    using hd_pos_to_string [OF m, of e] by (auto simp: is_digit_def)
  have norm: "normalise (m * 10 ^ z) e' = Dec m e"
    using False x ok z by (simp add: normalise_mult_pow normalise_canonical)
  show ?thesis
  proof (cases "m < 0")
    case True
    then have "- int m' = m * 10 ^ z" using z by simp
    with True x p norm show ?thesis by (simp add: num_to_string_def parse_number_def)
  next
    case nonneg: False
    then have "int m' = m * 10 ^ z" using z by simp
    moreover obtain c r where cr: "pos_to_string (nat \<bar>m\<bar>) e @ t = c # r"
      using hd(2) by (cases "pos_to_string (nat \<bar>m\<bar>) e") auto
    ultimately show ?thesis
      using nonneg False x p norm hd(1) by (simp add: num_to_string_def parse_number_def)
  qed
qed

section \<open>Reading a printed string literal\<close>

lemma hex_value_hex_digit: "n < 16 \<Longrightarrow> hex_value (hex_digit n) = Some n"
  by (auto simp: hex_value_def hex_digit_def)

lemma hex4_u_escape:
  assumes "c < 65536"
  shows "hex4 (hex_digit (c div 4096 mod 16)) (hex_digit (c div 256 mod 16))
    (hex_digit (c div 16 mod 16)) (hex_digit (c mod 16)) = Some c"
proof -
  have "4096 * (c div 4096 mod 16) + 256 * (c div 256 mod 16) + 16 * (c div 16 mod 16) + c mod 16 = c"
  proof -
    define d1 d2 d3 where d: "d1 = c div 16" "d2 = d1 div 16" "d3 = d2 div 16"
    have e: "c div 256 = d2" "c div 4096 = d3"
      by (simp_all add: d div_mult2_eq [symmetric])
    have "d3 < 16" using assms e by auto
    moreover have "c = 16 * d1 + c mod 16" "d1 = 16 * d2 + d1 mod 16" "d2 = 16 * d3 + d2 mod 16"
      by (simp_all add: d)
    ultimately show ?thesis by (simp add: e d(1) [symmetric])
  qed
  with assms show ?thesis by (simp add: hex4_def hex_value_hex_digit)
qed

lemma parse_chars_u_escape:
  "c < 65536 \<Longrightarrow> parse_chars (u_escape c @ s) = map_option (\<lambda>(a, b). (c # a, b)) (parse_chars s)"
  using hex4_u_escape [of c] by (simp add: u_escape_def)

lemma parse_chars_quote_unit:
  "c < 65536 \<Longrightarrow> parse_chars (quote_unit c @ s) = map_option (\<lambda>(a, b). (c # a, b)) (parse_chars s)"
  by (auto simp: quote_unit_def parse_chars_u_escape unescape_def)

lemma parse_chars_raw:
  "55296 \<le> c \<Longrightarrow> parse_chars (c # s) = map_option (\<lambda>(a, b). (c # a, b)) (parse_chars s)"
  by simp

lemma parse_chars_quote_chars:
  "str_ok s \<Longrightarrow> parse_chars (quote_chars s @ 34 # t) = Some (s, t)"
proof (induction s rule: quote_chars.induct)
  case 1
  then show ?case by simp
next
  case (2 c s)
  have c: "c < 65536" and s: "str_ok s" using "2.prems" by (auto simp: str_ok_def)
  show ?case
  proof (cases "is_lead c")
    case True
    show ?thesis
    proof (cases s)
      case Nil
      with True c show ?thesis by (simp add: parse_chars_u_escape)
    next
      case (Cons d s1)
      show ?thesis
      proof (cases "is_trail d")
        case trail: True
        have "parse_chars (quote_chars s1 @ 34 # t) = Some (s1, t)"
          using "2.IH"(1) [OF True Cons trail] s Cons by (simp add: str_ok_def)
        with True trail Cons show ?thesis
          by (simp add: parse_chars_raw is_lead_def is_trail_def del: parse_chars.simps)
      next
        case False
        from "2.IH"(2) [OF True Cons False] s have "parse_chars (quote_chars s @ 34 # t) = Some (s, t)"
          by simp
        with True Cons False c show ?thesis
          by (simp add: parse_chars_u_escape del: parse_chars.simps quote_chars.simps(2))
             (simp add: parse_chars_u_escape del: parse_chars.simps)
      qed
    qed
  next
    case lead: False
    show ?thesis
    proof (cases "is_trail c")
      case True
      from "2.IH"(3) [OF lead True] s lead True c show ?thesis
        by (simp add: parse_chars_u_escape del: parse_chars.simps)
    next
      case False
      from "2.IH"(4) [OF lead False] s lead False c show ?thesis
        by (simp add: parse_chars_quote_unit del: parse_chars.simps)
    qed
  qed
qed

section \<open>Reading a printed value\<close>

lemma skip_ws_Cons: "\<not> is_json_ws c \<Longrightarrow> skip_ws (c # s) = c # s"
  by (simp add: skip_ws_def)

lemma hd_num_to_string:
  "num_to_string x \<noteq> [] \<and> (hd (num_to_string x) = 45 \<or> is_digit (hd (num_to_string x)))"
  using hd_pos_to_string [of "nat \<bar>mant x\<bar>" "expo x"]
  by (auto simp: num_to_string_def is_digit_def)

lemma stringify_head:
  "\<exists>c r. json_stringify v = c # r \<and> \<not> is_json_ws c \<and> c \<noteq> 93 \<and> c \<noteq> 125"
proof (cases v)
  case (JNum x)
  with hd_num_to_string [of x] show ?thesis
    by (cases "num_to_string x") (auto simp: is_digit_def is_json_ws_def)
qed (auto simp: js_def is_json_ws_def json_quote_def)

lemma parse_word_append [simp]: "parse_word w v (w @ t) = Some (v, t)"
  by (simp add: parse_word_def)

definition printed_member :: "js_string \<times> json \<Rightarrow> js_string" where
  "printed_member p = json_quote (fst p) @ [58] @ json_stringify (snd p)"

lemma stringify_JObj:
  "json_stringify (JObj ps) = 123 # join [44] (map printed_member ps) @ [125]"
  by (simp add: printed_member_def [abs_def] case_prod_unfold)

lemma printed_member_pair:
  "printed_member (k, v) = 34 # quote_chars k @ 34 # 58 # json_stringify v"
  by (simp add: printed_member_def json_quote_def)

text \<open>A value is read back whenever the fuel covers its text; \<open>t\<close> is what follows it.\<close>

definition reads_back :: "json \<Rightarrow> bool" where
  "reads_back v \<longleftrightarrow> (\<forall>n t. 2 * length (json_stringify v) + 1 \<le> n \<longrightarrow> follow_ok t \<longrightarrow>
     parse_value n (json_stringify v @ t) = Some (v, t))"

lemma reads_backI:
  assumes "\<And>m t. 2 * length (json_stringify v) \<le> m \<Longrightarrow> follow_ok t \<Longrightarrow>
    parse_value (Suc m) (json_stringify v @ t) = Some (v, t)"
  shows "reads_back v"
  unfolding reads_back_def
proof (intro allI impI)
  fix n t
  assume "2 * length (json_stringify v) + 1 \<le> n" and "follow_ok t"
  then show "parse_value n (json_stringify v @ t) = Some (v, t)"
    using assms [of "n - 1" t] by (cases n) auto
qed

lemma follow_ok_punct: "c \<in> {44, 93, 125} \<Longrightarrow> follow_ok (c # t)"
  by (auto simp: follow_ok_def is_digit_def)

lemma parse_elems_printed:
  assumes "xs \<noteq> []" and "\<forall>v\<in>set xs. reads_back v"
    and "2 * length (join [44] (map json_stringify xs)) + 2 \<le> n"
  shows "parse_elems n acc (join [44] (map json_stringify xs) @ 93 # t) = Some (JArr (acc @ xs), t)"
  using assms
proof (induction xs arbitrary: n acc rule: induct_list012)
  case 1
  then show ?case by simp
next
  case (2 v)
  then obtain k where n: "n = Suc k" by (cases n) auto
  have "parse_value k (json_stringify v @ 93 # t) = Some (v, 93 # t)"
    using 2 n by (auto simp: reads_back_def follow_ok_punct)
  with n show ?case by (simp add: skip_ws_Cons is_json_ws_def)
next
  case (3 v w vs)
  then obtain k where n: "n = Suc k" by (cases n) auto
  let ?rest = "join [44] (map json_stringify (w # vs))"
  have "parse_value k (json_stringify v @ 44 # ?rest @ 93 # t) = Some (v, 44 # ?rest @ 93 # t)"
    using 3 n by (auto simp: reads_back_def follow_ok_punct)
  moreover have "parse_elems k (acc @ [v]) (?rest @ 93 # t) = Some (JArr ((acc @ [v]) @ w # vs), t)"
    using 3 n by (intro "3.IH") auto
  ultimately show ?case using n by (simp add: skip_ws_Cons is_json_ws_def)
qed

lemma parse_value_member:
  assumes "reads_back v" and "2 * length (printed_member (k, v)) \<le> n" and "follow_ok t"
  shows "parse_value n (json_stringify v @ t) = Some (v, t)"
  using assms by (auto simp: reads_back_def printed_member_def json_quote_def)

lemma parse_members_printed:
  assumes "ps \<noteq> []" and "\<forall>p\<in>set ps. str_ok (fst p) \<and> reads_back (snd p)"
    and "2 * length (join [44] (map printed_member ps)) + 2 \<le> n"
  shows "parse_members n acc (join [44] (map printed_member ps) @ 125 # t) =
    Some (JObj (own_order (foldl (\<lambda>o' (k, v). obj_set o' k v) acc ps)), t)"
  using assms
proof (induction ps arbitrary: n acc rule: induct_list012)
  case 1
  then show ?case by simp
next
  case (2 p)
  obtain k v where p: "p = (k, v)" by force
  from 2 obtain m where n: "n = Suc m" by (cases n) auto
  have "parse_value m (json_stringify v @ 125 # t) = Some (v, 125 # t)"
    using 2 n p by (intro parse_value_member [of v k]) (auto simp: follow_ok_punct)
  moreover have "parse_chars (quote_chars k @ 34 # 58 # json_stringify v @ 125 # t) =
      Some (k, 58 # json_stringify v @ 125 # t)"
    using 2 p by (intro parse_chars_quote_chars) simp
  ultimately show ?case
    using n p by (simp add: printed_member_pair skip_ws_Cons is_json_ws_def del: parse_chars.simps)
next
  case (3 p q ps)
  obtain k v where p: "p = (k, v)" by force
  from 3 obtain m where n: "n = Suc m" by (cases n) auto
  let ?rest = "join [44] (map printed_member (q # ps)) @ 125 # t"
  have "parse_value m (json_stringify v @ 44 # ?rest) = Some (v, 44 # ?rest)"
    using 3 n p by (intro parse_value_member [of v k]) (auto simp: follow_ok_punct)
  moreover have "parse_chars (quote_chars k @ 34 # 58 # json_stringify v @ 44 # ?rest) =
      Some (k, 58 # json_stringify v @ 44 # ?rest)"
    using 3 p by (intro parse_chars_quote_chars) simp
  moreover have "parse_members m (obj_set acc k v) ?rest =
      Some (JObj (own_order (foldl (\<lambda>o' (k, v). obj_set o' k v) (obj_set acc k v) (q # ps))), t)"
    using 3 n by (intro "3.IH") auto
  ultimately show ?case
    using n p by (simp add: printed_member_pair skip_ws_Cons is_json_ws_def del: parse_chars.simps)
qed

lemma obj_set_fresh: "k \<notin> fst ` set ps \<Longrightarrow> obj_set ps k v = ps @ [(k, v)]"
  by (induction ps k v rule: obj_set.induct) auto

lemma foldl_obj_set_distinct:
  "distinct (map fst (acc @ ps)) \<Longrightarrow> foldl (\<lambda>o' (k, v). obj_set o' k v) acc ps = acc @ ps"
  by (induction ps arbitrary: acc) (auto simp: obj_set_fresh)

lemma reads_back_JArr:
  assumes "\<forall>v\<in>set xs. reads_back v"
  shows "reads_back (JArr xs)"
proof (rule reads_backI)
  fix m t
  assume m: "2 * length (json_stringify (JArr xs)) \<le> m"
  show "parse_value (Suc m) (json_stringify (JArr xs) @ t) = Some (JArr xs, t)"
  proof (cases xs)
    case Nil
    then show ?thesis by (simp add: skip_ws_Cons is_json_ws_def)
  next
    case (Cons v vs)
    have e: "parse_elems m [] (join [44] (map json_stringify xs) @ 93 # t) = Some (JArr xs, t)"
      using parse_elems_printed [of xs m "[]" t] assms m Cons by simp
    obtain c r where "join [44] (map json_stringify xs) @ 93 # t = c # r"
      "\<not> is_json_ws c" "c \<noteq> 93"
      using stringify_head [of v] Cons by (cases vs) auto
    with e show ?thesis by (simp add: skip_ws_Cons is_json_ws_def)
  qed
qed

lemma reads_back_JObj:
  assumes "\<forall>p\<in>set ps. str_ok (fst p) \<and> reads_back (snd p)"
    and "distinct (map fst ps)" and "own_order ps = ps"
  shows "reads_back (JObj ps)"
proof (rule reads_backI)
  fix m t
  assume m: "2 * length (json_stringify (JObj ps)) \<le> m"
  show "parse_value (Suc m) (json_stringify (JObj ps) @ t) = Some (JObj ps, t)"
  proof (cases ps)
    case Nil
    then show ?thesis by (simp add: skip_ws_Cons is_json_ws_def)
  next
    case (Cons p qs)
    have "parse_members m [] (join [44] (map printed_member ps) @ 125 # t) =
        Some (JObj (own_order (foldl (\<lambda>o' (k, v). obj_set o' k v) [] ps)), t)"
      using assms m [unfolded stringify_JObj] Cons by (intro parse_members_printed) auto
    then have e: "parse_members m [] (join [44] (map printed_member ps) @ 125 # t) = Some (JObj ps, t)"
      using assms foldl_obj_set_distinct [of "[]" ps] by simp
    obtain r where "join [44] (map printed_member ps) @ 125 # t = 34 # r"
      using Cons by (cases qs) (auto simp: printed_member_def json_quote_def)
    with e show ?thesis
      by (simp add: stringify_JObj skip_ws_Cons is_json_ws_def del: json_stringify.simps)
  qed
qed

lemma reads_back_JNum: "num_ok x \<Longrightarrow> reads_back (JNum x)"
proof (rule reads_backI)
  fix m t
  assume ok: "num_ok x" and t: "follow_ok t"
  obtain c r where cr: "num_to_string x = c # r" and c: "c = 45 \<or> is_digit c"
    using hd_num_to_string [of x] by (cases "num_to_string x") auto
  have "parse_number (c # r @ t) = Some (x, t)"
    using parse_number_num_to_string [OF ok t] cr by simp
  with cr c show "parse_value (Suc m) (json_stringify (JNum x) @ t) = Some (JNum x, t)"
    by (auto simp: skip_ws_Cons is_json_ws_def is_digit_def)
qed

lemma json_ok_reads_back: "json_ok v \<Longrightarrow> reads_back v"
proof (induction v)
  case JNull
  have "parse_value (Suc m) (js ''null'' @ t) = Some (JNull, t)" for m t
    using parse_word_append [of "js ''null''" JNull t]
    by (simp add: js_def skip_ws_Cons is_json_ws_def)
  then show ?case by (intro reads_backI) (simp only: json_stringify.simps)
next
  case (JBool b)
  have "parse_value (Suc m) (js ''true'' @ t) = Some (JBool True, t)"
    "parse_value (Suc m) (js ''false'' @ t) = Some (JBool False, t)" for m t
    using parse_word_append [of "js ''true''" "JBool True" t]
      parse_word_append [of "js ''false''" "JBool False" t]
    by (simp_all add: js_def skip_ws_Cons is_json_ws_def)
  then show ?case by (intro reads_backI) (cases b, simp_all only: json_stringify.simps if_True if_False)
next
  case (JNum x)
  then show ?case by (simp add: reads_back_JNum)
next
  case (JStr s)
  then have "parse_value (Suc m) (json_quote s @ t) = Some (JStr s, t)" for m t
    using parse_chars_quote_chars [of s t]
    by (simp add: json_quote_def skip_ws_Cons is_json_ws_def del: parse_chars.simps)
  then show ?case by (intro reads_backI) (simp only: json_stringify.simps)
next
  case (JArr xs)
  then show ?case by (intro reads_back_JArr) (auto simp: list_all_iff)
next
  case (JObj ps)
  then show ?case by (intro reads_back_JObj) (force simp: list_all_iff)+
qed

lemma json_parse_stringify: "json_ok v \<Longrightarrow> json_parse (json_stringify v) = Some v"
proof -
  assume "json_ok v"
  then have "parse_value (2 * length (json_stringify v) + 1) (json_stringify v @ []) = Some (v, [])"
    using json_ok_reads_back [of v] unfolding reads_back_def by (simp only: follow_ok_def) blast
  then show ?thesis by (simp only: json_parse_def append_Nil2) (simp add: skip_ws_def)
qed

section \<open>Parsed values are well formed\<close>

lemma str_ok_Cons [simp]: "str_ok (c # s) \<longleftrightarrow> c < 65536 \<and> str_ok s"
  by (simp add: str_ok_def)

lemma str_ok_Nil [simp]: "str_ok []"
  by (simp add: str_ok_def)

lemma str_ok_append [simp]: "str_ok (s @ t) \<longleftrightarrow> str_ok s \<and> str_ok t"
  by (auto simp: str_ok_def)

lemma str_ok_subset: "str_ok s \<Longrightarrow> set t \<subseteq> set s \<Longrightarrow> str_ok t"
  by (auto simp: str_ok_def)

lemma str_ok_skip_ws: "str_ok s \<Longrightarrow> str_ok (skip_ws s)"
  by (erule str_ok_subset) (auto simp: skip_ws_def dest: set_dropWhileD)

lemma str_ok_dropWhile [simp]: "str_ok s \<Longrightarrow> str_ok (dropWhile P s)"
  by (erule str_ok_subset) (auto dest: set_dropWhileD)

lemma str_ok_drop [simp]: "str_ok s \<Longrightarrow> str_ok (drop n s)"
  by (erule str_ok_subset) (rule set_drop_subset)

lemma str_ok_trim [simp]: "str_ok s \<Longrightarrow> str_ok (trim s)"
  by (erule str_ok_subset) (rule set_trim_subset)

lemma hex_value_less: "hex_value c = Some x \<Longrightarrow> x < 16"
  by (auto simp: hex_value_def split: if_splits)

lemma hex4_less: "hex4 a b c d = Some u \<Longrightarrow> u < 65536"
  by (auto simp: hex4_def dest!: hex_value_less split: option.splits)

lemma unescape_less: "unescape c = Some u \<Longrightarrow> u < 65536"
  by (auto simp: unescape_def split: if_splits)

lemma array_index_None: "k \<noteq> [] \<Longrightarrow> \<not> is_digit (hd k) \<Longrightarrow> array_index k = None"
  by (cases k) (auto simp: array_index_def)

lemma str_ok_js [simp]: "str_ok (js s)"
proof -
  have "of_char c < (65536::nat)" for c :: char
    by (rule less_trans [of _ 256]) (metis of_char_mod_256 mod_less_divisor zero_less_numeral, simp)
  then show ?thesis by (simp add: str_ok_def js_def)
qed

lemma letter_key [simp]: "s \<noteq> [] \<Longrightarrow> \<not> is_digit (of_char (hd s)) \<Longrightarrow> array_index (js s) = None"
  by (rule array_index_None) (simp_all add: js_def hd_map)

lemma str_ok_digits [simp]: "str_ok (digits n)"
  using digits_all [of n] by (auto simp: str_ok_def list_all_iff is_digit_def)

lemma str_ok_int_to_string [simp]: "str_ok (int_to_string i)"
  by (simp add: int_to_string_def)

lemma str_ok_num_to_string [simp]: "str_ok (num_to_string x)"
  by (auto simp: num_to_string_def pos_to_string_def Let_def str_ok_subset [OF str_ok_digits set_take_subset]
      str_ok_def [of "replicate n c" for n c])

lemma str_ok_join: "str_ok sep \<Longrightarrow> list_all str_ok xs \<Longrightarrow> str_ok (join sep xs)"
  by (auto simp: str_ok_def list_all_iff dest!: set_joinD)

lemma json_to_string_ok: "json_ok v \<Longrightarrow> str_ok (json_to_string v)"
  by (induction v rule: json_to_string.induct) (auto simp: list_all_iff intro!: str_ok_join)

lemma hex_digit_ok: "n < 16 \<Longrightarrow> hex_digit n < 65536"
  by (simp add: hex_digit_def)

lemma u_escape_ok: "str_ok (u_escape c)"
  unfolding u_escape_def str_ok_Cons by (intro conjI hex_digit_ok str_ok_Nil) simp_all

lemma quote_unit_ok: "c < 65536 \<Longrightarrow> str_ok (quote_unit c)"
  by (simp add: quote_unit_def u_escape_ok)

lemma quote_chars_ok: "str_ok s \<Longrightarrow> str_ok (quote_chars s)"
proof (induction s rule: length_induct)
  case (1 s)
  then have ih: "length t < length s \<Longrightarrow> str_ok t \<Longrightarrow> str_ok (quote_chars t)" for t by blast
  show ?case
  proof (cases s)
    case (Cons c t)
    then have "c < 65536" "str_ok t" "str_ok (quote_chars t)" using "1.prems" ih [of t] by simp_all
    moreover have "str_ok (quote_chars t')" "d < 65536" if "t = d # t'" for d t'
      using ih [of t'] that Cons "1.prems" by simp_all
    ultimately show ?thesis
      unfolding Cons quote_chars.simps(2) [of c t]
      by (cases t) (simp_all add: quote_unit_ok u_escape_ok del: quote_chars.simps(2))
  qed simp
qed

lemma json_stringify_ok: "json_ok v \<Longrightarrow> str_ok (json_stringify v)"
proof (induction v)
  case (JArr xs)
  then show ?case by (auto simp: list_all_iff intro!: str_ok_join)
next
  case (JObj ps)
  have "str_ok (json_quote k @ [58] @ json_stringify v)" if p: "(k, v) \<in> set ps" for k v
  proof -
    have "str_ok k" "json_ok v" using JObj.prems p by (auto simp: list_all_iff)
    moreover from this have "str_ok (json_stringify v)" using JObj.IH [OF p] by simp
    ultimately show ?thesis by (simp add: json_quote_def quote_chars_ok)
  qed
  then show ?case by (auto simp: list_all_iff intro!: str_ok_join)
qed (simp_all add: json_quote_def quote_chars_ok)

lemma json_parse_blank: "trim s = [] \<Longrightarrow> json_parse s = None"
proof -
  assume "trim s = []"
  then have ws: "\<forall>c\<in>set s. is_ws c" by (simp add: trim_eq_Nil_iff)
  have "parse_value (Suc n) s = None" for n
  proof (cases "skip_ws s")
    case (Cons c r)
    then have "c \<in> set s" by (metis list.set_intros(1) set_dropWhileD skip_ws_def)
    then have "is_ws c" using ws by blast
    then have "c < 34 \<or> 127 < c" by (auto simp: is_ws_def)
    with Cons show ?thesis by (auto simp: parse_number_def parse_unsigned_def parse_int_part_def is_digit_def)
  qed simp
  then show ?thesis by (simp add: json_parse_def)
qed

lemma parse_chars_ok: "parse_chars s = Some (t, r) \<Longrightarrow> str_ok s \<Longrightarrow> str_ok t \<and> str_ok r"
proof (induction s arbitrary: t r rule: length_induct)
  case (1 s)
  have ih: "parse_chars s' = Some (t', r') \<Longrightarrow> length s' < length s \<Longrightarrow> str_ok s' \<Longrightarrow>
      str_ok t' \<and> str_ok r'" for s' t' r'
    using 1(1) by blast
  show ?case
  proof (cases s)
    case Nil
    with "1.prems" show ?thesis by simp
  next
    case (Cons c s0)
    have ih0: "parse_chars s' = Some (t', r') \<Longrightarrow> length s' \<le> length s0 \<Longrightarrow> str_ok s' \<Longrightarrow>
        str_ok t'" "parse_chars s' = Some (t', r') \<Longrightarrow> length s' \<le> length s0 \<Longrightarrow> str_ok s' \<Longrightarrow>
        str_ok r'" for s' t' r'
      using ih [of s' t' r'] Cons by auto
    from "1.prems" Cons show ?thesis
      by (clarsimp split: if_splits list.splits option.splits)
         (auto dest: hex4_less unescape_less simp: ih0)
  qed
qed

lemma parse_int_part_ok: "parse_int_part s = Some (ds, r) \<Longrightarrow> str_ok s \<Longrightarrow> str_ok r"
  by (cases s) (auto simp: parse_int_part_def simp del: dropWhile.simps split: if_splits)

lemma parse_frac_part_ok: "parse_frac_part s = Some (fs, r) \<Longrightarrow> str_ok s \<Longrightarrow> str_ok r"
  by (auto simp: parse_frac_part_def split: list.splits if_splits)

lemma parse_exp_part_ok: "parse_exp_part s = Some (x, r) \<Longrightarrow> str_ok s \<Longrightarrow> str_ok r"
  by (auto simp: parse_exp_part_def parse_exp_digits_def split: list.splits if_splits)

lemma parse_number_ok:
  assumes "parse_number s = Some (x, r)" and "str_ok s"
  shows "num_ok x \<and> str_ok r"
proof -
  have u: "parse_unsigned t = Some (m, e, r') \<Longrightarrow> str_ok t \<Longrightarrow> str_ok r'" for t m e r'
    by (auto simp: parse_unsigned_def split: option.splits
        dest!: parse_int_part_ok parse_frac_part_ok parse_exp_part_ok)
  show ?thesis
    using assms by (auto simp: parse_number_def num_ok_normalise split: list.splits if_splits dest: u)
qed

lemma set_own_order [simp]: "set (own_order ps) = set ps"
  by (auto simp: own_order_def)

lemma own_order_Nil [simp]: "own_order [] = []"
  by (simp add: own_order_def)

lemma distinct_own_order: "distinct (map fst ps) \<Longrightarrow> distinct (map fst (own_order ps))"
proof -
  assume d: "distinct (map fst ps)"
  then have "distinct (own_order ps)"
    by (auto simp: own_order_def distinct_map)
  moreover have "inj_on fst (set (own_order ps))" using d by (simp add: distinct_map)
  ultimately show ?thesis by (simp add: distinct_map)
qed

lemma own_order_idem [simp]: "own_order (own_order ps) = own_order ps"
proof -
  let ?A = "\<lambda>p. array_index (fst p) \<noteq> None" and ?N = "\<lambda>p. array_index (fst p) = None"
  let ?f = "\<lambda>p. the (array_index (fst p))"
  let ?s = "sort_key ?f (filter ?A ps)"
  have "filter ?A ?s = ?s" and "filter ?N ?s = []"
    by (auto simp: filter_empty_conv intro!: filter_True)
  moreover have "filter ?A (filter ?N ps) = []" and "filter ?N (filter ?N ps) = filter ?N ps"
    by (auto simp: filter_empty_conv)
  ultimately show ?thesis
    unfolding own_order_def filter_append by (simp add: sort_key_id_if_sorted)
qed

definition members_ok :: "(js_string \<times> json) list \<Rightarrow> bool" where
  "members_ok ps \<longleftrightarrow> distinct (map fst ps) \<and> (\<forall>p\<in>set ps. str_ok (fst p) \<and> json_ok (snd p))"

lemma set_obj_set: "set (obj_set ps k v) \<subseteq> insert (k, v) (set ps)"
  by (induction ps k v rule: obj_set.induct) auto

lemma members_ok_set: "members_ok ps \<Longrightarrow> str_ok k \<Longrightarrow> json_ok v \<Longrightarrow> members_ok (obj_set ps k v)"
  using set_obj_set [of ps k v] distinct_obj_set [of ps k v] by (fastforce simp: members_ok_def)

lemma members_ok_own_order: "members_ok ps \<Longrightarrow> json_ok (JObj (own_order ps))"
  by (auto simp: members_ok_def list_all_iff distinct_own_order)

lemma parse_word_ok:
  "parse_word w v s = Some (x, r) \<Longrightarrow> json_ok v \<Longrightarrow> str_ok s \<Longrightarrow> json_ok x \<and> str_ok r"
  by (auto simp: parse_word_def split: if_splits)

lemma skip_ws_Cons_ok: "skip_ws s = c # r \<Longrightarrow> str_ok s \<Longrightarrow> c < 65536 \<and> str_ok r"
  using str_ok_skip_ws [of s] by simp

lemma parse_ok:
  "parse_value n s = Some (v, r) \<Longrightarrow> str_ok s \<Longrightarrow> json_ok v \<and> str_ok r"
  "parse_members n acc s = Some (v, r) \<Longrightarrow> str_ok s \<Longrightarrow> members_ok acc \<Longrightarrow> json_ok v \<and> str_ok r"
  "parse_elems n xs s = Some (v, r) \<Longrightarrow> str_ok s \<Longrightarrow> list_all json_ok xs \<Longrightarrow> json_ok v \<and> str_ok r"
proof (induction n arbitrary: s v r acc xs)
  case 0
  { case 1 then show ?case by simp next
    case 2 then show ?case by simp next
    case 3 then show ?case by simp }
next
  case (Suc n)
  { case 1
    then obtain c t where t: "skip_ws s = c # t" by (cases "skip_ws s") auto
    have ct: "c < 65536" "str_ok t" using skip_ws_Cons_ok [OF t] 1 by auto
    then have ctt: "str_ok (c # t)" by simp
    consider (o) "c = 123" | (a) "c = 91" | (s) "c = 34" | (w) "c \<in> {116, 102, 110}"
      | (n) "c \<notin> {123, 91, 34, 116, 102, 110}" by auto
    then show ?case
    proof cases
      case o
      then show ?thesis
        using 1 t ct Suc.IH(2) [of "[]" t v r] skip_ws_Cons_ok [of t]
        by (auto simp: members_ok_def split: list.splits if_splits)
    next
      case a
      then show ?thesis
        using 1 t ct Suc.IH(3) [of "[]" t v r] skip_ws_Cons_ok [of t]
        by (auto split: list.splits if_splits)
    next
      case s
      then show ?thesis using 1 t ct parse_chars_ok [of t] by auto
    next
      case w
      then show ?thesis using 1 t ctt parse_word_ok [of _ _ "c # t" v r] by auto
    next
      case n
      then show ?thesis using 1 t ctt parse_number_ok [of "c # t"] by auto
    qed
  next
    case 2
    then obtain t where t: "skip_ws s = 34 # t"
      by (cases "skip_ws s") (auto split: if_splits)
    then obtain k t1 where k: "parse_chars t = Some (k, t1)"
      using 2 by (cases "parse_chars t") auto
    then obtain t2 where t2: "skip_ws t1 = 58 # t2"
      using 2 t by (cases "skip_ws t1") (auto split: if_splits)
    then obtain x t3 where x: "parse_value n t2 = Some (x, t3)"
      using 2 t k by (cases "parse_value n t2") auto
    then obtain f t4 where f: "skip_ws t3 = f # t4"
      using 2 t k t2 by (cases "skip_ws t3") auto
    have kt: "str_ok k" "str_ok t1" using parse_chars_ok [OF k] skip_ws_Cons_ok [OF t] 2 by auto
    have xt: "json_ok x" "str_ok t3" using Suc.IH(1) [OF x] skip_ws_Cons_ok [OF t2] kt by auto
    have ft: "str_ok t4" using skip_ws_Cons_ok [OF f] xt by auto
    have "members_ok (obj_set acc k x)" using 2 kt xt by (intro members_ok_set)
    then show ?case
      using 2 t k t2 x f ft Suc.IH(2) [of "obj_set acc k x" t4 v r]
        members_ok_own_order [of "obj_set acc k x"]
      by (auto simp del: json_ok.simps split: if_splits)
  next
    case 3
    then obtain x t where x: "parse_value n s = Some (x, t)"
      by (cases "parse_value n s") auto
    then obtain f t1 where f: "skip_ws t = f # t1" using 3 by (cases "skip_ws t") auto
    have xt: "json_ok x" "str_ok t" using Suc.IH(1) [OF x] 3 by auto
    have "str_ok t1" using skip_ws_Cons_ok [OF f] xt by auto
    then show ?case
      using 3 x f xt Suc.IH(3) [of "xs @ [x]" t1 v r] by (auto split: if_splits) }
qed

lemma json_parse_ok: "json_parse s = Some v \<Longrightarrow> str_ok s \<Longrightarrow> json_ok v"
  using parse_ok(1) by (auto simp: json_parse_def simp del: parse_value.simps split: option.splits if_splits)

text \<open>Parsing is stable: a parsed value prints to a text that parses to it again.\<close>

lemma json_parse_stable:
  "json_parse s = Some v \<Longrightarrow> str_ok s \<Longrightarrow> json_parse (json_stringify v) = Some v"
  by (intro json_parse_stringify json_parse_ok)

section \<open>Enough fuel\<close>

text \<open>Every parser leaves a suffix no longer than its input, so the fuel \<open>2 * length s + 1\<close> of
  \<open>json_parse\<close> never runs out: any larger fuel gives the same result.\<close>

lemma length_skip_ws: "length (skip_ws s) \<le> length s"
  by (simp add: skip_ws_def length_dropWhile_le)

lemma parse_chars_length: "parse_chars s = Some (k, r) \<Longrightarrow> length r < length s"
proof (induction s arbitrary: k r rule: parse_chars.induct)
  case 1
  then show ?case by simp
next
  case (2 c s)
  then show ?case
    by (auto split: if_splits list.splits option.splits; fastforce)
qed

lemma parse_int_part_length: "parse_int_part s = Some (k, r) \<Longrightarrow> length r < length s"
  by (auto simp: parse_int_part_def length_dropWhile_le le_imp_less_Suc split: list.splits if_splits)

lemma parse_frac_part_length: "parse_frac_part s = Some (k, r) \<Longrightarrow> length r \<le> length s"
  by (auto simp: parse_frac_part_def length_dropWhile_le le_SucI split: list.splits if_splits)

lemma parse_exp_part_length: "parse_exp_part s = Some (k, r) \<Longrightarrow> length r \<le> length s"
  by (auto simp: parse_exp_part_def parse_exp_digits_def length_dropWhile_le le_SucI
      split: list.splits if_splits)

lemma parse_unsigned_length: "parse_unsigned s = Some (m, e, r) \<Longrightarrow> length r < length s"
  by (force simp: parse_unsigned_def split: option.splits
      dest!: parse_int_part_length parse_frac_part_length parse_exp_part_length)

lemma parse_number_length: "parse_number s = Some (x, r) \<Longrightarrow> length r < length s"
  by (auto simp: parse_number_def split: list.splits if_splits dest!: parse_unsigned_length)

lemma parse_word_length: "parse_word w v s = Some (x, r) \<Longrightarrow> length r \<le> length s"
  by (auto simp: parse_word_def split: if_splits)

lemma skip_ws_Cons_length: "skip_ws s = c # r \<Longrightarrow> length r < length s"
  using length_skip_ws [of s] by simp

lemma parse_lengths:
  "parse_value n s = Some (v, r) \<Longrightarrow> length r \<le> length s"
  "parse_members n acc s = Some (v, r) \<Longrightarrow> length r \<le> length s"
  "parse_elems n xs s = Some (v, r) \<Longrightarrow> length r \<le> length s"
proof (induction n s and n acc s and n xs s arbitrary: v r and v r and v r
    rule: parse_value_parse_members_parse_elems.induct)
  case (2 n s)
  then show ?case
    by (auto split: list.splits if_splits dest!: skip_ws_Cons_length parse_chars_length
        parse_word_length parse_number_length; fastforce)
next
  case (4 n acc s)
  then show ?case
    by (auto split: list.splits if_splits option.splits
        dest!: skip_ws_Cons_length parse_chars_length; fastforce)
next
  case (6 n xs s)
  then show ?case
    by (auto split: list.splits if_splits option.splits dest!: skip_ws_Cons_length; fastforce)
qed simp_all

lemma parse_fuel:
  "2 * length s + 1 \<le> n \<Longrightarrow> 2 * length s + 1 \<le> n' \<Longrightarrow> parse_value n s = parse_value n' s"
  "2 * length s + 2 \<le> n \<Longrightarrow> 2 * length s + 2 \<le> n' \<Longrightarrow>
   parse_members n acc s = parse_members n' acc s"
  "2 * length s + 2 \<le> n \<Longrightarrow> 2 * length s + 2 \<le> n' \<Longrightarrow> parse_elems n xs s = parse_elems n' xs s"
proof (induction n s and n acc s and n xs s arbitrary: n' and n' and n'
    rule: parse_value_parse_members_parse_elems.induct)
  case (2 n s)
  from "2.prems" obtain k where n': "n' = Suc k" by (cases n') auto
  have "parse_members n [] r = parse_members k [] r"
    if "skip_ws s = 123 # r" "skip_ws r = d # r1" "d \<noteq> 125" for r d r1
    using "2.IH"(1) [OF that(1) refl that(2,3), of k] "2.prems" n' skip_ws_Cons_length [OF that(1)]
    by simp
  moreover have "parse_elems n [] r = parse_elems k [] r"
    if "skip_ws s = 91 # r" "skip_ws r = d # r1" "d \<noteq> 93" for r d r1
    using "2.IH"(2) [OF that(1) _ refl that(2,3), of k] "2.prems" n' skip_ws_Cons_length [OF that(1)]
    by simp
  ultimately show ?case by (simp add: n' split: list.split)
next
  case (4 n acc s)
  from "4.prems" obtain k where n': "n' = Suc k" by (cases n') auto
  note len = skip_ws_Cons_length parse_chars_length
  have v: "parse_value n r2 = parse_value k r2"
    if "skip_ws s = 34 # r" "parse_chars r = Some (key, r1)" "skip_ws r1 = 58 # r2" for r key r1 r2
    using "4.IH"(1) [OF that(1) _ that(2) refl that(3), of k] "4.prems" n'
      that(1,3) [THEN len(1)] that(2) [THEN len(2)] by simp
  have "parse_members n (obj_set acc key v) r4 = parse_members k (obj_set acc key v) r4"
    if "skip_ws s = 34 # r" "parse_chars r = Some (key, r1)" "skip_ws r1 = 58 # r2"
      "parse_value n r2 = Some (v, r3)" "skip_ws r3 = 44 # r4" for r key r1 r2 v r3 r4
    using "4.IH"(2) [OF that(1) _ that(2) refl that(3) _ that(4) refl that(5) refl, of k] "4.prems" n'
      that(1,3,5) [THEN len(1)] that(2) [THEN len(2)] parse_lengths(1) [OF that(4)] by simp
  with v show ?case by (simp add: n' split: list.split option.split)
next
  case (6 n xs s)
  from "6.prems" obtain k where n': "n' = Suc k" by (cases n') auto
  have "parse_value n s = parse_value k s" using "6.IH"(1) [of k] "6.prems" n' by simp
  moreover have "parse_elems n (xs @ [v]) r1 = parse_elems k (xs @ [v]) r1"
    if "parse_value n s = Some (v, r)" and "skip_ws r = 44 # r1" for v r r1
    using that "6.IH"(2) [OF that(1) refl that(2) refl, of k] "6.prems" n'
      parse_lengths(1) [OF that(1)] skip_ws_Cons_length [OF that(2)] by simp
  ultimately show ?case by (auto simp: n' split: list.split option.split)
qed simp_all

lemma json_parse_fuel:
  "2 * length s + 1 \<le> n \<Longrightarrow>
   json_parse s = (case parse_value n s of
      None \<Rightarrow> None | Some (v, r) \<Rightarrow> if skip_ws r = [] then Some v else None)"
  unfolding json_parse_def using parse_fuel(1) [of s n "2 * length s + 1"] by simp

section \<open>The interface of the codec\<close>

locale json_codec =
  fixes parse :: "js_string \<Rightarrow> json option"
    and stringify :: "json \<Rightarrow> js_string"
    and ok :: "json \<Rightarrow> bool"
  assumes parse_stringify: "ok v \<Longrightarrow> parse (stringify v) = Some v"
    and stringify_ne: "stringify v \<noteq> []"
begin

lemma stringify_inject: "ok v \<Longrightarrow> ok w \<Longrightarrow> stringify v = stringify w \<longleftrightarrow> v = w"
  using parse_stringify by (metis option.inject)

end

interpretation std_json: json_codec json_parse json_stringify json_ok
proof unfold_locales
  show "json_ok v \<Longrightarrow> json_parse (json_stringify v) = Some v" for v
    by (rule json_parse_stringify)
  show "json_stringify v \<noteq> []" for v
    using stringify_head [of v] by auto
qed

end
