(* ===== verification/HttpStatusRules.thy ===== *)
theory HttpStatusRules
  imports JsonRoundTrip
begin

text \<open>
  The HTTP status code rules of \<open>lib/http-status-code-rules.ts\<close>: an operator lists codes and ranges
  (\<open>429, 500-599\<close>) for which channels are disabled or requests retried. The parser validates every
  token, merges overlapping and adjacent ranges and prints the canonical text.

  The argument \<open>input ?? ''\<close> is an optional string: the callers pass form fields.
\<close>

section \<open>Definitions\<close>

record status_code_range =
  rng_start :: nat
  rng_end :: nat

record parsed_rules =
  rules_ok :: bool
  rules_ranges :: "status_code_range list"
  rules_tokens :: "js_string list"
  rules_normalized :: js_string
  rules_invalid :: "js_string list"

definition isNumber :: "js_string \<Rightarrow> bool" where
  "isNumber s \<longleftrightarrow> s \<noteq> [] \<and> list_all is_digit s"

definition isValidCode :: "nat \<Rightarrow> bool" where
  "isValidCode code \<longleftrightarrow> 100 \<le> code \<and> code \<le> 599"

text \<open>\<open>const [a, b] = cleaned.split('-')\<close> takes the first two pieces and drops the rest.\<close>

definition parseToken :: "js_string \<Rightarrow> status_code_range option" where
  "parseToken token =
     (let cleaned = filter (\<lambda>c. \<not> is_ws c) (trim token) in
      if cleaned = [] then None
      else if 45 \<in> set cleaned then
        (let a = split_on 45 cleaned ! 0; b = split_on 45 cleaned ! 1 in
         if \<not> isNumber a \<or> \<not> isNumber b then None
         else
           (let s = digits_value a; e = digits_value b in
            if \<not> isValidCode s \<or> \<not> isValidCode e \<or> s > e then None
            else Some \<lparr>rng_start = s, rng_end = e\<rparr>))
      else if \<not> isNumber cleaned then None
      else
        (let code = digits_value cleaned in
         if \<not> isValidCode code then None else Some \<lparr>rng_start = code, rng_end = code\<rparr>))"

definition compareRanges :: "status_code_range \<Rightarrow> status_code_range \<Rightarrow> int" where
  "compareRanges a b =
     (if rng_start a \<noteq> rng_start b then int (rng_start a) - int (rng_start b)
      else int (rng_end a) - int (rng_end b))"

definition mergeStep :: "status_code_range list \<Rightarrow> status_code_range \<Rightarrow> status_code_range list" where
  "mergeStep merged current =
     (if merged = [] \<or> rng_start current > rng_end (last merged) + 1 then merged @ [current]
      else butlast merged @
        [(last merged)\<lparr>rng_end := max (rng_end (last merged)) (rng_end current)\<rparr>])"

definition mergeRanges :: "status_code_range list \<Rightarrow> status_code_range list" where
  "mergeRanges rs = (if rs = [] then [] else foldl mergeStep [] (js_sort compareRanges rs))"

definition rangeToken :: "status_code_range \<Rightarrow> js_string" where
  "rangeToken r =
     (if rng_start r = rng_end r then int_to_string (int (rng_start r))
      else int_to_string (int (rng_start r)) @ [45] @ int_to_string (int (rng_end r)))"

text \<open>The segments of the input: full-width commas (U+FF0C) count as commas.\<close>

definition ruleSegments :: "js_string \<Rightarrow> js_string list" where
  "ruleSegments raw =
     filter_truthy (map trim (split_on 44 (map (\<lambda>c. if c = 65292 then 44 else c) raw)))"

definition parseHttpStatusCodeRules :: "js_string option \<Rightarrow> parsed_rules" where
  "parseHttpStatusCodeRules input =
     (let raw = trim (opt_str input) in
      if raw = [] then
        \<lparr>rules_ok = True, rules_ranges = [], rules_tokens = [], rules_normalized = [],
         rules_invalid = []\<rparr>
      else
        (let segments = ruleSegments raw;
             ranges = List.map_filter parseToken segments;
             invalidTokens = filter (\<lambda>s. parseToken s = None) segments in
         if invalidTokens \<noteq> [] then
           \<lparr>rules_ok = False, rules_ranges = [], rules_tokens = [], rules_normalized = raw,
            rules_invalid = invalidTokens\<rparr>
         else
           (let merged = mergeRanges ranges; tokens = map rangeToken merged in
            \<lparr>rules_ok = True, rules_ranges = merged, rules_tokens = tokens,
             rules_normalized = join [44] tokens, rules_invalid = []\<rparr>)))"

section \<open>Specification\<close>

text \<open>The codes a range denotes, and the canonical lists of ranges: valid, ascending, and separated
  by at least one code.\<close>

definition codes_of :: "status_code_range list \<Rightarrow> nat set" where
  "codes_of rs = (\<Union>r\<in>set rs. {rng_start r..rng_end r})"

definition range_ok :: "status_code_range \<Rightarrow> bool" where
  "range_ok r \<longleftrightarrow> isValidCode (rng_start r) \<and> isValidCode (rng_end r) \<and> rng_start r \<le> rng_end r"

definition canonical :: "status_code_range list \<Rightarrow> bool" where
  "canonical rs \<longleftrightarrow> (\<forall>r\<in>set rs. range_ok r) \<and> sorted_wrt (\<lambda>a b. rng_end a + 1 < rng_start b) rs"

text \<open>The codes the text lists, token by token.\<close>

definition listed_codes :: "js_string \<Rightarrow> nat set" where
  "listed_codes input = codes_of (List.map_filter parseToken (ruleSegments (trim input)))"

section \<open>Merging\<close>

interpretation ranges: comparator compareRanges
  by unfold_locales (auto simp: compareRanges_def split: if_splits)

lemma parseToken_ok: "parseToken t = Some r \<Longrightarrow> range_ok r"
  by (auto simp: parseToken_def Let_def range_ok_def split: if_splits)

lemma canonical_snoc:
  "canonical (rs @ [r]) \<longleftrightarrow>
   canonical rs \<and> range_ok r \<and> (\<forall>a\<in>set rs. rng_end a + 1 < rng_start r)"
  by (auto simp: canonical_def sorted_wrt_append)

lemma canonical_last_max:
  assumes "canonical rs" and "rs \<noteq> []" and "a \<in> set rs"
  shows "rng_end a \<le> rng_end (last rs)"
proof (cases "a = last rs")
  case False
  obtain bs b where rs: "rs = bs @ [b]" using assms(2) by (cases rs rule: rev_cases) auto
  then have "rng_end a + 1 < rng_start b" "range_ok b"
    using assms False by (auto simp: canonical_snoc)
  then show ?thesis using rs by (simp add: range_ok_def)
qed simp

text \<open>One step keeps the list canonical and adds exactly the codes of the current range, provided it
  does not start before the last merged range does.\<close>

lemma mergeStep_correct:
  assumes can: "canonical m" and ok: "range_ok r"
    and ord: "m \<noteq> [] \<Longrightarrow> rng_start (last m) \<le> rng_start r"
  shows "canonical (mergeStep m r) \<and> codes_of (mergeStep m r) = codes_of m \<union> {rng_start r..rng_end r}
    \<and> mergeStep m r \<noteq> [] \<and> rng_start (last (mergeStep m r)) \<le> rng_start r"
proof (cases "m = [] \<or> rng_start r > rng_end (last m) + 1")
  case True
  then have "mergeStep m r = m @ [r]" by (auto simp: mergeStep_def)
  moreover have "\<forall>a\<in>set m. rng_end a + 1 < rng_start r"
    using True canonical_last_max [OF can] by fastforce
  ultimately show ?thesis using can ok by (auto simp: canonical_snoc codes_of_def)
next
  case False
  then obtain bs b where m: "m = bs @ [b]" by (cases m rule: rev_cases) auto
  let ?b = "b\<lparr>rng_end := max (rng_end b) (rng_end r)\<rparr>"
  have step: "mergeStep m r = bs @ [?b]" using False m by (simp add: mergeStep_def)
  have b: "canonical bs" "range_ok b" "\<forall>a\<in>set bs. rng_end a + 1 < rng_start b"
    using can m by (auto simp: canonical_snoc)
  have "range_ok ?b" using b ok by (auto simp: range_ok_def isValidCode_def max_def)
  moreover have "{rng_start b..max (rng_end b) (rng_end r)} =
      {rng_start b..rng_end b} \<union> {rng_start r..rng_end r}"
    using False m ord b(2) ok by (auto simp: range_ok_def)
  ultimately show ?thesis
    using step m b ord by (auto simp: canonical_snoc codes_of_def)
qed

lemma foldl_mergeStep_correct:
  assumes "canonical m" and "\<forall>r\<in>set rs. range_ok r" and "sorted_wrt (\<lambda>a b. compareRanges a b \<le> 0) rs"
    and "m \<noteq> [] \<Longrightarrow> \<forall>r\<in>set rs. rng_start (last m) \<le> rng_start r"
  shows "canonical (foldl mergeStep m rs) \<and> codes_of (foldl mergeStep m rs) = codes_of m \<union> codes_of rs"
  using assms
proof (induction rs arbitrary: m)
  case Nil
  then show ?case by (simp add: codes_of_def)
next
  case (Cons r rs)
  have step: "canonical (mergeStep m r)" "codes_of (mergeStep m r) = codes_of m \<union> {rng_start r..rng_end r}"
    "mergeStep m r \<noteq> []" "rng_start (last (mergeStep m r)) \<le> rng_start r"
    using mergeStep_correct [of m r] Cons.prems by auto
  have "rng_start r \<le> rng_start s" if "s \<in> set rs" for s
  proof -
    have "compareRanges r s \<le> 0" using that Cons.prems(3) by auto
    then show ?thesis by (auto simp: compareRanges_def split: if_splits)
  qed
  then have "canonical (foldl mergeStep (mergeStep m r) rs) \<and>
      codes_of (foldl mergeStep (mergeStep m r) rs) = codes_of (mergeStep m r) \<union> codes_of rs"
    using Cons.prems step by (intro Cons.IH) fastforce+
  then show ?case using step(2) by (auto simp: codes_of_def)
qed

lemma mergeRanges_correct:
  "\<forall>r\<in>set rs. range_ok r \<Longrightarrow> canonical (mergeRanges rs) \<and> codes_of (mergeRanges rs) = codes_of rs"
  using foldl_mergeStep_correct [of "[]" "js_sort compareRanges rs"] ranges.sorted_js_sort [of rs]
  by (auto simp: mergeRanges_def canonical_def codes_of_def)

section \<open>Uniqueness of the canonical form\<close>

lemma codes_of_Cons: "codes_of (r # rs) = {rng_start r..rng_end r} \<union> codes_of rs"
  by (simp add: codes_of_def)

lemma canonical_Cons:
  "canonical (r # rs) \<longleftrightarrow>
   range_ok r \<and> canonical rs \<and> (\<forall>a\<in>set rs. rng_end r + 1 < rng_start a)"
  by (auto simp: canonical_def)

lemma canonical_Cons_codes:
  assumes "canonical (r # rs)" and "x \<in> codes_of rs"
  shows "rng_end r + 1 < x"
  using assms by (fastforce simp: canonical_Cons codes_of_def)

lemma canonical_Cons_first:
  assumes "canonical (r # rs)"
  shows "Least (\<lambda>x. x \<in> codes_of (r # rs)) = rng_start r"
    and "Least (\<lambda>x. rng_start r < x \<and> x \<notin> codes_of (r # rs)) = rng_end r + 1"
proof -
  have ok: "rng_start r \<le> rng_end r" using assms by (simp add: canonical_Cons range_ok_def)
  show "Least (\<lambda>x. x \<in> codes_of (r # rs)) = rng_start r"
    using ok canonical_Cons_codes [OF assms] by (intro Least_equality) (force simp: codes_of_Cons)+
  show "Least (\<lambda>x. rng_start r < x \<and> x \<notin> codes_of (r # rs)) = rng_end r + 1"
  proof (rule Least_equality)
    show "rng_start r < rng_end r + 1 \<and> rng_end r + 1 \<notin> codes_of (r # rs)"
      using ok canonical_Cons_codes [OF assms, of "rng_end r + 1"] by (auto simp: codes_of_Cons)
  next
    fix y
    assume "rng_start r < y \<and> y \<notin> codes_of (r # rs)"
    then show "rng_end r + 1 \<le> y" by (auto simp: codes_of_Cons)
  qed
qed

lemma codes_of_eq_Nil: "canonical rs \<Longrightarrow> codes_of rs = {} \<longleftrightarrow> rs = []"
  by (cases rs) (auto simp: canonical_Cons range_ok_def codes_of_Cons, simp add: codes_of_def)

lemma canonical_tail_codes:
  "canonical (r # rs) \<Longrightarrow> codes_of rs = {x \<in> codes_of (r # rs). rng_end r < x}"
  using canonical_Cons_codes [of r rs] by (auto simp: codes_of_Cons) fastforce

lemma canonical_unique:
  "canonical rs \<Longrightarrow> canonical rs' \<Longrightarrow> codes_of rs = codes_of rs' \<Longrightarrow> rs = rs'"
proof (induction rs arbitrary: rs')
  case Nil
  then show ?case using codes_of_eq_Nil [of rs'] by (simp add: codes_of_def)
next
  case (Cons r rs)
  have "rs' \<noteq> []" using Cons.prems codes_of_eq_Nil [of "r # rs"] by (auto simp: codes_of_def)
  then obtain r' qs where rs': "rs' = r' # qs" by (cases rs') auto
  have s: "rng_start r = rng_start r'"
    using canonical_Cons_first(1) [of r rs] canonical_Cons_first(1) [of r' qs] Cons.prems rs' by simp
  have e: "rng_end r = rng_end r'"
    using canonical_Cons_first(2) [of r rs] canonical_Cons_first(2) [of r' qs] Cons.prems rs' s by simp
  have "codes_of rs = codes_of qs"
    using Cons.prems rs' e canonical_tail_codes [of r rs] canonical_tail_codes [of r' qs] by simp
  with Cons rs' s e show ?case by (auto simp: canonical_Cons)
qed

section \<open>Printing and reading tokens\<close>

lemma int_to_string_nat: "int_to_string (int n) = digits n"
  by (simp add: int_to_string_def)

lemma isNumber_digits: "isNumber (digits n)"
  by (simp add: isNumber_def digits_all)

lemma digits_units: "c \<in> set (digits n) \<Longrightarrow> 48 \<le> c \<and> c \<le> 57"
  using digits_all [of n] by (auto simp: list_all_iff is_digit_def)

lemma is_ws_token_unit: "45 \<le> c \<Longrightarrow> c \<le> 57 \<Longrightarrow> \<not> is_ws c"
  by (auto simp: is_ws_def)

lemma rangeToken_units: "c \<in> set (rangeToken r) \<Longrightarrow> 45 \<le> c \<and> c \<le> 57"
  by (auto simp: rangeToken_def int_to_string_nat dest!: digits_units split: if_splits)

lemma rangeToken_ne [simp]: "rangeToken r \<noteq> []"
  by (simp add: rangeToken_def int_to_string_nat)

lemma trim_no_ws: "\<forall>c\<in>set s. \<not> is_ws c \<Longrightarrow> trim s = s"
  by (rule trim_id) (auto simp: trimmed_def)

lemma trim_rangeToken [simp]: "trim (rangeToken r) = rangeToken r"
  by (rule trim_no_ws) (auto dest!: rangeToken_units simp: is_ws_token_unit)

lemma parseToken_rangeToken:
  assumes "range_ok r"
  shows "parseToken (rangeToken r) = Some r"
proof -
  have clean: "filter (\<lambda>c. \<not> is_ws c) (trim (rangeToken r)) = rangeToken r"
    unfolding trim_rangeToken by (rule filter_True) (auto dest!: rangeToken_units simp: is_ws_token_unit)
  have no_dash: "45 \<notin> set (digits n)" for n using digits_units [of 45 n] by auto
  show ?thesis
  proof (cases "rng_start r = rng_end r")
    case True
    then have t: "rangeToken r = digits (rng_start r)" by (simp add: rangeToken_def int_to_string_nat)
    show ?thesis
      using assms True clean unfolding t
      by (simp add: parseToken_def Let_def no_dash isNumber_digits range_ok_def)
  next
    case False
    then have t: "rangeToken r = digits (rng_start r) @ 45 # digits (rng_end r)"
      by (simp add: rangeToken_def int_to_string_nat)
    have "split_on 45 (digits (rng_start r) @ 45 # digits (rng_end r)) =
        [digits (rng_start r), digits (rng_end r)]"
      by (simp add: split_on_append_sep split_on_no_sep no_dash)
    then show ?thesis
      using assms clean unfolding t
      by (simp add: parseToken_def Let_def isNumber_digits range_ok_def)
  qed
qed

lemma join_tokens_units:
  "c \<in> set (join [44] (map rangeToken rs)) \<Longrightarrow> 44 \<le> c \<and> c \<le> 57"
  by (fastforce dest!: set_joinD rangeToken_units)

lemma ruleSegments_join_tokens:
  "ruleSegments (join [44] (map rangeToken rs)) = map rangeToken rs"
proof (cases "rs = []")
  case True
  then show ?thesis by (simp add: ruleSegments_def filter_truthy_def)
next
  case False
  have "map (\<lambda>c. if c = 65292 then 44 else c) (join [44] (map rangeToken rs)) =
      join [44] (map rangeToken rs)"
    by (rule map_idI) (auto dest!: join_tokens_units)
  moreover have "split_on 44 (join [44] (map rangeToken rs)) = map rangeToken rs"
    using False by (intro split_on_join) (auto dest!: rangeToken_units)
  ultimately show ?thesis by (simp add: ruleSegments_def filter_truthy_def comp_def)
qed

lemma trim_join_tokens: "trim (join [44] (map rangeToken rs)) = join [44] (map rangeToken rs)"
  by (rule trim_no_ws) (auto dest!: join_tokens_units simp: is_ws_def)

lemma map_filter_total: "\<forall>x\<in>set xs. f x \<noteq> None \<Longrightarrow> set (List.map_filter f xs) = {y. \<exists>x\<in>set xs. f x = Some y}"
  by (induction xs) (auto simp: List.map_filter_def)

lemma map_filter_parse_tokens:
  "\<forall>r\<in>set rs. range_ok r \<Longrightarrow> List.map_filter parseToken (map rangeToken rs) = rs"
  by (induction rs) (auto simp: List.map_filter_def parseToken_rangeToken)

lemma parsed_ranges_ok: "\<forall>r\<in>set (List.map_filter parseToken ss). range_ok r"
  by (auto simp: List.map_filter_def parseToken_ok)

section \<open>The parser\<close>

text \<open>What the parser returns, in terms of the specification.\<close>

lemma parse_rules_ok_iff:
  "rules_ok (parseHttpStatusCodeRules (Some s)) \<longleftrightarrow>
   (\<forall>t\<in>set (ruleSegments (trim s)). parseToken t \<noteq> None)"
  by (auto simp: parseHttpStatusCodeRules_def opt_str_def Let_def ruleSegments_def filter_empty_conv)

lemma parse_rules_ranges:
  assumes "rules_ok (parseHttpStatusCodeRules (Some s))"
  shows "canonical (rules_ranges (parseHttpStatusCodeRules (Some s)))"
    and "codes_of (rules_ranges (parseHttpStatusCodeRules (Some s))) = listed_codes s"
    and "rules_normalized (parseHttpStatusCodeRules (Some s)) =
      join [44] (map rangeToken (rules_ranges (parseHttpStatusCodeRules (Some s))))"
  using assms mergeRanges_correct [OF parsed_ranges_ok [of "ruleSegments (trim s)"]]
  by (auto simp: parseHttpStatusCodeRules_def opt_str_def Let_def listed_codes_def ruleSegments_def
      filter_truthy_def codes_of_def canonical_def List.map_filter_def split: if_splits)

lemma rangeToken_inject: "range_ok r \<Longrightarrow> range_ok r' \<Longrightarrow> rangeToken r = rangeToken r' \<longleftrightarrow> r = r'"
  using parseToken_rangeToken by (metis option.inject)

lemma join_tokens_inject:
  assumes "canonical rs" and "canonical rs'"
  shows "join [44] (map rangeToken rs) = join [44] (map rangeToken rs') \<longleftrightarrow> rs = rs'"
  using assms ruleSegments_join_tokens [of rs] ruleSegments_join_tokens [of rs']
    map_filter_parse_tokens [of rs] map_filter_parse_tokens [of rs']
  by (metis canonical_def)

section \<open>Properties\<close>

text \<open>C4 (functional): when every token is valid, the result lists exactly the codes the text lists:
  the merged ranges are valid, ascending and separated by at least one code, and their union is the
  union of the ranges of the single tokens.\<close>

theorem status_rules_correct:
  assumes "\<forall>t\<in>set (ruleSegments (trim s)). parseToken t \<noteq> None"
  shows "rules_ok (parseHttpStatusCodeRules (Some s)) \<and>
    canonical (rules_ranges (parseHttpStatusCodeRules (Some s))) \<and>
    codes_of (rules_ranges (parseHttpStatusCodeRules (Some s))) =
      (\<Union>t\<in>set (ruleSegments (trim s)). case parseToken t of
         None \<Rightarrow> {} | Some r \<Rightarrow> {rng_start r..rng_end r})"
proof -
  have ok: "rules_ok (parseHttpStatusCodeRules (Some s))"
    using assms by (simp add: parse_rules_ok_iff)
  have "listed_codes s = (\<Union>t\<in>set (ruleSegments (trim s)). case parseToken t of
      None \<Rightarrow> {} | Some r \<Rightarrow> {rng_start r..rng_end r})"
    using assms by (force simp: listed_codes_def codes_of_def map_filter_total split: option.splits)
  with ok parse_rules_ranges(1,2) [OF ok] show ?thesis by simp
qed

theorem status_rules_correct_witness:
  "list_all (\<lambda>t. parseToken t \<noteq> None) (ruleSegments (trim (js ''500-502, 429,501-504''))) \<and>
   codes_of (rules_ranges (parseHttpStatusCodeRules (Some (js ''500-502, 429,501-504'')))) =
     {429} \<union> {500..504}"
proof -
  have seg: "ruleSegments (trim (js ''500-502, 429,501-504'')) =
      [js ''500-502'', js ''429'', js ''501-504'']"
    by (simp add: ruleSegments_def trim_def js_def is_ws_def filter_truthy_def)
  have tok: "parseToken (js ''500-502'') = Some \<lparr>rng_start = 500, rng_end = 502\<rparr>"
    "parseToken (js ''429'') = Some \<lparr>rng_start = 429, rng_end = 429\<rparr>"
    "parseToken (js ''501-504'') = Some \<lparr>rng_start = 501, rng_end = 504\<rparr>"
    by (simp_all add: parseToken_def trim_def js_def is_ws_def isNumber_def is_digit_def
        isValidCode_def digits_value_def)
  have h: "\<forall>t\<in>set (ruleSegments (trim (js ''500-502, 429,501-504''))). parseToken t \<noteq> None"
    by (simp add: seg tok)
  have "{500..502} \<union> ({429} \<union> {501..504}) = {429} \<union> {500..504::nat}" by auto
  then show ?thesis using h status_rules_correct [OF h] by (simp add: seg tok)
qed

text \<open>C13 (equivalence): the normalized text is a canonical form: two accepted texts are normalized to
  the same text exactly when they list the same codes.\<close>

theorem status_rules_canonical_form:
  assumes "rules_ok (parseHttpStatusCodeRules (Some s))"
    and "rules_ok (parseHttpStatusCodeRules (Some t))"
  shows "rules_normalized (parseHttpStatusCodeRules (Some s)) =
      rules_normalized (parseHttpStatusCodeRules (Some t)) \<longleftrightarrow> listed_codes s = listed_codes t"
  using parse_rules_ranges [OF assms(1)] parse_rules_ranges [OF assms(2)]
  by (metis canonical_unique join_tokens_inject)

theorem status_rules_canonical_form_witness:
  "rules_normalized (parseHttpStatusCodeRules (Some (js ''429''))) =
     rules_normalized (parseHttpStatusCodeRules (Some (js ''429-429'')))
   \<longleftrightarrow> listed_codes (js ''429'') = listed_codes (js ''429-429'')"
proof (rule status_rules_canonical_form)
  show "rules_ok (parseHttpStatusCodeRules (Some (js ''429'')))"
    "rules_ok (parseHttpStatusCodeRules (Some (js ''429-429'')))"
    by (simp_all add: parse_rules_ok_iff ruleSegments_def trim_def js_def is_ws_def filter_truthy_def
        parseToken_def isNumber_def is_digit_def isValidCode_def digits_value_def)
qed

text \<open>C14 (roundtrip): reading the normalized text back gives the same ranges and the same text, so
  saving and reloading the setting never changes it.\<close>

theorem status_rules_roundtrip:
  assumes "rules_ok (parseHttpStatusCodeRules (Some s))"
  defines "n \<equiv> rules_normalized (parseHttpStatusCodeRules (Some s))"
  shows "rules_ok (parseHttpStatusCodeRules (Some n)) \<and>
    rules_ranges (parseHttpStatusCodeRules (Some n)) = rules_ranges (parseHttpStatusCodeRules (Some s)) \<and>
    rules_normalized (parseHttpStatusCodeRules (Some n)) = n"
proof -
  define rs where "rs = rules_ranges (parseHttpStatusCodeRules (Some s))"
  have can: "canonical rs" and n: "n = join [44] (map rangeToken rs)"
    using parse_rules_ranges [OF assms(1)] by (auto simp: rs_def n_def)
  have seg: "ruleSegments (trim n) = map rangeToken rs"
    by (simp add: n trim_join_tokens ruleSegments_join_tokens)
  have ok: "rules_ok (parseHttpStatusCodeRules (Some n))"
    using can by (auto simp: parse_rules_ok_iff seg parseToken_rangeToken canonical_def)
  have "listed_codes n = codes_of rs"
    using can by (simp add: listed_codes_def seg map_filter_parse_tokens canonical_def)
  then have "rules_ranges (parseHttpStatusCodeRules (Some n)) = rs"
    using parse_rules_ranges [OF ok] can canonical_unique by simp
  then show ?thesis using ok parse_rules_ranges(3) [OF ok] n by (simp add: rs_def)
qed

theorem status_rules_roundtrip_witness:
  "rules_ok (parseHttpStatusCodeRules (Some (js ''429''))) \<and>
   rules_normalized (parseHttpStatusCodeRules
     (Some (rules_normalized (parseHttpStatusCodeRules (Some (js ''429'')))))) =
   rules_normalized (parseHttpStatusCodeRules (Some (js ''429'')))"
proof -
  have h: "rules_ok (parseHttpStatusCodeRules (Some (js ''429'')))"
    by (simp add: parse_rules_ok_iff ruleSegments_def trim_def js_def is_ws_def filter_truthy_def
        parseToken_def isNumber_def is_digit_def isValidCode_def digits_value_def)
  show ?thesis using h status_rules_roundtrip [OF h] by simp
qed



text \<open>A token with three numbers is accepted: the third piece of \<open>split('-')\<close> is dropped.\<close>

lemma parseToken_drops_third_number:
  "parseToken (js ''400-499-700'') = Some \<lparr>rng_start = 400, rng_end = 499\<rparr>"
  by (simp add: parseToken_def trim_def js_def is_ws_def isNumber_def is_digit_def
      isValidCode_def digits_value_def)

end
