(* ===== verification/Messages.thy ===== *)
theory Messages
  imports JsonRoundTrip
begin

text \<open>
  The chat messages of the playground: \<open>features/playground/types.ts\<close>, \<open>constants.ts\<close>,
  \<open>lib/message-utils.ts\<close> and \<open>lib/payload-builder.ts\<close>.

  \<open>nanoid()\<close> (a third-party package) is a parameter: the constructors take the identifiers it
  returned, in the order of the calls. An optional property is an \<open>option\<close>. \<open>errorCode\<close> is
  copied from an unchecked response, so it holds any JSON value (\<open>None\<close> is \<open>undefined\<close>).
\<close>

section \<open>Types and constants\<close>

datatype message_role = User | Assistant | System

datatype message_status = Loading | Streaming | Complete | Error

record message_version =
  ver_id :: js_string
  ver_content :: js_string

record message_reasoning =
  rsn_content :: js_string
  rsn_duration :: jnum

record message_source =
  src_href :: js_string
  src_title :: js_string

record message =
  msg_key :: js_string
  msg_from :: message_role
  msg_versions :: "message_version list"
  msg_sources :: "message_source list option"
  msg_reasoning :: "message_reasoning option"
  msg_isReasoningStreaming :: "bool option"
  msg_isReasoningComplete :: "bool option"
  msg_isContentComplete :: "bool option"
  msg_status :: "message_status option"
  msg_errorCode :: "json option"

datatype part_type = PartText | PartImageUrl

record content_part =
  part_type :: part_type
  part_text :: "js_string option"
  part_image_url :: "js_string option"

datatype message_content = ContentText js_string | ContentParts "content_part list"

record chat_completion_message =
  ccm_role :: message_role
  ccm_content :: message_content

datatype param_key = Temperature | Top_p | Max_tokens | Frequency_penalty | Presence_penalty | Seed

record playground_config =
  cfg_model :: js_string
  cfg_group :: js_string
  cfg_temperature :: jnum
  cfg_top_p :: jnum
  cfg_max_tokens :: jnum
  cfg_frequency_penalty :: jnum
  cfg_presence_penalty :: jnum
  cfg_seed :: "jnum option"
  cfg_stream :: bool

record parameter_enabled =
  en_temperature :: bool
  en_top_p :: bool
  en_max_tokens :: bool
  en_frequency_penalty :: bool
  en_presence_penalty :: bool
  en_seed :: bool

record chat_completion_request =
  req_model :: js_string
  req_group :: js_string
  req_messages :: "chat_completion_message list"
  req_stream :: bool
  req_params :: "(param_key \<times> jnum) list"

definition DEFAULT_CONFIG :: playground_config where
  "DEFAULT_CONFIG =
     \<lparr>cfg_model = js ''gpt-4o'', cfg_group = js ''default'', cfg_temperature = Dec 7 (- 1),
      cfg_top_p = num_of_int 1, cfg_max_tokens = num_of_int 4096,
      cfg_frequency_penalty = num_of_int 0, cfg_presence_penalty = num_of_int 0,
      cfg_seed = None, cfg_stream = True\<rparr>"

definition DEFAULT_PARAMETER_ENABLED :: parameter_enabled where
  "DEFAULT_PARAMETER_ENABLED =
     \<lparr>en_temperature = True, en_top_p = True, en_max_tokens = False,
      en_frequency_penalty = True, en_presence_penalty = True, en_seed = False\<rparr>"

definition API_REQUEST_ERROR :: js_string where
  "API_REQUEST_ERROR = js ''Request error occurred''"

definition PARSE_ERROR :: js_string where
  "PARSE_ERROR = js ''Error parsing response data''"

definition STREAM_START_ERROR :: js_string where
  "STREAM_START_ERROR = js ''Error establishing connection''"

definition CONNECTION_CLOSED :: js_string where
  "CONNECTION_CLOSED = js ''Connection closed''"

definition INTERRUPTED :: js_string where
  "INTERRUPTED = js ''Generation was interrupted''"

section \<open>Versions and constructors\<close>

definition createMessageVersion :: "js_string \<Rightarrow> js_string \<Rightarrow> message_version" where
  "createMessageVersion vid content = \<lparr>ver_id = vid, ver_content = content\<rparr>"

definition getCurrentVersion :: "message \<Rightarrow> message_version" where
  "getCurrentVersion m =
     (case msg_versions m of
        [] \<Rightarrow> \<lparr>ver_id = js ''default'', ver_content = []\<rparr>
      | v # _ \<Rightarrow> v)"

definition updateCurrentVersionContent :: "message \<Rightarrow> js_string \<Rightarrow> message" where
  "updateCurrentVersionContent m content =
     m\<lparr>msg_versions := [(getCurrentVersion m)\<lparr>ver_content := content\<rparr>]\<rparr>"

definition createUserMessage :: "js_string \<Rightarrow> js_string \<Rightarrow> js_string \<Rightarrow> message" where
  "createUserMessage key vid content =
     \<lparr>msg_key = key, msg_from = User, msg_versions = [createMessageVersion vid content],
      msg_sources = None, msg_reasoning = None, msg_isReasoningStreaming = None,
      msg_isReasoningComplete = None, msg_isContentComplete = None, msg_status = None,
      msg_errorCode = None\<rparr>"

definition createLoadingAssistantMessage :: "js_string \<Rightarrow> js_string \<Rightarrow> message" where
  "createLoadingAssistantMessage key vid =
     \<lparr>msg_key = key, msg_from = Assistant, msg_versions = [createMessageVersion vid []],
      msg_sources = None, msg_reasoning = None, msg_isReasoningStreaming = Some False,
      msg_isReasoningComplete = Some False, msg_isContentComplete = Some False,
      msg_status = Some Loading, msg_errorCode = None\<rparr>"

section \<open>Message content\<close>

definition buildMessageContent :: "js_string \<Rightarrow> js_string list \<Rightarrow> message_content" where
  "buildMessageContent text imageUrls =
     (let validImages = filter (\<lambda>url. trim url \<noteq> []) imageUrls in
      if validImages = [] then ContentText text
      else ContentParts
        (\<lparr>part_type = PartText, part_text = Some text, part_image_url = None\<rparr> #
         map (\<lambda>url. \<lparr>part_type = PartImageUrl, part_text = None, part_image_url = Some (trim url)\<rparr>)
           validImages))"

definition getTextContent :: "message_content \<Rightarrow> js_string" where
  "getTextContent content =
     (case content of
        ContentText s \<Rightarrow> s
      | ContentParts parts \<Rightarrow>
          (case find (\<lambda>p. part_type p = PartText) parts of
             None \<Rightarrow> []
           | Some p \<Rightarrow> opt_str (part_text p)))"

definition formatMessageForAPI :: "message \<Rightarrow> chat_completion_message" where
  "formatMessageForAPI m =
     \<lparr>ccm_role = msg_from m, ccm_content = ContentText (ver_content (getCurrentVersion m))\<rparr>"

definition isValidMessage :: "message \<Rightarrow> bool" where
  "isValidMessage m =
     (case msg_versions m of
        [] \<Rightarrow> False
      | v # _ \<Rightarrow> \<not> (msg_from m = Assistant \<and> trim (ver_content v) = []))"

section \<open>Think tags\<close>

definition OPEN_TAG :: js_string where
  "OPEN_TAG = js ''<think>''"

definition CLOSE_TAG :: js_string where
  "CLOSE_TAG = js ''</think>''"

record think_result =
  tr_visibleContent :: js_string
  tr_reasoning :: js_string
  tr_hasUnclosedTag :: bool

lemma length_tags [simp]: "length OPEN_TAG = 7" "length CLOSE_TAG = 8"
  by (simp_all add: OPEN_TAG_def CLOSE_TAG_def)

function (sequential) thinkLoop ::
  "js_string \<Rightarrow> nat \<Rightarrow> js_string list \<Rightarrow> js_string list \<Rightarrow> js_string list \<times> js_string list \<times> bool" where
  "thinkLoop content currentPos visibleParts reasoningParts =
     (case index_of_from OPEN_TAG content currentPos of
        None \<Rightarrow>
          (if currentPos < length content then visibleParts @ [drop currentPos content]
           else visibleParts, reasoningParts, False)
      | Some openPos \<Rightarrow>
          (let visible = (if openPos > currentPos
                          then visibleParts @ [substring currentPos openPos content]
                          else visibleParts) in
           case index_of_from CLOSE_TAG content (openPos + 7) of
             None \<Rightarrow> (visible, reasoningParts @ [drop (openPos + 7) content], True)
           | Some closePos \<Rightarrow>
               thinkLoop content (closePos + 8) visible
                 (reasoningParts @ [substring (openPos + 7) closePos content])))"
  by pat_completeness auto
termination
  by (relation "measure (\<lambda>(content, pos, _, _). length content - pos)")
     (auto simp: index_of_from_def dest!: index_of_Some_length)

declare thinkLoop.simps [simp del]

definition parseThinkTags :: "js_string \<Rightarrow> think_result" where
  "parseThinkTags content =
     (if \<not> str_includes content OPEN_TAG then
        \<lparr>tr_visibleContent = content, tr_reasoning = [], tr_hasUnclosedTag = False\<rparr>
      else
        (case thinkLoop content 0 [] [] of
           (visibleParts, reasoningParts, hasUnclosed) \<Rightarrow>
             \<lparr>tr_visibleContent = trim (join [] visibleParts),
              tr_reasoning = trim (join [10, 10] reasoningParts),
              tr_hasUnclosedTag = hasUnclosed\<rparr>))"

section \<open>Updates of the last assistant message\<close>

definition updateLastAssistantMessage ::
  "message list \<Rightarrow> (message \<Rightarrow> message) \<Rightarrow> message list" where
  "updateLastAssistantMessage messages updater =
     (if messages = [] then messages
      else if msg_from (last messages) \<noteq> Assistant then messages
      else messages[length messages - 1 := updater (last messages)])"

definition errorUpdater :: "js_string \<Rightarrow> json option \<Rightarrow> message \<Rightarrow> message" where
  "errorUpdater errorMessage errorCode m =
     (updateCurrentVersionContent m (API_REQUEST_ERROR @ js '': '' @ errorMessage))
       \<lparr>msg_status := Some Error, msg_isReasoningStreaming := Some False,
        msg_errorCode := Some (if truthy_opt errorCode then the errorCode else JNull)\<rparr>"

definition updateAssistantMessageWithError ::
  "message list \<Rightarrow> js_string \<Rightarrow> json option \<Rightarrow> message list" where
  "updateAssistantMessageWithError messages errorMessage errorCode =
     updateLastAssistantMessage messages (errorUpdater errorMessage errorCode)"

definition processStreamingContent :: "message \<Rightarrow> js_string option \<Rightarrow> message" where
  "processStreamingContent m contentChunk =
     (let currentVersion = getCurrentVersion m;
          fullContent = (if opt_str contentChunk \<noteq> []
                         then ver_content currentVersion @ opt_str contentChunk
                         else ver_content currentVersion);
          parsed = parseThinkTags fullContent;
          finalReasoning = (if tr_reasoning parsed \<noteq> []
                            then Some \<lparr>rsn_content = tr_reasoning parsed, rsn_duration = num_of_int 0\<rparr>
                            else msg_reasoning m) in
      (updateCurrentVersionContent m fullContent)
        \<lparr>msg_reasoning := finalReasoning,
         msg_isReasoningStreaming := Some (tr_hasUnclosedTag parsed)\<rparr>)"

definition reasoning_content :: "message \<Rightarrow> js_string" where
  "reasoning_content m = (case msg_reasoning m of None \<Rightarrow> [] | Some r \<Rightarrow> rsn_content r)"

definition reasoning_duration :: "message \<Rightarrow> jnum" where
  "reasoning_duration m = (case msg_reasoning m of None \<Rightarrow> num_of_int 0 | Some r \<Rightarrow> rsn_duration r)"

definition finalizeMessage :: "message \<Rightarrow> js_string option \<Rightarrow> message" where
  "finalizeMessage m apiReasoningContent =
     (let parsed = parseThinkTags (ver_content (getCurrentVersion m));
          finalReasoning =
            str_or (opt_str apiReasoningContent) (str_or (reasoning_content m) (tr_reasoning parsed)) in
      (updateCurrentVersionContent m (tr_visibleContent parsed))
        \<lparr>msg_reasoning :=
           (if finalReasoning \<noteq> []
            then Some \<lparr>rsn_content = finalReasoning, rsn_duration = reasoning_duration m\<rparr>
            else None),
         msg_isReasoningStreaming := Some False\<rparr>)"

section \<open>Sanitizing on load\<close>

text \<open>A message the loader repairs: an assistant message still loading or streaming.\<close>

definition is_stuck :: "message \<Rightarrow> bool" where
  "is_stuck m \<longleftrightarrow>
     msg_from m = Assistant \<and> (msg_status m = Some Loading \<or> msg_status m = Some Streaming)"

text \<open>The loop \<open>for (i = length - 1; i >= 0; i--)\<close>: \<open>findStuck ms n\<close> looks at the indices below \<open>n\<close>.\<close>

fun findStuck :: "message list \<Rightarrow> nat \<Rightarrow> nat option" where
  "findStuck ms 0 = None"
| "findStuck ms (Suc i) = (if is_stuck (ms ! i) then Some i else findStuck ms i)"

definition sanitizeMessage :: "message \<Rightarrow> message" where
  "sanitizeMessage m =
     (let finalized = finalizeMessage m None;
          hasContent = trim (ver_content (getCurrentVersion finalized));
          hasReasoning = trim (reasoning_content finalized) in
      if hasContent \<noteq> [] \<or> hasReasoning \<noteq> []
      then finalized\<lparr>msg_status := Some Complete, msg_isReasoningStreaming := Some False\<rparr>
      else (updateCurrentVersionContent finalized (API_REQUEST_ERROR @ js '': '' @ INTERRUPTED))
             \<lparr>msg_status := Some Error, msg_isReasoningStreaming := Some False\<rparr>)"

definition sanitizeMessagesOnLoad :: "message list \<Rightarrow> message list" where
  "sanitizeMessagesOnLoad messages =
     (case findStuck messages (length messages) of
        None \<Rightarrow> messages
      | Some targetIndex \<Rightarrow> messages[targetIndex := sanitizeMessage (messages ! targetIndex)])"

section \<open>The request payload\<close>

definition param_enabled :: "parameter_enabled \<Rightarrow> param_key \<Rightarrow> bool" where
  "param_enabled e k =
     (case k of
        Temperature \<Rightarrow> en_temperature e | Top_p \<Rightarrow> en_top_p e | Max_tokens \<Rightarrow> en_max_tokens e
      | Frequency_penalty \<Rightarrow> en_frequency_penalty e | Presence_penalty \<Rightarrow> en_presence_penalty e
      | Seed \<Rightarrow> en_seed e)"

definition param_value :: "playground_config \<Rightarrow> param_key \<Rightarrow> jnum option" where
  "param_value c k =
     (case k of
        Temperature \<Rightarrow> Some (cfg_temperature c) | Top_p \<Rightarrow> Some (cfg_top_p c)
      | Max_tokens \<Rightarrow> Some (cfg_max_tokens c) | Frequency_penalty \<Rightarrow> Some (cfg_frequency_penalty c)
      | Presence_penalty \<Rightarrow> Some (cfg_presence_penalty c) | Seed \<Rightarrow> cfg_seed c)"

definition parameterKeys :: "param_key list" where
  "parameterKeys = [Temperature, Top_p, Max_tokens, Frequency_penalty, Presence_penalty, Seed]"

definition buildChatCompletionPayload ::
  "message list \<Rightarrow> playground_config \<Rightarrow> parameter_enabled \<Rightarrow> chat_completion_request" where
  "buildChatCompletionPayload messages config parameterEnabled =
     \<lparr>req_model = cfg_model config, req_group = cfg_group config,
      req_messages = map formatMessageForAPI (filter isValidMessage messages),
      req_stream = cfg_stream config,
      req_params =
        foldl (\<lambda>ps k.
            if param_enabled parameterEnabled k
            then (case param_value config k of None \<Rightarrow> ps | Some v \<Rightarrow> obj_set ps k v)
            else ps)
          [] parameterKeys\<rparr>"

end
