(* ===== verification/MessageProps.thy ===== *)
theory MessageProps
  imports Messages
begin

text \<open>
  Correctness of the message operations: the think-tag parser against a declarative description of
  the text, the frame of the update of the last assistant message, the repair of interrupted
  messages on load and the request payload.
\<close>

section \<open>Searching for a tag\<close>

text \<open>A pattern none of whose proper prefixes is also a suffix is found exactly where it was put.\<close>

definition border_free :: "'a list \<Rightarrow> bool" where
  "border_free p \<longleftrightarrow> list_all (\<lambda>k. take k p \<noteq> drop (length p - k) p) [1..<length p]"

lemma tag_units:
  "OPEN_TAG = [60, 116, 104, 105, 110, 107, 62]"
  "CLOSE_TAG = [60, 47, 116, 104, 105, 110, 107, 62]"
  by (simp_all add: OPEN_TAG_def CLOSE_TAG_def js_def)

lemma border_free_tags: "border_free OPEN_TAG" "border_free CLOSE_TAG"
  unfolding border_free_def tag_units by code_simp+

lemma prefix_append_overlap:
  assumes "border_free p" and "prefix p (v @ p @ t)" and "v \<noteq> []"
  shows "prefix p v"
proof (rule ccontr)
  assume np: "\<not> prefix p v"
  from assms(2) obtain z where z: "v @ p @ t = p @ z" by (auto simp: prefix_def)
  have len: "length v < length p"
  proof (rule ccontr)
    assume "\<not> length v < length p"
    then have "take (length p) v = p" using arg_cong [OF z, of "take (length p)"] by simp
    then show False using np by (metis take_is_prefix)
  qed
  define k where "k = length p - length v"
  have "v @ take k p = p" using arg_cong [OF z, of "take (length p)"] len by (simp add: k_def)
  then have "take k p = drop (length v) p"
    by (simp only: append_eq_conv_conj)
  then have "take k p = drop (length p - k) p" using len by (simp add: k_def)
  moreover have "k \<in> set [1..<length p]" using len assms(3) by (cases v) (auto simp: k_def)
  ultimately show False using assms(1) by (auto simp: border_free_def list_all_iff)
qed

lemma index_of_append:
  assumes "border_free p" and "\<not> sublist p v"
  shows "index_of p (v @ p @ t) = Some (length v)"
  using assms(2)
proof (induction v)
  case Nil
  then show ?case by (cases p) auto
next
  case (Cons x v)
  have "\<not> prefix p (x # v)" using Cons.prems by (auto simp: sublist_Cons_right)
  then have "\<not> prefix p (x # v @ p @ t)"
    using prefix_append_overlap [OF assms(1), of "x # v" t] by auto
  with Cons show ?case by (auto simp: sublist_Cons_right)
qed

lemma index_of_no_sublist_take:
  assumes "index_of p s = Some i" and "p \<noteq> []"
  shows "\<not> sublist p (take i s)"
proof
  assume "sublist p (take i s)"
  then obtain a b where ab: "take i s = a @ p @ b" by (auto simp: sublist_def)
  then have "length a < i"
    using assms(2) by (metis append_is_Nil_conv length_append length_greater_0_conv length_take
        less_add_same_cancel1 less_le_trans min.cobounded2)
  moreover have "prefix p (drop (length a) s)"
  proof -
    have "s = a @ p @ b @ drop i s" using ab by (metis append.assoc append_take_drop_id)
    then have "drop (length a) s = p @ b @ drop i s" by (metis append_eq_conv_conj)
    then show ?thesis by simp
  qed
  ultimately show False using index_of_minimal [OF assms(1)] by simp
qed

section \<open>Texts with think tags\<close>

text \<open>A text is a sequence of visible pieces each followed by a closed think block, then a last
  visible piece that may be followed by an unclosed block.\<close>

type_synonym think_text = "(js_string \<times> js_string) list \<times> js_string \<times> js_string option"

definition think_block :: "js_string \<times> js_string \<Rightarrow> js_string" where
  "think_block b = fst b @ OPEN_TAG @ snd b @ CLOSE_TAG"

definition think_tail :: "js_string \<Rightarrow> js_string option \<Rightarrow> js_string" where
  "think_tail v u = v @ (case u of None \<Rightarrow> [] | Some r \<Rightarrow> OPEN_TAG @ r)"

definition think_render :: "think_text \<Rightarrow> js_string" where
  "think_render T = (case T of (bs, v, u) \<Rightarrow> concat (map think_block bs) @ think_tail v u)"

definition think_ok :: "think_text \<Rightarrow> bool" where
  "think_ok T = (case T of (bs, v, u) \<Rightarrow>
     (\<forall>b\<in>set bs. \<not> sublist OPEN_TAG (fst b) \<and> \<not> sublist CLOSE_TAG (snd b)) \<and>
     \<not> sublist OPEN_TAG v \<and> (\<forall>r. u = Some r \<longrightarrow> \<not> sublist CLOSE_TAG r))"

definition think_visible :: "think_text \<Rightarrow> js_string" where
  "think_visible T = (case T of (bs, v, u) \<Rightarrow> concat (map fst bs) @ v)"

definition think_reasoning :: "think_text \<Rightarrow> js_string list" where
  "think_reasoning T = (case T of (bs, v, u) \<Rightarrow>
     map snd bs @ (case u of None \<Rightarrow> [] | Some r \<Rightarrow> [r]))"

lemma join_Nil_sep [simp]: "join [] xs = concat xs"
  by (induction "[] :: 'a list" xs rule: join.induct) auto

lemma index_of_from_append: "index_of_from p (pre @ s) (length pre) = map_option ((+) (length pre)) (index_of p s)"
  by (simp add: index_of_from_def)

lemma thinkLoop_render:
  assumes "think_ok (bs, v, u)"
  shows "\<exists>vs'. thinkLoop (pre @ think_render (bs, v, u)) (length pre) vs rs =
      (vs @ vs', rs @ think_reasoning (bs, v, u), u \<noteq> None) \<and> concat vs' = think_visible (bs, v, u)"
  using assms
proof (induction bs arbitrary: pre vs rs)
  case Nil
  have v: "\<not> sublist OPEN_TAG v" using Nil by (simp add: think_ok_def)
  show ?case
  proof (cases u)
    case None
    have "index_of_from OPEN_TAG (pre @ v) (length pre) = None"
      using v by (simp add: index_of_from_append index_of_None_iff)
    then show ?thesis
      using None by (subst thinkLoop.simps)
        (auto simp: think_render_def think_tail_def think_reasoning_def think_visible_def)
  next
    case (Some r)
    have opn: "index_of_from OPEN_TAG (pre @ v @ OPEN_TAG @ r) (length pre) = Some (length pre + length v)"
      using v index_of_append [OF border_free_tags(1), of v r] by (simp add: index_of_from_append)
    have c: "index_of_from CLOSE_TAG (pre @ v @ OPEN_TAG @ r) (length pre + length v + 7) = None"
      using Nil Some index_of_from_append [of CLOSE_TAG "pre @ v @ OPEN_TAG" r]
      by (simp add: think_ok_def index_of_None_iff add.assoc)
    have d: "drop (length pre + length v + 7) (pre @ v @ OPEN_TAG @ r) = r"
      using append_eq_conv_conj [of "pre @ v @ OPEN_TAG" r "pre @ v @ OPEN_TAG @ r"]
      by (simp add: add.assoc)
    show ?thesis
      using Some opn c d by (subst thinkLoop.simps)
        (auto simp: think_render_def think_tail_def think_reasoning_def think_visible_def
          substring_def)
  qed
next
  case (Cons b bs)
  obtain w r where b: "b = (w, r)" by force
  let ?rest = "think_render (bs, v, u)"
  let ?pre = "pre @ w @ OPEN_TAG @ r @ CLOSE_TAG"
  have ok: "\<not> sublist OPEN_TAG w" "\<not> sublist CLOSE_TAG r" "think_ok (bs, v, u)"
    using Cons.prems b by (auto simp: think_ok_def)
  have eq: "pre @ think_render (b # bs, v, u) = pre @ w @ OPEN_TAG @ r @ CLOSE_TAG @ ?rest"
    by (simp add: think_render_def think_block_def b)
  have opn: "index_of_from OPEN_TAG (pre @ w @ OPEN_TAG @ r @ CLOSE_TAG @ ?rest) (length pre) =
      Some (length pre + length w)"
    using index_of_append [OF border_free_tags(1) ok(1), of "r @ CLOSE_TAG @ ?rest"]
    by (simp add: index_of_from_append)
  have c: "index_of_from CLOSE_TAG (pre @ w @ OPEN_TAG @ r @ CLOSE_TAG @ ?rest)
      (length pre + length w + 7) = Some (length pre + length w + 7 + length r)"
    using index_of_append [OF border_free_tags(2) ok(2), of ?rest]
      index_of_from_append [of CLOSE_TAG "pre @ w @ OPEN_TAG" "r @ CLOSE_TAG @ ?rest"]
    by (simp add: add.assoc)
  have sub: "substring (length pre + length w + 7) (length pre + length w + 7 + length r)
      (pre @ w @ OPEN_TAG @ r @ CLOSE_TAG @ ?rest) = r"
    using append_eq_conv_conj [of "pre @ w @ OPEN_TAG" "r @ CLOSE_TAG @ ?rest"]
    by (simp add: substring_def add.assoc)
  have pos: "length pre + length w + 7 + length r + 8 = length ?pre" by simp
  define vs1 where "vs1 = (if length pre + length w > length pre then vs @ [w] else vs)"
  have "thinkLoop (pre @ think_render (b # bs, v, u)) (length pre) vs rs =
      thinkLoop (?pre @ ?rest) (length ?pre) vs1 (rs @ [r])"
    unfolding eq by (subst thinkLoop.simps)
      (use opn c sub in \<open>simp add: vs1_def substring_def ac_simps\<close>)
  moreover obtain vs' where "thinkLoop (?pre @ ?rest) (length ?pre) vs1 (rs @ [r]) =
      (vs1 @ vs', (rs @ [r]) @ think_reasoning (bs, v, u), u \<noteq> None)"
    "concat vs' = think_visible (bs, v, u)"
    using Cons.IH [OF ok(3), of ?pre vs1 "rs @ [r]"] by blast
  ultimately show ?case
    using b by (auto simp: vs1_def think_reasoning_def think_visible_def split: if_splits)
qed

lemma parseThinkTags_no_tag:
  "\<not> sublist OPEN_TAG s \<Longrightarrow>
   parseThinkTags s = \<lparr>tr_visibleContent = s, tr_reasoning = [], tr_hasUnclosedTag = False\<rparr>"
  by (simp add: parseThinkTags_def str_includes_iff_sublist)

lemma sublist_OPEN_render:
  "bs \<noteq> [] \<or> u \<noteq> None \<Longrightarrow> sublist OPEN_TAG (think_render (bs, v, u))"
  by (cases bs; cases u)
     (auto simp: think_render_def think_block_def think_tail_def sublist_appendI
       intro: sublist_append_leftI sublist_append_rightI)

lemma parseThinkTags_render:
  assumes "think_ok (bs, v, u)" and "bs \<noteq> [] \<or> u \<noteq> None"
  shows "parseThinkTags (think_render (bs, v, u)) =
    \<lparr>tr_visibleContent = trim (think_visible (bs, v, u)),
     tr_reasoning = trim (join [10, 10] (think_reasoning (bs, v, u))),
     tr_hasUnclosedTag = (u \<noteq> None)\<rparr>"
  using thinkLoop_render [OF assms(1), of "[]" "[]" "[]"] sublist_OPEN_render [OF assms(2)]
  by (auto simp: parseThinkTags_def str_includes_iff_sublist)

text \<open>Every text has this form.\<close>

lemma think_text_exists: "\<exists>T. think_ok T \<and> think_render T = s"
proof (induction s rule: length_induct)
  case (1 s)
  show ?case
  proof (cases "index_of OPEN_TAG s")
    case None
    then show ?thesis
      by (intro exI [of _ "([], s, None)"])
         (simp add: think_ok_def think_render_def think_tail_def index_of_None_iff)
  next
    case (Some i)
    define v s1 where "v = take i s" and "s1 = drop (i + 7) s"
    have s: "s = v @ OPEN_TAG @ s1" using index_of_split [OF Some] by (simp add: v_def s1_def)
    have v: "\<not> sublist OPEN_TAG v"
      using index_of_no_sublist_take [OF Some] by (simp add: v_def OPEN_TAG_def)
    show ?thesis
    proof (cases "index_of CLOSE_TAG s1")
      case None
      with s v show ?thesis
        by (intro exI [of _ "([], v, Some s1)"])
           (simp add: think_ok_def think_render_def think_tail_def index_of_None_iff)
    next
      case (Some j)
      define r s2 where "r = take j s1" and "s2 = drop (j + 8) s1"
      have s1: "s1 = r @ CLOSE_TAG @ s2" using index_of_split [OF Some] by (simp add: r_def s2_def)
      have r: "\<not> sublist CLOSE_TAG r"
        using index_of_no_sublist_take [OF Some] by (simp add: r_def CLOSE_TAG_def)
      have "length s2 < length s" by (simp add: s s1)
      then obtain bs w u where T: "think_ok (bs, w, u)" "think_render (bs, w, u) = s2"
        using 1 by (metis prod_cases3)
      show ?thesis
        using T s s1 v r
        by (intro exI [of _ "((v, r) # bs, w, u)"])
           (auto simp: think_ok_def think_render_def think_block_def)
    qed
  qed
qed

lemma set_think_visible: "set (think_visible T) \<subseteq> set (think_render T)"
  by (cases T) (auto simp: think_visible_def think_render_def think_block_def think_tail_def)

lemma set_think_reasoning: "\<Union> (set (map set (think_reasoning T))) \<subseteq> set (think_render T)"
  by (cases T) (auto simp: think_reasoning_def think_render_def think_block_def think_tail_def
      split: option.splits)

section \<open>Frame of the operations\<close>

lemma getCurrentVersion_update [simp]:
  "getCurrentVersion (updateCurrentVersionContent m c) = (getCurrentVersion m)\<lparr>ver_content := c\<rparr>"
  by (simp add: updateCurrentVersionContent_def getCurrentVersion_def)

lemma update_content_frame [simp]:
  "msg_key (updateCurrentVersionContent m c) = msg_key m"
  "msg_from (updateCurrentVersionContent m c) = msg_from m"
  "msg_status (updateCurrentVersionContent m c) = msg_status m"
  "msg_reasoning (updateCurrentVersionContent m c) = msg_reasoning m"
  "msg_versions (updateCurrentVersionContent m c) = [(getCurrentVersion m)\<lparr>ver_content := c\<rparr>]"
  by (simp_all add: updateCurrentVersionContent_def)

lemma getCurrentVersion_more [simp]:
  "getCurrentVersion (m\<lparr>msg_status := s\<rparr>) = getCurrentVersion m"
  "getCurrentVersion (m\<lparr>msg_reasoning := r\<rparr>) = getCurrentVersion m"
  "getCurrentVersion (m\<lparr>msg_isReasoningStreaming := b\<rparr>) = getCurrentVersion m"
  "getCurrentVersion (m\<lparr>msg_errorCode := e\<rparr>) = getCurrentVersion m"
  "getCurrentVersion (m\<lparr>msg_versions := [v]\<rparr>) = v"
  by (simp_all add: getCurrentVersion_def)

lemma finalizeMessage_frame [simp]:
  "msg_key (finalizeMessage m a) = msg_key m"
  "msg_from (finalizeMessage m a) = msg_from m"
  "msg_status (finalizeMessage m a) = msg_status m"
  "msg_versions (finalizeMessage m a) \<noteq> []"
  by (simp_all add: finalizeMessage_def Let_def)

lemma ver_content_finalize [simp]:
  "ver_content (getCurrentVersion (finalizeMessage m a)) =
   tr_visibleContent (parseThinkTags (ver_content (getCurrentVersion m)))"
  by (simp add: finalizeMessage_def Let_def)

lemma processStreamingContent_frame [simp]:
  "msg_key (processStreamingContent m c) = msg_key m"
  "msg_from (processStreamingContent m c) = msg_from m"
  "msg_status (processStreamingContent m c) = msg_status m"
  by (simp_all add: processStreamingContent_def Let_def)

lemma errorUpdater_frame [simp]:
  "msg_key (errorUpdater e c m) = msg_key m"
  "msg_from (errorUpdater e c m) = msg_from m"
  "msg_status (errorUpdater e c m) = Some Error"
  by (simp_all add: errorUpdater_def)

lemma sanitizeMessage_frame [simp]:
  "msg_key (sanitizeMessage m) = msg_key m"
  "msg_from (sanitizeMessage m) = msg_from m"
  by (simp_all add: sanitizeMessage_def Let_def)

lemma updateLast_snoc:
  "updateLastAssistantMessage (ms @ [m]) f = ms @ [if msg_from m = Assistant then f m else m]"
  by (simp add: updateLastAssistantMessage_def)

lemma updateLast_Nil [simp]: "updateLastAssistantMessage [] f = []"
  by (simp add: updateLastAssistantMessage_def)

section \<open>Finding the interrupted message\<close>

lemma findStuck_None_iff: "n \<le> length ms \<Longrightarrow> findStuck ms n = None \<longleftrightarrow> filter is_stuck (take n ms) = []"
  by (induction n) (auto simp: take_Suc_conv_app_nth)

lemma findStuck_Some:
  "n \<le> length ms \<Longrightarrow> findStuck ms n = Some i \<Longrightarrow>
   i < n \<and> is_stuck (ms ! i) \<and> filter is_stuck (drop (Suc i) (take n ms)) = []"
proof (induction n)
  case 0
  then show ?case by simp
next
  case (Suc n)
  then have t: "take (Suc n) ms = take n ms @ [ms ! n]" by (simp add: take_Suc_conv_app_nth)
  show ?case
  proof (cases "is_stuck (ms ! n)")
    case True
    with Suc show ?thesis by auto
  next
    case False
    with Suc have "i < n \<and> is_stuck (ms ! i) \<and> filter is_stuck (drop (Suc i) (take n ms)) = []" by simp
    with False Suc.prems(1) show ?thesis unfolding t by simp
  qed
qed

lemma sanitizeMessage_not_stuck: "\<not> is_stuck (sanitizeMessage m)"
  by (simp add: sanitizeMessage_def is_stuck_def Let_def)

lemma sanitize_cases:
  "(filter is_stuck ms = [] \<and> sanitizeMessagesOnLoad ms = ms) \<or>
   (\<exists>pre m post. ms = pre @ m # post \<and> is_stuck m \<and> filter is_stuck post = [] \<and>
      sanitizeMessagesOnLoad ms = pre @ sanitizeMessage m # post \<and>
      filter is_stuck (sanitizeMessagesOnLoad ms) = filter is_stuck pre \<and>
      msg_key (sanitizeMessage m) = msg_key m \<and> msg_from (sanitizeMessage m) = msg_from m)"
proof (cases "findStuck ms (length ms)")
  case None
  then have "filter is_stuck ms = []" using findStuck_None_iff [of "length ms" ms] by simp
  with None show ?thesis by (simp add: sanitizeMessagesOnLoad_def)
next
  case (Some i)
  have i: "i < length ms" "is_stuck (ms ! i)" "filter is_stuck (drop (Suc i) ms) = []"
    using findStuck_Some [OF _ Some] by auto
  have ms: "ms = take i ms @ ms ! i # drop (Suc i) ms" using i by (simp add: id_take_nth_drop)
  have r: "sanitizeMessagesOnLoad ms = take i ms @ sanitizeMessage (ms ! i) # drop (Suc i) ms"
    using Some i by (simp add: sanitizeMessagesOnLoad_def upd_conv_take_nth_drop)
  have "filter is_stuck (sanitizeMessagesOnLoad ms) = filter is_stuck (take i ms)"
    unfolding r using i by (simp add: sanitizeMessage_not_stuck)
  with ms r i show ?thesis by (metis sanitizeMessage_frame)
qed

text \<open>Only the last interrupted message is repaired: of two, the first stays interrupted.\<close>

lemma sanitize_leaves_earlier_stuck:
  "sanitizeMessagesOnLoad
     [createLoadingAssistantMessage (js ''a'') (js ''v''), createLoadingAssistantMessage (js ''b'') (js ''w'')] =
   [createLoadingAssistantMessage (js ''a'') (js ''v''),
    sanitizeMessage (createLoadingAssistantMessage (js ''b'') (js ''w''))]"
  by (simp add: sanitizeMessagesOnLoad_def is_stuck_def createLoadingAssistantMessage_def numeral_2_eq_2)

section \<open>Every text is covered\<close>

lemma parseThinkTags_total:
  "\<exists>bs v u. think_ok (bs, v, u) \<and> think_render (bs, v, u) = s \<and>
    parseThinkTags s =
      (if bs = [] \<and> u = None
       then \<lparr>tr_visibleContent = s, tr_reasoning = [], tr_hasUnclosedTag = False\<rparr>
       else \<lparr>tr_visibleContent = trim (think_visible (bs, v, u)),
             tr_reasoning = trim (join [10, 10] (think_reasoning (bs, v, u))),
             tr_hasUnclosedTag = (u \<noteq> None)\<rparr>)"
proof -
  obtain bs v u where T: "think_ok (bs, v, u)" "think_render (bs, v, u) = s"
    using think_text_exists [of s] by (metis prod_cases3)
  show ?thesis
  proof (cases "bs = [] \<and> u = None")
    case True
    then have "s = v" using T by (simp add: think_render_def think_tail_def)
    then show ?thesis
      using T True by (intro exI [of _ bs] exI [of _ v] exI [of _ u])
        (simp add: parseThinkTags_no_tag think_ok_def)
  next
    case False
    with T parseThinkTags_render [OF T(1)] show ?thesis
      by (intro exI [of _ bs] exI [of _ v] exI [of _ u]) auto
  qed
qed

text \<open>A message that shows something: visible content or reasoning that is not white space only.\<close>

definition has_text :: "message \<Rightarrow> bool" where
  "has_text m \<longleftrightarrow>
     trim (ver_content (getCurrentVersion m)) \<noteq> [] \<or> trim (reasoning_content m) \<noteq> []"

section \<open>Properties\<close>

text \<open>C12 (functional): on a text made of visible pieces and think blocks, the last of them possibly
  unclosed, \<open>parseThinkTags\<close> returns the visible pieces joined and trimmed, the contents of the
  blocks joined by blank lines and trimmed, and whether the last block is unclosed.\<close>

theorem think_tags_correct:
  assumes "think_ok (bs, v, u)" and "bs \<noteq> [] \<or> u \<noteq> None"
  shows "parseThinkTags (think_render (bs, v, u)) =
    \<lparr>tr_visibleContent = trim (concat (map fst bs) @ v),
     tr_reasoning = trim (join (js [CHR 10, CHR 10])
       (map snd bs @ (case u of None \<Rightarrow> [] | Some r \<Rightarrow> [r]))),
     tr_hasUnclosedTag = (u \<noteq> None)\<rparr>"
  using parseThinkTags_render [OF assms]
  by (simp add: think_visible_def think_reasoning_def js_def)

theorem think_tags_correct_witness:
  "parseThinkTags (js ''a<think>b</think>c'') =
   \<lparr>tr_visibleContent = js ''ac'', tr_reasoning = js ''b'', tr_hasUnclosedTag = False\<rparr>"
proof -
  have ok: "think_ok ([(js ''a'', js ''b'')], js ''c'', None)"
    by (simp add: think_ok_def js_def tag_units sublist_Cons_right)
  have rnd: "think_render ([(js ''a'', js ''b'')], js ''c'', None) = js ''a<think>b</think>c''"
    by (simp add: think_render_def think_block_def think_tail_def js_def tag_units)
  show ?thesis using think_tags_correct [OF ok] unfolding rnd
    by (simp add: js_def trim_def is_ws_def)
qed

text \<open>The description is complete: every text is such a sequence of pieces and blocks,
  and a text without any block is returned unchanged, with no reasoning.\<close>

theorem think_tags_total:
  "\<exists>bs v u. think_ok (bs, v, u) \<and> think_render (bs, v, u) = s \<and>
    parseThinkTags s =
      (if bs = [] \<and> u = None
       then \<lparr>tr_visibleContent = s, tr_reasoning = [], tr_hasUnclosedTag = False\<rparr>
       else \<lparr>tr_visibleContent = trim (think_visible (bs, v, u)),
             tr_reasoning = trim (join [10, 10] (think_reasoning (bs, v, u))),
             tr_hasUnclosedTag = (u \<noteq> None)\<rparr>)"
  by (rule parseThinkTags_total)


text \<open>A repaired message is never blank: it is either complete with visible content or
  reasoning, or an error message that says the generation was interrupted.\<close>

theorem sanitize_never_blank:
  "(msg_status (sanitizeMessage m) = Some Complete \<and> has_text (sanitizeMessage m)) \<or>
   (msg_status (sanitizeMessage m) = Some Error \<and>
      ver_content (getCurrentVersion (sanitizeMessage m)) =
        js ''Request error occurred: Generation was interrupted'')"
  by (auto simp: has_text_def sanitizeMessage_def Let_def API_REQUEST_ERROR_def INTERRUPTED_def js_def
      reasoning_content_def)

text \<open>C24 (functional): the request carries a sampling parameter exactly when it is enabled and set,
  and then with the configured value.\<close>

theorem payload_params:
  "obj_get (req_params (buildChatCompletionPayload ms c e)) k =
   (if param_enabled e k then param_value c k else None)"
  by (cases k)
     (simp_all add: buildChatCompletionPayload_def parameterKeys_def param_enabled_def param_value_def
        split: option.split)

text \<open>C25 (functional): the placeholder a new turn appends is never sent, and no assistant turn of a
  request is blank; the other messages are sent in order.\<close>

theorem payload_messages:
  "buildChatCompletionPayload (ms @ [createLoadingAssistantMessage key vid]) c e =
     buildChatCompletionPayload ms c e \<and>
   list_all (\<lambda>m. \<not> (ccm_role m = Assistant \<and> trim (getTextContent (ccm_content m)) = []))
     (req_messages (buildChatCompletionPayload ms c e))"
  by (auto simp: buildChatCompletionPayload_def isValidMessage_def createLoadingAssistantMessage_def
      createMessageVersion_def formatMessageForAPI_def getCurrentVersion_def getTextContent_def
      list_all_iff split: list.splits)

end
