(* ===== verification/PlaygroundStore.thy ===== *)
theory PlaygroundStore
  imports MessageProps "HOL-Library.Monad_Syntax"
begin

text \<open>
  Persistence of the playground: \<open>features/playground/lib/storage.ts\<close> over \<open>localStorage\<close>.

  \<^item> \<open>local_storage\<close> is the Web Storage object: its items and the quota of the origin, counted in code
    units (\<open>None\<close>: the origin never reaches its quota). \<open>setItem\<close> returns \<open>None\<close> when it throws \<open>QuotaExceededError\<close>.
  \<^item> \<open>message_to_json\<close> and \<open>config_to_json\<close> are the values \<open>JSON.stringify\<close> sees (properties that
    are \<open>undefined\<close> are left out, the others in the order the constructors create them);
    \<open>message_of_json\<close> and \<open>merge_config\<close> read a parsed value back. The code casts a parsed value to
    its type without a check: \<open>IllTyped\<close> is a stored value that does not have the declared shape,
    after which the behaviour of the code is not modelled. Properties that the types do not declare
    are not represented.
  \<^item> The locale \<open>json_store\<close> is what the loaders and savers rely on: a key-value store whose values
    are printed and parsed JSON.
\<close>

section \<open>Web Storage\<close>

record local_storage =
  ls_items :: "(js_string \<times> js_string) list"
  ls_quota :: "nat option"

definition items_size :: "(js_string \<times> js_string) list \<Rightarrow> nat" where
  "items_size ps = sum_list (map (\<lambda>(k, v). length k + length v) ps)"

definition getItem :: "local_storage \<Rightarrow> js_string \<Rightarrow> js_string option" where
  "getItem st k = obj_get (ls_items st) k"

definition setItem :: "local_storage \<Rightarrow> js_string \<Rightarrow> js_string \<Rightarrow> local_storage option" where
  "setItem st k v =
     (let items = obj_set (ls_items st) k v in
      if (case ls_quota st of None \<Rightarrow> True | Some q \<Rightarrow> items_size items \<le> q)
      then Some (st\<lparr>ls_items := items\<rparr>) else None)"

definition removeItem :: "local_storage \<Rightarrow> js_string \<Rightarrow> local_storage" where
  "removeItem st k = st\<lparr>ls_items := obj_delete (ls_items st) k\<rparr>"

locale key_value_store =
  fixes get :: "'s \<Rightarrow> js_string \<Rightarrow> js_string option"
    and put :: "'s \<Rightarrow> js_string \<Rightarrow> js_string \<Rightarrow> 's option"
    and del :: "'s \<Rightarrow> js_string \<Rightarrow> 's"
  assumes get_put: "put s k v = Some s' \<Longrightarrow> get s' k' = (if k' = k then Some v else get s k')"
    and get_del: "get (del s k) k' = (if k' = k then None else get s k')"

locale json_store = key_value_store get put del + json_codec parse stringify ok
  for get :: "'s \<Rightarrow> js_string \<Rightarrow> js_string option"
    and put :: "'s \<Rightarrow> js_string \<Rightarrow> js_string \<Rightarrow> 's option"
    and del :: "'s \<Rightarrow> js_string \<Rightarrow> 's"
    and parse :: "js_string \<Rightarrow> json option"
    and stringify :: "json \<Rightarrow> js_string"
    and ok :: "json \<Rightarrow> bool"
begin

lemma stored_text: "put s k (stringify v) = Some s' \<Longrightarrow> get s' k = Some (stringify v)"
  by (simp add: get_put)

lemma stored_value: "put s k (stringify v) = Some s' \<Longrightarrow> ok v \<Longrightarrow> get s' k \<bind> parse = Some v"
  by (simp add: get_put parse_stringify)

lemma stored_twice:
  "put s k (stringify v) = Some s1 \<Longrightarrow> k \<noteq> k' \<Longrightarrow> put s1 k' (stringify w) = Some s2 \<Longrightarrow> ok v \<Longrightarrow>
   get s2 k \<bind> parse = Some v"
  by (simp add: get_put parse_stringify)

end

interpretation browser_store: json_store getItem setItem removeItem json_parse json_stringify json_ok
  by unfold_locales
     (auto simp: getItem_def setItem_def removeItem_def Let_def split: if_splits)

lemma setItem_quota: "setItem st k v = Some st' \<Longrightarrow> ls_quota st' = ls_quota st"
  by (auto simp: setItem_def Let_def split: if_splits)

section \<open>Reading a stored value at a type\<close>

definition as_str :: "json \<Rightarrow> js_string option" where
  "as_str v = (case v of JStr s \<Rightarrow> Some s | _ \<Rightarrow> None)"

definition as_num :: "json \<Rightarrow> jnum option" where
  "as_num v = (case v of JNum x \<Rightarrow> Some x | _ \<Rightarrow> None)"

definition as_bool :: "json \<Rightarrow> bool option" where
  "as_bool v = (case v of JBool b \<Rightarrow> Some b | _ \<Rightarrow> None)"

definition as_list :: "(json \<Rightarrow> 'a option) \<Rightarrow> json \<Rightarrow> 'a list option" where
  "as_list f v = (case v of JArr xs \<Rightarrow> those (map f xs) | _ \<Rightarrow> None)"

definition as_nullable :: "(json \<Rightarrow> 'a option) \<Rightarrow> json \<Rightarrow> 'a option option" where
  "as_nullable f v = (if v = JNull then Some None else map_option Some (f v))"

text \<open>A required and an optional property of an object; a property with a default value.\<close>

definition field :: "json \<Rightarrow> string \<Rightarrow> (json \<Rightarrow> 'a option) \<Rightarrow> 'a option" where
  "field v k f = (case v of JObj ps \<Rightarrow> obj_get ps (js k) \<bind> f | _ \<Rightarrow> None)"

definition opt_field :: "json \<Rightarrow> string \<Rightarrow> (json \<Rightarrow> 'a option) \<Rightarrow> 'a option option" where
  "opt_field v k f =
     (case json_prop v (js k) of None \<Rightarrow> Some None | Some x \<Rightarrow> map_option Some (f x))"

definition field_or :: "json \<Rightarrow> string \<Rightarrow> (json \<Rightarrow> 'a option) \<Rightarrow> 'a \<Rightarrow> 'a option" where
  "field_or v k f d = (case json_prop v (js k) of None \<Rightarrow> Some d | Some x \<Rightarrow> f x)"

definition prop_of :: "string \<Rightarrow> ('a \<Rightarrow> json) \<Rightarrow> 'a option \<Rightarrow> (js_string \<times> json) list" where
  "prop_of k f v = (case v of None \<Rightarrow> [] | Some x \<Rightarrow> [(js k, f x)])"

section \<open>Messages as JSON\<close>

definition role_name :: "message_role \<Rightarrow> js_string" where
  "role_name r = (case r of User \<Rightarrow> js ''user'' | Assistant \<Rightarrow> js ''assistant'' | System \<Rightarrow> js ''system'')"

definition status_name :: "message_status \<Rightarrow> js_string" where
  "status_name s =
     (case s of Loading \<Rightarrow> js ''loading'' | Streaming \<Rightarrow> js ''streaming''
      | Complete \<Rightarrow> js ''complete'' | Error \<Rightarrow> js ''error'')"

definition as_role :: "json \<Rightarrow> message_role option" where
  "as_role v = as_str v \<bind> (\<lambda>s. find (\<lambda>r. role_name r = s) [User, Assistant, System])"

definition as_status :: "json \<Rightarrow> message_status option" where
  "as_status v = as_str v \<bind> (\<lambda>s. find (\<lambda>r. status_name r = s) [Loading, Streaming, Complete, Error])"

definition version_to_json :: "message_version \<Rightarrow> json" where
  "version_to_json v = JObj [(js ''id'', JStr (ver_id v)), (js ''content'', JStr (ver_content v))]"

definition source_to_json :: "message_source \<Rightarrow> json" where
  "source_to_json s = JObj [(js ''href'', JStr (src_href s)), (js ''title'', JStr (src_title s))]"

definition reasoning_to_json :: "message_reasoning \<Rightarrow> json" where
  "reasoning_to_json r =
     JObj [(js ''content'', JStr (rsn_content r)), (js ''duration'', JNum (rsn_duration r))]"

definition message_props :: "message \<Rightarrow> (js_string \<times> json) list" where
  "message_props m =
     [(js ''key'', JStr (msg_key m)), (js ''from'', JStr (role_name (msg_from m))),
      (js ''versions'', JArr (map version_to_json (msg_versions m)))]
     @ prop_of ''sources'' (\<lambda>ss. JArr (map source_to_json ss)) (msg_sources m)
     @ prop_of ''reasoning'' reasoning_to_json (msg_reasoning m)
     @ prop_of ''isReasoningComplete'' JBool (msg_isReasoningComplete m)
     @ prop_of ''isContentComplete'' JBool (msg_isContentComplete m)
     @ prop_of ''isReasoningStreaming'' JBool (msg_isReasoningStreaming m)
     @ prop_of ''status'' (\<lambda>s. JStr (status_name s)) (msg_status m)
     @ prop_of ''errorCode'' (\<lambda>e. e) (msg_errorCode m)"

definition message_to_json :: "message \<Rightarrow> json" where
  "message_to_json m = JObj (message_props m)"

definition version_of_json :: "json \<Rightarrow> message_version option" where
  "version_of_json v =
     do { i \<leftarrow> field v ''id'' as_str; c \<leftarrow> field v ''content'' as_str;
          Some \<lparr>ver_id = i, ver_content = c\<rparr> }"

definition source_of_json :: "json \<Rightarrow> message_source option" where
  "source_of_json v =
     do { h \<leftarrow> field v ''href'' as_str; t \<leftarrow> field v ''title'' as_str;
          Some \<lparr>src_href = h, src_title = t\<rparr> }"

definition reasoning_of_json :: "json \<Rightarrow> message_reasoning option" where
  "reasoning_of_json v =
     do { c \<leftarrow> field v ''content'' as_str; d \<leftarrow> field v ''duration'' as_num;
          Some \<lparr>rsn_content = c, rsn_duration = d\<rparr> }"

definition message_of_json :: "json \<Rightarrow> message option" where
  "message_of_json v =
     do { k \<leftarrow> field v ''key'' as_str; f \<leftarrow> field v ''from'' as_role;
          vs \<leftarrow> field v ''versions'' (as_list version_of_json);
          ss \<leftarrow> opt_field v ''sources'' (as_list source_of_json);
          r \<leftarrow> opt_field v ''reasoning'' reasoning_of_json;
          rs \<leftarrow> opt_field v ''isReasoningStreaming'' as_bool;
          rc \<leftarrow> opt_field v ''isReasoningComplete'' as_bool;
          cc \<leftarrow> opt_field v ''isContentComplete'' as_bool;
          st \<leftarrow> opt_field v ''status'' as_status;
          e \<leftarrow> opt_field v ''errorCode'' Some;
          Some \<lparr>msg_key = k, msg_from = f, msg_versions = vs, msg_sources = ss, msg_reasoning = r,
                msg_isReasoningStreaming = rs, msg_isReasoningComplete = rc,
                msg_isContentComplete = cc, msg_status = st, msg_errorCode = e\<rparr> }"

section \<open>The configuration as JSON\<close>

definition config_to_json :: "playground_config \<Rightarrow> json" where
  "config_to_json c =
     JObj [(js ''model'', JStr (cfg_model c)), (js ''group'', JStr (cfg_group c)),
           (js ''temperature'', JNum (cfg_temperature c)), (js ''top_p'', JNum (cfg_top_p c)),
           (js ''max_tokens'', JNum (cfg_max_tokens c)),
           (js ''frequency_penalty'', JNum (cfg_frequency_penalty c)),
           (js ''presence_penalty'', JNum (cfg_presence_penalty c)),
           (js ''seed'', case cfg_seed c of None \<Rightarrow> JNull | Some x \<Rightarrow> JNum x),
           (js ''stream'', JBool (cfg_stream c))]"

definition enabled_to_json :: "parameter_enabled \<Rightarrow> json" where
  "enabled_to_json e =
     JObj [(js ''temperature'', JBool (en_temperature e)), (js ''top_p'', JBool (en_top_p e)),
           (js ''max_tokens'', JBool (en_max_tokens e)),
           (js ''frequency_penalty'', JBool (en_frequency_penalty e)),
           (js ''presence_penalty'', JBool (en_presence_penalty e)),
           (js ''seed'', JBool (en_seed e))]"

text \<open>\<open>{ ...DEFAULT_CONFIG, ...saved }\<close> and \<open>{ ...DEFAULT_PARAMETER_ENABLED, ...saved }\<close>.\<close>

definition merge_config :: "json \<Rightarrow> playground_config option" where
  "merge_config v =
     do { m \<leftarrow> field_or v ''model'' as_str (cfg_model DEFAULT_CONFIG);
          g \<leftarrow> field_or v ''group'' as_str (cfg_group DEFAULT_CONFIG);
          t \<leftarrow> field_or v ''temperature'' as_num (cfg_temperature DEFAULT_CONFIG);
          p \<leftarrow> field_or v ''top_p'' as_num (cfg_top_p DEFAULT_CONFIG);
          mt \<leftarrow> field_or v ''max_tokens'' as_num (cfg_max_tokens DEFAULT_CONFIG);
          fp \<leftarrow> field_or v ''frequency_penalty'' as_num (cfg_frequency_penalty DEFAULT_CONFIG);
          pp \<leftarrow> field_or v ''presence_penalty'' as_num (cfg_presence_penalty DEFAULT_CONFIG);
          s \<leftarrow> field_or v ''seed'' (as_nullable as_num) (cfg_seed DEFAULT_CONFIG);
          st \<leftarrow> field_or v ''stream'' as_bool (cfg_stream DEFAULT_CONFIG);
          Some \<lparr>cfg_model = m, cfg_group = g, cfg_temperature = t, cfg_top_p = p,
                cfg_max_tokens = mt, cfg_frequency_penalty = fp, cfg_presence_penalty = pp,
                cfg_seed = s, cfg_stream = st\<rparr> }"

definition merge_enabled :: "json \<Rightarrow> parameter_enabled option" where
  "merge_enabled v =
     do { t \<leftarrow> field_or v ''temperature'' as_bool (en_temperature DEFAULT_PARAMETER_ENABLED);
          p \<leftarrow> field_or v ''top_p'' as_bool (en_top_p DEFAULT_PARAMETER_ENABLED);
          mt \<leftarrow> field_or v ''max_tokens'' as_bool (en_max_tokens DEFAULT_PARAMETER_ENABLED);
          fp \<leftarrow> field_or v ''frequency_penalty'' as_bool
                  (en_frequency_penalty DEFAULT_PARAMETER_ENABLED);
          pp \<leftarrow> field_or v ''presence_penalty'' as_bool
                  (en_presence_penalty DEFAULT_PARAMETER_ENABLED);
          s \<leftarrow> field_or v ''seed'' as_bool (en_seed DEFAULT_PARAMETER_ENABLED);
          Some \<lparr>en_temperature = t, en_top_p = p, en_max_tokens = mt, en_frequency_penalty = fp,
                en_presence_penalty = pp, en_seed = s\<rparr> }"

section \<open>Loading and saving\<close>

definition CONFIG_KEY :: js_string where
  "CONFIG_KEY = js ''playground_config''"

definition MESSAGES_KEY :: js_string where
  "MESSAGES_KEY = js ''playground_messages''"

definition PARAMETER_ENABLED_KEY :: js_string where
  "PARAMETER_ENABLED_KEY = js ''playground_parameter_enabled''"

text \<open>The \<open>try\<close> blocks: a failed \<open>setItem\<close> is logged and leaves the storage unchanged.\<close>

definition trySet :: "local_storage \<Rightarrow> js_string \<Rightarrow> js_string \<Rightarrow> local_storage" where
  "trySet st k v = (case setItem st k v of None \<Rightarrow> st | Some st' \<Rightarrow> st')"

definition loadConfig :: "local_storage \<Rightarrow> json" where
  "loadConfig st =
     (case getItem st CONFIG_KEY of
        None \<Rightarrow> JObj []
      | Some saved \<Rightarrow>
          if saved = [] then JObj []
          else (case json_parse saved of None \<Rightarrow> JObj [] | Some v \<Rightarrow> v))"

definition saveConfig :: "local_storage \<Rightarrow> playground_config \<Rightarrow> local_storage" where
  "saveConfig st config = trySet st CONFIG_KEY (json_stringify (config_to_json config))"

definition loadParameterEnabled :: "local_storage \<Rightarrow> json" where
  "loadParameterEnabled st =
     (case getItem st PARAMETER_ENABLED_KEY of
        None \<Rightarrow> JObj []
      | Some saved \<Rightarrow>
          if saved = [] then JObj []
          else (case json_parse saved of None \<Rightarrow> JObj [] | Some v \<Rightarrow> v))"

definition saveParameterEnabled :: "local_storage \<Rightarrow> parameter_enabled \<Rightarrow> local_storage" where
  "saveParameterEnabled st e = trySet st PARAMETER_ENABLED_KEY (json_stringify (enabled_to_json e))"

definition saveMessages :: "local_storage \<Rightarrow> message list \<Rightarrow> local_storage" where
  "saveMessages st messages =
     trySet st MESSAGES_KEY (json_stringify (JArr (map message_to_json messages)))"

datatype load_result = LoadedNull | Loaded "message list" | IllTyped json

text \<open>\<open>sanitized !== parsed\<close>: \<open>sanitizeMessagesOnLoad\<close> returns its argument itself exactly when it
  finds no interrupted message.\<close>

definition loadMessages :: "local_storage \<Rightarrow> local_storage \<times> load_result" where
  "loadMessages st =
     (case getItem st MESSAGES_KEY of
        None \<Rightarrow> (st, LoadedNull)
      | Some saved \<Rightarrow>
          if saved = [] then (st, LoadedNull)
          else
            (case json_parse saved of
               None \<Rightarrow> (st, LoadedNull)
             | Some (JArr xs) \<Rightarrow>
                 (case those (map message_of_json xs) of
                    None \<Rightarrow> (st, IllTyped (JArr xs))
                  | Some parsed \<Rightarrow>
                      (let sanitized = sanitizeMessagesOnLoad parsed in
                       (if findStuck parsed (length parsed) \<noteq> None then saveMessages st sanitized
                        else st,
                        Loaded sanitized)))
             | Some _ \<Rightarrow> (st, LoadedNull)))"

definition clearPlaygroundData :: "local_storage \<Rightarrow> local_storage" where
  "clearPlaygroundData st =
     removeItem (removeItem (removeItem st CONFIG_KEY) PARAMETER_ENABLED_KEY) MESSAGES_KEY"

section \<open>Round trips of the codecs\<close>

lemmas reader_defs = as_str_def as_num_def as_bool_def as_list_def as_nullable_def field_def
  opt_field_def field_or_def prop_of_def

lemma obj_get_append: "obj_get (xs @ ys) k = (case obj_get xs k of None \<Rightarrow> obj_get ys k | Some v \<Rightarrow> Some v)"
  by (induction xs k rule: obj_get.induct) auto

lemma obj_get_prop_of [simp]:
  "obj_get (prop_of k f v) (js k') = (if k' = k then map_option f v else None)"
  by (auto simp: prop_of_def split: option.split)

lemma those_map_inverse: "(\<And>x. x \<in> set xs \<Longrightarrow> g (f x) = Some x) \<Longrightarrow> those (map (g \<circ> f) xs) = Some xs"
  by (induction xs) auto

lemma as_role_name [simp]: "as_role (JStr (role_name r)) = Some r"
  by (cases r) (simp_all add: as_role_def as_str_def role_name_def)

lemma as_status_name [simp]: "as_status (JStr (status_name r)) = Some r"
  by (cases r) (simp_all add: as_status_def as_str_def status_name_def)

lemma version_codec [simp]: "version_of_json (version_to_json v) = Some v"
  by (simp add: version_of_json_def version_to_json_def reader_defs)

lemma source_codec [simp]: "source_of_json (source_to_json v) = Some v"
  by (simp add: source_of_json_def source_to_json_def reader_defs)

lemma reasoning_codec [simp]: "reasoning_of_json (reasoning_to_json v) = Some v"
  by (simp add: reasoning_of_json_def reasoning_to_json_def reader_defs)

lemma as_list_codec [simp]: "(\<And>x. g (f x) = Some x) \<Longrightarrow> as_list g (JArr (map f xs)) = Some xs"
  using those_map_inverse [of xs g f] by (simp add: as_list_def)

lemma message_fields:
  fixes m defines "v \<equiv> message_to_json m"
  shows "field v ''key'' f = f (JStr (msg_key m))"
    and "field v ''from'' g = g (JStr (role_name (msg_from m)))"
    and "field v ''versions'' h = h (JArr (map version_to_json (msg_versions m)))"
  by (simp_all add: v_def message_to_json_def message_props_def field_def)

lemma opt_field_message:
  fixes m defines "v \<equiv> message_to_json m"
  shows "json_prop v (js ''sources'') = map_option (\<lambda>ss. JArr (map source_to_json ss)) (msg_sources m)"
    and "json_prop v (js ''reasoning'') = map_option reasoning_to_json (msg_reasoning m)"
    and "json_prop v (js ''isReasoningStreaming'') = map_option JBool (msg_isReasoningStreaming m)"
    and "json_prop v (js ''isReasoningComplete'') = map_option JBool (msg_isReasoningComplete m)"
    and "json_prop v (js ''isContentComplete'') = map_option JBool (msg_isContentComplete m)"
    and "json_prop v (js ''status'') = map_option (\<lambda>s. JStr (status_name s)) (msg_status m)"
    and "json_prop v (js ''errorCode'') = map_option (\<lambda>e. e) (msg_errorCode m)"
  by (simp_all add: v_def message_to_json_def message_props_def obj_get_append split: option.split)

lemma opt_field_codec:
  "json_prop v (js k) = map_option f x \<Longrightarrow> (\<And>y. g (f y) = Some y) \<Longrightarrow> opt_field v k g = Some x"
  by (cases x) (simp_all add: opt_field_def)

lemma message_codec [simp]: "message_of_json (message_to_json m) = Some m"
  unfolding message_of_json_def message_fields
    opt_field_codec [OF opt_field_message(1), of "as_list source_of_json", simplified]
    opt_field_codec [OF opt_field_message(2), of reasoning_of_json, simplified]
    opt_field_codec [OF opt_field_message(3), of as_bool, simplified as_bool_def, simplified]
    opt_field_codec [OF opt_field_message(4), of as_bool, simplified as_bool_def, simplified]
    opt_field_codec [OF opt_field_message(5), of as_bool, simplified as_bool_def, simplified]
    opt_field_codec [OF opt_field_message(6), of as_status, simplified]
    opt_field_codec [OF opt_field_message(7), of Some, simplified]
  by (simp add: as_str_def)

lemma config_codec [simp]: "merge_config (config_to_json c) = Some c"
  by (simp add: merge_config_def config_to_json_def reader_defs split: option.split)

lemma enabled_codec [simp]: "merge_enabled (enabled_to_json c) = Some c"
  by (simp add: merge_enabled_def enabled_to_json_def reader_defs)

section \<open>Values that survive printing\<close>

lemma own_order_id: "list_all (\<lambda>p. array_index (fst p) = None) ps \<Longrightarrow> own_order ps = ps"
proof -
  assume "list_all (\<lambda>p. array_index (fst p) = None) ps"
  then have "filter (\<lambda>p. array_index (fst p) = None) ps = ps"
    and "filter (\<lambda>p. array_index (fst p) \<noteq> None) ps = []"
    by (induction ps) auto
  then show ?thesis unfolding own_order_def by simp
qed

definition version_ok :: "message_version \<Rightarrow> bool" where
  "version_ok v \<longleftrightarrow> str_ok (ver_id v) \<and> str_ok (ver_content v)"

definition source_ok :: "message_source \<Rightarrow> bool" where
  "source_ok s \<longleftrightarrow> str_ok (src_href s) \<and> str_ok (src_title s)"

definition reasoning_ok :: "message_reasoning \<Rightarrow> bool" where
  "reasoning_ok r \<longleftrightarrow> str_ok (rsn_content r) \<and> num_ok (rsn_duration r)"

text \<open>The values a running program holds: 16-bit code units and canonical numbers.\<close>

definition message_ok :: "message \<Rightarrow> bool" where
  "message_ok m \<longleftrightarrow> str_ok (msg_key m) \<and> list_all version_ok (msg_versions m) \<and>
     list_all source_ok (case msg_sources m of None \<Rightarrow> [] | Some ss \<Rightarrow> ss) \<and>
     (case msg_reasoning m of None \<Rightarrow> True | Some r \<Rightarrow> reasoning_ok r) \<and>
     (case msg_errorCode m of None \<Rightarrow> True | Some e \<Rightarrow> json_ok e)"

definition config_ok :: "playground_config \<Rightarrow> bool" where
  "config_ok c \<longleftrightarrow> str_ok (cfg_model c) \<and> str_ok (cfg_group c) \<and> num_ok (cfg_temperature c) \<and>
     num_ok (cfg_top_p c) \<and> num_ok (cfg_max_tokens c) \<and> num_ok (cfg_frequency_penalty c) \<and>
     num_ok (cfg_presence_penalty c) \<and> (case cfg_seed c of None \<Rightarrow> True | Some x \<Rightarrow> num_ok x)"

lemma json_ok_letters:
  assumes "distinct (map fst ps)" and "list_all (\<lambda>(k, v). array_index k = None \<and> str_ok k \<and> json_ok v) ps"
  shows "json_ok (JObj ps)"
proof -
  have "own_order ps = ps" using assms(2) by (intro own_order_id) (auto simp: list_all_iff)
  then show ?thesis using assms by (auto simp: list_all_iff)
qed

lemma version_json_ok: "version_ok v \<Longrightarrow> json_ok (version_to_json v)"
  unfolding version_to_json_def by (rule json_ok_letters) (simp_all add: version_ok_def is_digit_def)

lemma source_json_ok: "source_ok v \<Longrightarrow> json_ok (source_to_json v)"
  unfolding source_to_json_def by (rule json_ok_letters) (simp_all add: source_ok_def is_digit_def)

lemma reasoning_json_ok: "reasoning_ok v \<Longrightarrow> json_ok (reasoning_to_json v)"
  unfolding reasoning_to_json_def by (rule json_ok_letters) (simp_all add: reasoning_ok_def is_digit_def)

lemma config_json_ok: "config_ok c \<Longrightarrow> json_ok (config_to_json c)"
  unfolding config_to_json_def
  by (rule json_ok_letters) (simp_all add: config_ok_def is_digit_def split: option.splits)

lemma enabled_json_ok: "json_ok (enabled_to_json e)"
  unfolding enabled_to_json_def by (rule json_ok_letters) (simp_all add: is_digit_def)

lemma role_status_str_ok [simp]: "str_ok (role_name r)" "str_ok (status_name s)"
  by (simp_all add: role_name_def status_name_def split: message_role.split message_status.split)

lemma set_prop_of: "p \<in> set (prop_of k f v) \<longleftrightarrow> (\<exists>x. v = Some x \<and> p = (js k, f x))"
  by (auto simp: prop_of_def split: option.splits)

lemma list_all_prop_of:
  "list_all P (prop_of k f v) \<longleftrightarrow> (case v of None \<Rightarrow> True | Some x \<Rightarrow> P (js k, f x))"
  by (simp add: prop_of_def split: option.split)

lemma message_json_ok:
  assumes "message_ok m"
  shows "json_ok (message_to_json m)"
  unfolding message_to_json_def
proof (rule json_ok_letters)
  show "distinct (map fst (message_props m))" unfolding message_props_def
    by (auto simp: set_prop_of) (auto simp: prop_of_def split: option.split)
next
  have "list_all (json_ok \<circ> version_to_json) (msg_versions m)"
    using assms by (auto simp: message_ok_def list_all_iff version_json_ok)
  moreover have "case msg_sources m of None \<Rightarrow> True | Some ss \<Rightarrow> list_all (json_ok \<circ> source_to_json) ss"
    using assms by (auto simp: message_ok_def list_all_iff source_json_ok split: option.splits)
  moreover have "case msg_reasoning m of None \<Rightarrow> True | Some r \<Rightarrow> json_ok (reasoning_to_json r)"
    using assms by (auto simp: message_ok_def reasoning_json_ok split: option.splits)
  ultimately show "list_all (\<lambda>(k, v). array_index k = None \<and> str_ok k \<and> json_ok v) (message_props m)"
    using assms
    by (simp add: message_props_def list_all_prop_of is_digit_def list.pred_map message_ok_def split: option.splits)
qed

section \<open>The message operations keep values storable\<close>

lemma set_join_subset: "set (join sep xs) \<subseteq> set sep \<union> \<Union> (set (map set xs))"
  by (auto dest!: set_joinD)

lemma str_ok_parseThinkTags:
  assumes "str_ok s"
  shows "str_ok (tr_visibleContent (parseThinkTags s))" and "str_ok (tr_reasoning (parseThinkTags s))"
proof -
  obtain bs v u where T: "think_render (bs, v, u) = s" and p: "parseThinkTags s =
      (if bs = [] \<and> u = None
       then \<lparr>tr_visibleContent = s, tr_reasoning = [], tr_hasUnclosedTag = False\<rparr>
       else \<lparr>tr_visibleContent = trim (think_visible (bs, v, u)),
             tr_reasoning = trim (join [10, 10] (think_reasoning (bs, v, u))),
             tr_hasUnclosedTag = (u \<noteq> None)\<rparr>)"
    using parseThinkTags_total [of s] by blast
  have "str_ok (think_visible (bs, v, u))"
    using assms set_think_visible [of "(bs, v, u)"] T by (auto intro: str_ok_subset)
  moreover have "str_ok (join [10, 10] (think_reasoning (bs, v, u)))"
  proof (rule str_ok_subset [of "10 # s"])
    show "set (join [10, 10] (think_reasoning (bs, v, u))) \<subseteq> set (10 # s)"
      using set_join_subset [of "[10, 10]" "think_reasoning (bs, v, u)"]
        set_think_reasoning [of "(bs, v, u)"] T by auto
  qed (use assms in simp)
  ultimately show "str_ok (tr_visibleContent (parseThinkTags s))" and "str_ok (tr_reasoning (parseThinkTags s))"
    using assms by (simp_all add: p)
qed

lemma getCurrentVersion_ok: "message_ok m \<Longrightarrow> version_ok (getCurrentVersion m)"
  by (auto simp: message_ok_def getCurrentVersion_def version_ok_def split: list.splits)

lemma updateCurrentVersionContent_ok: "message_ok m \<Longrightarrow> str_ok c \<Longrightarrow> message_ok (updateCurrentVersionContent m c)"
  using getCurrentVersion_ok [of m]
  by (simp add: message_ok_def updateCurrentVersionContent_def version_ok_def)

lemma message_ok_more [simp]:
  "message_ok (m\<lparr>msg_status := s\<rparr>) = message_ok m"
  "message_ok (m\<lparr>msg_isReasoningStreaming := b\<rparr>) = message_ok m"
  by (simp_all add: message_ok_def)

lemma message_ok_reasoning:
  "message_ok m \<Longrightarrow> (case r of None \<Rightarrow> True | Some r \<Rightarrow> reasoning_ok r) \<Longrightarrow> message_ok (m\<lparr>msg_reasoning := r\<rparr>)"
  by (simp add: message_ok_def)

lemma message_ok_errorCode: "message_ok m \<Longrightarrow> json_ok e \<Longrightarrow> message_ok (m\<lparr>msg_errorCode := Some e\<rparr>)"
  by (simp add: message_ok_def)

lemma reasoning_content_ok: "message_ok m \<Longrightarrow> str_ok (reasoning_content m)"
  by (auto simp: message_ok_def reasoning_content_def reasoning_ok_def split: option.splits)

lemma reasoning_duration_ok: "message_ok m \<Longrightarrow> num_ok (reasoning_duration m)"
  by (auto simp: message_ok_def reasoning_duration_def reasoning_ok_def split: option.splits)

lemma processStreamingContent_ok:
  assumes "message_ok m" and "str_ok (opt_str c)"
  shows "message_ok (processStreamingContent m c)"
proof -
  have "str_ok (ver_content (getCurrentVersion m))"
    using getCurrentVersion_ok [OF assms(1)] by (simp add: version_ok_def)
  then show ?thesis
    using assms unfolding processStreamingContent_def Let_def message_ok_more
    by (intro message_ok_reasoning updateCurrentVersionContent_ok)
       (auto simp: reasoning_ok_def str_ok_parseThinkTags message_ok_def)
qed

lemma finalizeMessage_ok:
  assumes "message_ok m" and "str_ok (opt_str a)"
  shows "message_ok (finalizeMessage m a)"
proof -
  have "str_ok (ver_content (getCurrentVersion m))"
    using getCurrentVersion_ok [OF assms(1)] by (simp add: version_ok_def)
  then show ?thesis
    using assms reasoning_content_ok reasoning_duration_ok
    unfolding finalizeMessage_def Let_def message_ok_more
    by (intro message_ok_reasoning updateCurrentVersionContent_ok)
       (auto simp: reasoning_ok_def str_ok_parseThinkTags str_or_def)
qed

lemma errorUpdater_ok:
  "message_ok m \<Longrightarrow> str_ok e \<Longrightarrow> (case c of None \<Rightarrow> True | Some v \<Rightarrow> json_ok v) \<Longrightarrow> message_ok (errorUpdater e c m)"
  unfolding errorUpdater_def
  by (intro message_ok_errorCode)
     (auto simp: updateCurrentVersionContent_ok API_REQUEST_ERROR_def truthy_opt_def split: option.splits)

lemma sanitizeMessage_ok: "message_ok m \<Longrightarrow> message_ok (sanitizeMessage m)"
  by (simp add: sanitizeMessage_def Let_def finalizeMessage_ok updateCurrentVersionContent_ok
      API_REQUEST_ERROR_def INTERRUPTED_def opt_str_def)

lemma sanitizeMessagesOnLoad_ok: "list_all message_ok ms \<Longrightarrow> list_all message_ok (sanitizeMessagesOnLoad ms)"
  using sanitize_cases [of ms] by (auto simp: sanitizeMessage_ok)

lemma create_ok:
  "str_ok k \<Longrightarrow> str_ok v \<Longrightarrow> str_ok c \<Longrightarrow> message_ok (createUserMessage k v c)"
  "str_ok k \<Longrightarrow> str_ok v \<Longrightarrow> message_ok (createLoadingAssistantMessage k v)"
  by (simp_all add: message_ok_def createUserMessage_def createLoadingAssistantMessage_def
      createMessageVersion_def version_ok_def)

section \<open>Saving and loading\<close>

lemma list_json_ok: "list_all message_ok ms \<Longrightarrow> json_ok (JArr (map message_to_json ms))"
  by (auto simp: list_all_iff message_json_ok)

lemma trySet_Some: "setItem st k v = Some st' \<Longrightarrow> trySet st k v = st'"
  by (simp add: trySet_def)

lemma loadMessages_stored:
  assumes "list_all message_ok ms"
    and "getItem st MESSAGES_KEY = Some (json_stringify (JArr (map message_to_json ms)))"
  shows "loadMessages st =
    (if findStuck ms (length ms) \<noteq> None then saveMessages st (sanitizeMessagesOnLoad ms) else st,
     Loaded (sanitizeMessagesOnLoad ms))"
proof -
  have "those (map (message_of_json \<circ> message_to_json) ms) = Some ms"
    by (rule those_map_inverse) simp
  then show ?thesis
    using assms json_parse_stringify [OF list_json_ok] std_json.stringify_ne
    by (simp add: loadMessages_def Let_def del: json_stringify.simps)
qed

lemma setItem_fits:
  "setItem \<lparr>ls_items = [], ls_quota = Some (items_size [(k, v)])\<rparr> k v =
   Some \<lparr>ls_items = [(k, v)], ls_quota = Some (items_size [(k, v)])\<rparr>"
  by (simp add: setItem_def Let_def)

lemma setItem_fits_two:
  assumes "k \<noteq> k'"
  shows "setItem \<lparr>ls_items = [], ls_quota = Some (items_size [(k, v), (k', v')])\<rparr> k v =
      Some \<lparr>ls_items = [(k, v)], ls_quota = Some (items_size [(k, v), (k', v')])\<rparr>"
    and "setItem \<lparr>ls_items = [(k, v)], ls_quota = Some (items_size [(k, v), (k', v')])\<rparr> k' v' =
      Some \<lparr>ls_items = [(k, v), (k', v')], ls_quota = Some (items_size [(k, v), (k', v')])\<rparr>"
  using assms by (simp_all add: setItem_def items_size_def)

text \<open>C16 (roundtrip): what \<open>saveMessages\<close> wrote is what the next page load reads: the same messages,
  the interrupted one repaired. When none is interrupted the storage is left as it is.\<close>

theorem messages_roundtrip:
  assumes "list_all message_ok ms"
    and "setItem st MESSAGES_KEY (json_stringify (JArr (map message_to_json ms))) = Some st'"
  shows "saveMessages st ms = st' \<and> snd (loadMessages st') = Loaded (sanitizeMessagesOnLoad ms) \<and>
    fst (loadMessages st') =
      (if filter is_stuck ms = [] then st' else saveMessages st' (sanitizeMessagesOnLoad ms))"
proof -
  have "getItem st' MESSAGES_KEY = Some (json_stringify (JArr (map message_to_json ms)))"
    by (rule browser_store.stored_text [OF assms(2)])
  from loadMessages_stored [OF assms(1) this] show ?thesis
    using trySet_Some [OF assms(2)] findStuck_None_iff [of "length ms" ms]
    by (auto simp: saveMessages_def simp del: json_stringify.simps)
qed

theorem messages_roundtrip_witness:
  "let ms = [createUserMessage (js ''k'') (js ''v'') (js ''hi''), createLoadingAssistantMessage (js ''a'') (js ''w'')];
       n = items_size [(MESSAGES_KEY, json_stringify (JArr (map message_to_json ms)))] in
   snd (loadMessages (saveMessages \<lparr>ls_items = [], ls_quota = Some n\<rparr> ms)) =
   Loaded [createUserMessage (js ''k'') (js ''v'') (js ''hi''),
     sanitizeMessage (createLoadingAssistantMessage (js ''a'') (js ''w''))]"
proof -
  let ?ms = "[createUserMessage (js ''k'') (js ''v'') (js ''hi''), createLoadingAssistantMessage (js ''a'') (js ''w'')]"
  have ok: "list_all message_ok ?ms" by (simp add: create_ok)
  have "sanitizeMessagesOnLoad ?ms = [createUserMessage (js ''k'') (js ''v'') (js ''hi''),
      sanitizeMessage (createLoadingAssistantMessage (js ''a'') (js ''w''))]"
    by (simp add: sanitizeMessagesOnLoad_def is_stuck_def createLoadingAssistantMessage_def numeral_2_eq_2)
  with messages_roundtrip [OF ok setItem_fits] show ?thesis
    unfolding Let_def by (metis (no_types))
qed

text \<open>C17 (roundtrip): a saved configuration is loaded back unchanged, and saving the parameter
  switches afterwards does not disturb it.\<close>

theorem config_roundtrip:
  assumes "config_ok c"
    and "setItem st CONFIG_KEY (json_stringify (config_to_json c)) = Some st1"
    and "setItem st1 PARAMETER_ENABLED_KEY (json_stringify (enabled_to_json e)) = Some st2"
  shows "saveParameterEnabled (saveConfig st c) e = st2 \<and>
    merge_config (loadConfig st2) = Some c \<and> merge_enabled (loadParameterEnabled st2) = Some e"
proof -
  have "getItem st2 CONFIG_KEY = getItem st1 CONFIG_KEY"
    using browser_store.get_put [OF assms(3), of CONFIG_KEY]
    by (simp add: CONFIG_KEY_def PARAMETER_ENABLED_KEY_def)
  with browser_store.stored_text [OF assms(2)] browser_store.stored_text [OF assms(3)] show ?thesis
    using trySet_Some [OF assms(2)] trySet_Some [OF assms(3)] std_json.stringify_ne
      json_parse_stringify [OF config_json_ok [OF assms(1)]] json_parse_stringify [OF enabled_json_ok [of e]]
    by (simp add: saveConfig_def saveParameterEnabled_def loadConfig_def loadParameterEnabled_def)
qed

theorem config_roundtrip_witness:
  "let c = json_stringify (config_to_json DEFAULT_CONFIG);
       e = json_stringify (enabled_to_json DEFAULT_PARAMETER_ENABLED);
       n = items_size [(CONFIG_KEY, c), (PARAMETER_ENABLED_KEY, e)] in
   merge_config (loadConfig (saveParameterEnabled (saveConfig \<lparr>ls_items = [], ls_quota = Some n\<rparr>
     DEFAULT_CONFIG) DEFAULT_PARAMETER_ENABLED)) = Some DEFAULT_CONFIG"
proof -
  have ok: "config_ok DEFAULT_CONFIG"
    by (simp add: config_ok_def DEFAULT_CONFIG_def) (simp add: num_ok_def)
  have ne: "CONFIG_KEY \<noteq> PARAMETER_ENABLED_KEY" by (simp add: CONFIG_KEY_def PARAMETER_ENABLED_KEY_def)
  show ?thesis unfolding Let_def
    using config_roundtrip [OF ok setItem_fits_two(1) [OF ne] setItem_fits_two(2) [OF ne]] by (metis (no_types))
qed



end
