(* ===== verification/ChatHandler.thy ===== *)
theory ChatHandler
  imports PlaygroundStore
begin

text \<open>
  The hooks of the playground: \<open>use-playground-state.ts\<close>, \<open>use-stream-request.ts\<close>,
  \<open>use-chat-handler.ts\<close> and \<open>use-message-action-guard.ts\<close>.

  \<^item> \<open>playground\<close> is the state of a mounted playground: the React state of the hooks, the two refs of
    \<open>useStreamRequest\<close> (\<open>pg_source\<close>, \<open>pg_complete\<close>), the storage, and logs of what left the program
    (requests and toasts). A source of server-sent events is identified by the position of its
    creation; \<open>pg_live\<close> are the sources whose \<open>stream()\<close> has returned and that the code has not
    closed.
  \<^item> \<open>sse.js\<close> is a third-party package: its events are inputs. The listeners \<open>onMessage\<close>, \<open>onError\<close>
    and \<open>onReadyStateChange\<close> take the event data, the source and, where the code reads them, its
    \<open>readyState\<close> and \<open>status\<close>; whether \<open>stream()\<close> throws is the argument \<open>started\<close>.
  \<^item> A state update runs when it is requested, on the latest state: React batches renders, not the
    order of the updater functions.
  \<^item> The answer of \<open>sendChatCompletion\<close> (axios) is an input of type \<open>chat_result\<close>, at the type
    the code declares for it.
\<close>

section \<open>State\<close>

record model_option =
  mo_label :: js_string
  mo_value :: js_string

record group_option =
  go_label :: js_string
  go_value :: js_string
  go_ratio :: jnum
  go_desc :: "js_string option"

record playground =
  pg_config :: playground_config
  pg_enabled :: parameter_enabled
  pg_messages :: "message list"
  pg_models :: "model_option list"
  pg_groups :: "group_option list"
  pg_modelsData :: "model_option list option"
  pg_groupsData :: "group_option list option"
  pg_editing :: "js_string option"
  pg_storage :: local_storage
  pg_source :: "nat option"
  pg_complete :: bool
  pg_live :: "nat list"
  pg_sources :: nat
  pg_pending :: nat
  pg_sent :: "chat_completion_request list"
  pg_toasts :: "js_string list"
  pg_ids :: nat

definition toast :: "js_string \<Rightarrow> playground \<Rightarrow> playground" where
  "toast t s = s\<lparr>pg_toasts := pg_toasts s @ [t]\<rparr>"

section \<open>usePlaygroundState\<close>

text \<open>The initial state of the hooks, read from the storage; \<open>None\<close> when a stored value does not have
  the declared shape.\<close>

definition loadedMessages :: "load_result \<Rightarrow> message list option" where
  "loadedMessages r = (case r of LoadedNull \<Rightarrow> Some [] | Loaded ms \<Rightarrow> Some ms | IllTyped v \<Rightarrow> None)"

definition usePlaygroundState :: "local_storage \<Rightarrow> nat \<Rightarrow> playground option" where
  "usePlaygroundState st ids =
     do { config \<leftarrow> merge_config (loadConfig st);
          enabled \<leftarrow> merge_enabled (loadParameterEnabled st);
          messages \<leftarrow> loadedMessages (snd (loadMessages st));
          Some \<lparr>pg_config = config, pg_enabled = enabled, pg_messages = messages, pg_models = [],
                pg_groups = [], pg_modelsData = None, pg_groupsData = None, pg_editing = None,
                pg_storage = fst (loadMessages st), pg_source = None, pg_complete = False,
                pg_live = [], pg_sources = 0, pg_pending = 0, pg_sent = [], pg_toasts = [],
                pg_ids = ids\<rparr> }"

datatype config_entry =
    CModel js_string | CGroup js_string | CTemperature jnum | CTop_p jnum | CMax_tokens jnum
  | CFrequency_penalty jnum | CPresence_penalty jnum | CSeed "jnum option" | CStream bool

definition set_entry :: "config_entry \<Rightarrow> playground_config \<Rightarrow> playground_config" where
  "set_entry x c =
     (case x of
        CModel v \<Rightarrow> c\<lparr>cfg_model := v\<rparr> | CGroup v \<Rightarrow> c\<lparr>cfg_group := v\<rparr>
      | CTemperature v \<Rightarrow> c\<lparr>cfg_temperature := v\<rparr> | CTop_p v \<Rightarrow> c\<lparr>cfg_top_p := v\<rparr>
      | CMax_tokens v \<Rightarrow> c\<lparr>cfg_max_tokens := v\<rparr>
      | CFrequency_penalty v \<Rightarrow> c\<lparr>cfg_frequency_penalty := v\<rparr>
      | CPresence_penalty v \<Rightarrow> c\<lparr>cfg_presence_penalty := v\<rparr>
      | CSeed v \<Rightarrow> c\<lparr>cfg_seed := v\<rparr> | CStream v \<Rightarrow> c\<lparr>cfg_stream := v\<rparr>)"

definition set_enabled :: "param_key \<Rightarrow> bool \<Rightarrow> parameter_enabled \<Rightarrow> parameter_enabled" where
  "set_enabled k b e =
     (case k of
        Temperature \<Rightarrow> e\<lparr>en_temperature := b\<rparr> | Top_p \<Rightarrow> e\<lparr>en_top_p := b\<rparr>
      | Max_tokens \<Rightarrow> e\<lparr>en_max_tokens := b\<rparr> | Frequency_penalty \<Rightarrow> e\<lparr>en_frequency_penalty := b\<rparr>
      | Presence_penalty \<Rightarrow> e\<lparr>en_presence_penalty := b\<rparr> | Seed \<Rightarrow> e\<lparr>en_seed := b\<rparr>)"

definition updateConfig :: "config_entry \<Rightarrow> playground \<Rightarrow> playground" where
  "updateConfig x s =
     (let updated = set_entry x (pg_config s) in
      s\<lparr>pg_config := updated, pg_storage := saveConfig (pg_storage s) updated\<rparr>)"

definition updateParameterEnabled :: "param_key \<Rightarrow> bool \<Rightarrow> playground \<Rightarrow> playground" where
  "updateParameterEnabled k b s =
     (let updated = set_enabled k b (pg_enabled s) in
      s\<lparr>pg_enabled := updated, pg_storage := saveParameterEnabled (pg_storage s) updated\<rparr>)"

definition updateMessages :: "(message list \<Rightarrow> message list) \<Rightarrow> playground \<Rightarrow> playground" where
  "updateMessages updater s =
     (let newMessages = updater (pg_messages s) in
      s\<lparr>pg_messages := newMessages, pg_storage := saveMessages (pg_storage s) newMessages\<rparr>)"

definition clearMessages :: "playground \<Rightarrow> playground" where
  "clearMessages s = updateMessages (\<lambda>_. []) s"

definition resetConfig :: "playground \<Rightarrow> playground" where
  "resetConfig s =
     s\<lparr>pg_config := DEFAULT_CONFIG, pg_enabled := DEFAULT_PARAMETER_ENABLED,
       pg_storage := saveParameterEnabled (saveConfig (pg_storage s) DEFAULT_CONFIG)
         DEFAULT_PARAMETER_ENABLED\<rparr>"

section \<open>Updates of the message being generated\<close>

datatype delta_kind = DReasoning | DContent

definition streamUpdater :: "delta_kind \<Rightarrow> js_string \<Rightarrow> message \<Rightarrow> message" where
  "streamUpdater kind chunk m =
     (if msg_status m = Some Error then m
      else case kind of
        DReasoning \<Rightarrow>
          m\<lparr>msg_reasoning := Some \<lparr>rsn_content = reasoning_content m @ chunk, rsn_duration = num_of_int 0\<rparr>,
            msg_isReasoningStreaming := Some True, msg_status := Some Streaming\<rparr>
      | DContent \<Rightarrow> (processStreamingContent m (Some chunk))\<lparr>msg_status := Some Streaming\<rparr>)"

definition handleStreamUpdate :: "delta_kind \<Rightarrow> js_string \<Rightarrow> playground \<Rightarrow> playground" where
  "handleStreamUpdate kind chunk s =
     updateMessages (\<lambda>prev. updateLastAssistantMessage prev (streamUpdater kind chunk)) s"

definition completeUpdater :: "message \<Rightarrow> message" where
  "completeUpdater m =
     (if msg_status m = Some Complete \<or> msg_status m = Some Error then m
      else (finalizeMessage m None)\<lparr>msg_status := Some Complete\<rparr>)"

definition handleStreamComplete :: "playground \<Rightarrow> playground" where
  "handleStreamComplete s =
     updateMessages (\<lambda>prev. updateLastAssistantMessage prev completeUpdater) s"

definition handleStreamError :: "js_string \<Rightarrow> json option \<Rightarrow> playground \<Rightarrow> playground" where
  "handleStreamError e errorCode s =
     updateMessages (\<lambda>prev. updateAssistantMessageWithError prev e errorCode) (toast e s)"

section \<open>useStreamRequest\<close>

definition closeSource :: "nat \<Rightarrow> playground \<Rightarrow> playground" where
  "closeSource src s = s\<lparr>pg_live := removeAll src (pg_live s), pg_source := None\<rparr>"

definition handleError :: "nat \<Rightarrow> js_string \<Rightarrow> json option \<Rightarrow> playground \<Rightarrow> playground" where
  "handleError src errorMessage errorCode s =
     (if \<not> pg_complete s then closeSource src (handleStreamError errorMessage errorCode s) else s)"

text \<open>\<open>JSON.parse(e.data)\<close> and \<open>chunk.choices?.[0]?.delta\<close>: \<open>None\<close> when one of them throws.\<close>

definition chunkDelta :: "js_string \<Rightarrow> json option option" where
  "chunkDelta data =
     (case json_parse data of
        None \<Rightarrow> None
      | Some JNull \<Rightarrow> None
      | Some chunk \<Rightarrow>
          Some (opt_prop (opt_prop (json_prop chunk (js ''choices'')) (js ''0'')) (js ''delta'')))"

definition onMessage :: "nat \<Rightarrow> js_string \<Rightarrow> playground \<Rightarrow> playground" where
  "onMessage src data s =
     (if data = js ''[DONE]'' then
        handleStreamComplete (closeSource src (s\<lparr>pg_complete := True\<rparr>))
      else
        (case chunkDelta data of
           None \<Rightarrow> handleError src PARSE_ERROR None s
         | Some delta \<Rightarrow>
             if \<not> truthy_opt delta then s
             else
               (let r = opt_prop delta (js ''reasoning_content'');
                    c = opt_prop delta (js ''content'');
                    s1 = (if truthy_opt r
                          then handleStreamUpdate DReasoning (json_to_string (the r)) s else s) in
                if truthy_opt c then handleStreamUpdate DContent (json_to_string (the c)) s1
                else s1)))"

text \<open>The text and the code the \<open>error\<close> listener takes from \<open>e.data\<close>.\<close>

definition errorDetails :: "js_string option \<Rightarrow> js_string \<times> json option" where
  "errorDetails data =
     (let errorMessage = str_or (opt_str data) API_REQUEST_ERROR in
      if opt_str data = [] then (errorMessage, None)
      else
        (case json_parse (opt_str data) of
           None \<Rightarrow> (errorMessage, None)
         | Some parsed \<Rightarrow>
             (let e = json_prop parsed (js ''error'') in
              if truthy_opt e then
                (if truthy_opt (opt_prop e (js ''message''))
                 then json_to_string (the (opt_prop e (js ''message''))) else errorMessage,
                 if truthy_opt (opt_prop e (js ''code'')) then opt_prop e (js ''code'') else None)
              else (errorMessage, None))))"

definition onError :: "nat \<Rightarrow> js_string option \<Rightarrow> int \<Rightarrow> playground \<Rightarrow> playground" where
  "onError src data readyState s =
     (if readyState \<noteq> 2 then
        (case errorDetails data of (errorMessage, errorCode) \<Rightarrow> handleError src errorMessage errorCode s)
      else s)"

definition onReadyStateChange :: "nat \<Rightarrow> int option \<Rightarrow> int option \<Rightarrow> playground \<Rightarrow> playground" where
  "onReadyStateChange src readyState status s =
     (case (readyState, status) of
        (Some r, Some c) \<Rightarrow>
          if r \<ge> 2 \<and> c \<noteq> 200
          then handleError src (js ''HTTP '' @ int_to_string c @ js '': '' @ CONNECTION_CLOSED) None s
          else s
      | _ \<Rightarrow> s)"

definition sendStreamRequest :: "chat_completion_request \<Rightarrow> bool \<Rightarrow> playground \<Rightarrow> playground" where
  "sendStreamRequest payload started s =
     (let src = pg_sources s;
          s1 = s\<lparr>pg_sources := Suc src, pg_source := Some src, pg_complete := False,
                 pg_sent := pg_sent s @ [payload]\<rparr> in
      if started then s1\<lparr>pg_live := src # pg_live s1\<rparr>
      else (handleStreamError STREAM_START_ERROR None s1)\<lparr>pg_source := None\<rparr>)"

definition stopStream :: "playground \<Rightarrow> playground" where
  "stopStream s = (case pg_source s of None \<Rightarrow> s | Some src \<Rightarrow> closeSource src s)"

definition isGenerating :: "playground \<Rightarrow> bool" where
  "isGenerating s \<longleftrightarrow> pg_source s \<noteq> None"

section \<open>useChatHandler\<close>

record chat_choice =
  cc_content :: "js_string option"
  cc_reasoning :: "js_string option"

datatype chat_result =
    Response "chat_choice list option"
  | Rejected "js_string option" "js_string option" "json option"

definition sendStreamingChat :: "message list \<Rightarrow> bool \<Rightarrow> playground \<Rightarrow> playground" where
  "sendStreamingChat messages started s =
     sendStreamRequest (buildChatCompletionPayload messages (pg_config s) (pg_enabled s)) started s"

text \<open>\<open>sendNonStreamingChat\<close> up to its \<open>await\<close>, and what follows it.\<close>

definition sendNonStreamingChat :: "message list \<Rightarrow> playground \<Rightarrow> playground" where
  "sendNonStreamingChat messages s =
     s\<lparr>pg_sent := pg_sent s @ [buildChatCompletionPayload messages (pg_config s) (pg_enabled s)],
       pg_pending := Suc (pg_pending s)\<rparr>"

definition replyUpdater :: "chat_choice \<Rightarrow> message \<Rightarrow> message" where
  "replyUpdater choice m =
     (finalizeMessage
        (m\<lparr>msg_versions := [(getCurrentVersion m)\<lparr>ver_content := opt_str (cc_content choice)\<rparr>]\<rparr>)
        (cc_reasoning choice))\<lparr>msg_status := Some Complete\<rparr>"

definition onChatResult :: "chat_result \<Rightarrow> playground \<Rightarrow> playground" where
  "onChatResult result s =
     (let s1 = s\<lparr>pg_pending := pg_pending s - 1\<rparr> in
      case result of
        Response choices \<Rightarrow>
          (case choices of
             Some (choice # _) \<Rightarrow>
               updateMessages (\<lambda>prev. updateLastAssistantMessage prev (replyUpdater choice)) s1
           | _ \<Rightarrow> s1)
      | Rejected dataMessage errMessage code \<Rightarrow>
          handleStreamError
            (str_or (opt_str dataMessage) (str_or (opt_str errMessage) API_REQUEST_ERROR))
            (if truthy_opt code then code else None) s1)"

definition sendChat :: "message list \<Rightarrow> bool \<Rightarrow> playground \<Rightarrow> playground" where
  "sendChat messages started s =
     (if cfg_stream (pg_config s) then sendStreamingChat messages started s
      else sendNonStreamingChat messages s)"

definition stopUpdater :: "message \<Rightarrow> message" where
  "stopUpdater m =
     (if msg_status m = Some Loading \<or> msg_status m = Some Streaming
      then (finalizeMessage m None)\<lparr>msg_status := Some Complete\<rparr> else m)"

definition stopGeneration :: "playground \<Rightarrow> playground" where
  "stopGeneration s =
     updateMessages (\<lambda>prev. updateLastAssistantMessage prev stopUpdater) (stopStream s)"

section \<open>useMessageActionGuard\<close>

definition WAIT_GENERATION :: js_string where
  "WAIT_GENERATION = js ''Please wait for the current generation to complete''"

definition guardAction :: "(playground \<Rightarrow> playground) \<Rightarrow> playground \<Rightarrow> playground" where
  "guardAction action s = (if isGenerating s then toast WAIT_GENERATION s else action s)"

end
