(* ===== verification/Playground.thy ===== *)
theory Playground
  imports ChatHandler
begin

text \<open>
  The playground page (\<open>features/playground/index.tsx\<close>) with the handlers of its components
  (\<open>components/playground-input.tsx\<close>, \<open>message-actions.tsx\<close>, \<open>playground-chat.tsx\<close>) as one step
  function over the events of a session.

  \<^item> \<open>nanoid\<close> is the parameter \<open>nid\<close>: its \<open>n\<close>-th call returns \<open>nid n\<close>; \<open>pg_ids\<close> counts the calls.
  \<^item> The effects that follow the loaded models and groups run after every event: React reruns them
    when their dependencies change, and on unchanged dependencies they change nothing
    (\<open>effects_idem\<close>).
  \<^item> \<open>admissible\<close> is what the code relies on from \<open>sse.js\<close> and the browser: a message event comes from
    a source that streams and was not closed; a closed source has \<open>readyState\<close> 2; the
    \<open>readystatechange\<close> event of a closed source is dispatched by \<open>close()\<close>, before another request
    starts; a reply answers a pending request; strings are sequences of 16-bit code units.
\<close>

section \<open>Handlers\<close>

definition newUserMessage :: "(nat \<Rightarrow> js_string) \<Rightarrow> js_string \<Rightarrow> playground \<Rightarrow> message \<times> playground" where
  "newUserMessage nid text s =
     (createUserMessage (nid (pg_ids s)) (nid (Suc (pg_ids s))) text, s\<lparr>pg_ids := pg_ids s + 2\<rparr>)"

definition newLoadingMessage :: "(nat \<Rightarrow> js_string) \<Rightarrow> playground \<Rightarrow> message \<times> playground" where
  "newLoadingMessage nid s =
     (createLoadingAssistantMessage (nid (pg_ids s)) (nid (Suc (pg_ids s))), s\<lparr>pg_ids := pg_ids s + 2\<rparr>)"

definition handleSendMessage ::
  "(nat \<Rightarrow> js_string) \<Rightarrow> js_string \<Rightarrow> bool \<Rightarrow> playground \<Rightarrow> playground" where
  "handleSendMessage nid text started s =
     (case newUserMessage nid text s of (userMessage, s1) \<Rightarrow>
      case newLoadingMessage nid s1 of (assistantMessage, s2) \<Rightarrow>
        (let newMessages = pg_messages s @ [userMessage, assistantMessage] in
         sendChat newMessages started (updateMessages (\<lambda>_. newMessages) s2)))"

definition findIndex :: "('a \<Rightarrow> bool) \<Rightarrow> 'a list \<Rightarrow> nat option" where
  "findIndex p xs = (let n = length (takeWhile (\<lambda>x. \<not> p x) xs) in if n < length xs then Some n else None)"

definition handleRegenerateMessage ::
  "(nat \<Rightarrow> js_string) \<Rightarrow> js_string \<Rightarrow> bool \<Rightarrow> playground \<Rightarrow> playground" where
  "handleRegenerateMessage nid key started s =
     (case findIndex (\<lambda>m. msg_key m = key) (pg_messages s) of
        None \<Rightarrow> s
      | Some messageIndex \<Rightarrow>
          (case newLoadingMessage nid s of (loadingMessage, s1) \<Rightarrow>
             (let newMessages = take messageIndex (pg_messages s) @ [loadingMessage] in
              sendChat newMessages started (updateMessages (\<lambda>_. newMessages) s1))))"

definition handleEditMessage :: "js_string \<Rightarrow> playground \<Rightarrow> playground" where
  "handleEditMessage key s = s\<lparr>pg_editing := Some key\<rparr>"

definition handleEditOpenChange :: "bool \<Rightarrow> playground \<Rightarrow> playground" where
  "handleEditOpenChange isOpen s = (if \<not> isOpen then s\<lparr>pg_editing := None\<rparr> else s)"

text \<open>\<open>{ ...m, versions: [{ ...m.versions[0], content }] }\<close>; every message has a version.\<close>

definition editContent :: "js_string \<Rightarrow> message \<Rightarrow> message" where
  "editContent newContent m =
     m\<lparr>msg_versions := [(getCurrentVersion m)\<lparr>ver_content := newContent\<rparr>]\<rparr>"

definition applyEdit ::
  "(nat \<Rightarrow> js_string) \<Rightarrow> js_string \<Rightarrow> bool \<Rightarrow> bool \<Rightarrow> playground \<Rightarrow> playground" where
  "applyEdit nid newContent submit started s =
     (case pg_editing s of
        None \<Rightarrow> s
      | Some key \<Rightarrow>
          if key = [] then s
          else
            (case findIndex (\<lambda>m. msg_key m = key) (pg_messages s) of
               None \<Rightarrow> s
             | Some index \<Rightarrow>
                 (let updated = map (\<lambda>m. if msg_key m = key then editContent newContent m else m)
                                  (pg_messages s);
                      s1 = s\<lparr>pg_editing := None\<rparr> in
                  if \<not> submit \<or> msg_from (updated ! index) \<noteq> User
                  then updateMessages (\<lambda>_. updated) s1
                  else
                    (case newLoadingMessage nid s1 of (loadingMessage, s2) \<Rightarrow>
                       (let toSubmit = take (Suc index) updated @ [loadingMessage] in
                        sendChat toSubmit started (updateMessages (\<lambda>_. toSubmit) s2))))))"

definition handleDeleteMessage :: "js_string \<Rightarrow> playground \<Rightarrow> playground" where
  "handleDeleteMessage key s =
     (let newMessages = filter (\<lambda>m. msg_key m \<noteq> key) (pg_messages s) in
      updateMessages (\<lambda>_. newMessages) s)"

text \<open>\<open>handleSubmit\<close> and \<open>handleSuggestionClick\<close> of the input; only the first checks \<open>disabled\<close>.\<close>

definition handleSubmit ::
  "(nat \<Rightarrow> js_string) \<Rightarrow> js_string \<Rightarrow> bool \<Rightarrow> playground \<Rightarrow> playground" where
  "handleSubmit nid text started s =
     (if trim text = [] \<or> isGenerating s then s else handleSendMessage nid text started s)"

definition handleSuggestionClick ::
  "(nat \<Rightarrow> js_string) \<Rightarrow> js_string \<Rightarrow> bool \<Rightarrow> playground \<Rightarrow> playground" where
  "handleSuggestionClick nid suggestion started s = handleSendMessage nid suggestion started s"

section \<open>Effects\<close>

definition modelsEffect :: "playground \<Rightarrow> playground" where
  "modelsEffect s =
     (case pg_modelsData s of
        None \<Rightarrow> s
      | Some models \<Rightarrow>
          (let s1 = s\<lparr>pg_models := models\<rparr>;
               isCurrentModelValid = list_ex (\<lambda>m. mo_value m = cfg_model (pg_config s)) models in
           case models of
             [] \<Rightarrow> s1
           | m # _ \<Rightarrow> if \<not> isCurrentModelValid then updateConfig (CModel (mo_value m)) s1 else s1))"

definition groupsEffect :: "playground \<Rightarrow> playground" where
  "groupsEffect s =
     (case pg_groupsData s of
        None \<Rightarrow> s
      | Some groups \<Rightarrow>
          (let s1 = s\<lparr>pg_groups := groups\<rparr>;
               hasCurrentGroup = list_ex (\<lambda>g. go_value g = cfg_group (pg_config s)) groups in
           case groups of
             [] \<Rightarrow> s1
           | g # _ \<Rightarrow>
               if \<not> hasCurrentGroup then
                 updateConfig (CGroup
                   (case find (\<lambda>g. go_value g = js ''default'') groups of
                      Some d \<Rightarrow> go_value d | None \<Rightarrow> go_value g)) s1
               else s1))"

definition effects :: "playground \<Rightarrow> playground" where
  "effects s = groupsEffect (modelsEffect s)"

section \<open>Events\<close>

datatype event =
    Submit js_string bool
  | Suggest js_string bool
  | Regenerate js_string bool
  | StartEdit js_string
  | CancelEdit
  | SaveEdit js_string
  | SubmitEdit js_string bool
  | Delete js_string
  | Stop
  | ModelChange js_string
  | GroupChange js_string
  | ModelsLoaded "model_option list"
  | GroupsLoaded "group_option list"
  | SseMessage nat js_string
  | SseError nat "js_string option" int
  | SseReady nat "int option" "int option"
  | Reply chat_result

fun handle :: "(nat \<Rightarrow> js_string) \<Rightarrow> event \<Rightarrow> playground \<Rightarrow> playground" where
  "handle nid (Submit text started) s = handleSubmit nid text started s"
| "handle nid (Suggest text started) s = handleSuggestionClick nid text started s"
| "handle nid (Regenerate key started) s = guardAction (handleRegenerateMessage nid key started) s"
| "handle nid (StartEdit key) s = guardAction (handleEditMessage key) s"
| "handle nid CancelEdit s = handleEditOpenChange False s"
| "handle nid (SaveEdit text) s = applyEdit nid text False True s"
| "handle nid (SubmitEdit text started) s = applyEdit nid text True started s"
| "handle nid (Delete key) s = guardAction (handleDeleteMessage key) s"
| "handle nid Stop s = stopGeneration s"
| "handle nid (ModelChange v) s = updateConfig (CModel v) s"
| "handle nid (GroupChange v) s = updateConfig (CGroup v) s"
| "handle nid (ModelsLoaded ms) s = s\<lparr>pg_modelsData := Some ms\<rparr>"
| "handle nid (GroupsLoaded gs) s = s\<lparr>pg_groupsData := Some gs\<rparr>"
| "handle nid (SseMessage src data) s = onMessage src data s"
| "handle nid (SseError src data r) s = onError src data r s"
| "handle nid (SseReady src r st) s = onReadyStateChange src r st s"
| "handle nid (Reply res) s = onChatResult res s"

definition step :: "(nat \<Rightarrow> js_string) \<Rightarrow> event \<Rightarrow> playground \<Rightarrow> playground" where
  "step nid e s = effects (handle nid e s)"

fun run :: "(nat \<Rightarrow> js_string) \<Rightarrow> event list \<Rightarrow> playground \<Rightarrow> playground" where
  "run nid [] s = s"
| "run nid (e # es) s = run nid es (step nid e s)"

section \<open>Admissible events and reachable states\<close>

definition opt_ok :: "('a \<Rightarrow> bool) \<Rightarrow> 'a option \<Rightarrow> bool" where
  "opt_ok p v = (case v of None \<Rightarrow> True | Some x \<Rightarrow> p x)"

fun result_ok :: "chat_result \<Rightarrow> bool" where
  "result_ok (Response cs) =
     opt_ok (list_all (\<lambda>c. opt_ok str_ok (cc_content c) \<and> opt_ok str_ok (cc_reasoning c))) cs"
| "result_ok (Rejected m e c) \<longleftrightarrow> opt_ok str_ok m \<and> opt_ok str_ok e \<and> opt_ok json_ok c"

fun admissible :: "playground \<Rightarrow> event \<Rightarrow> bool" where
  "admissible s (Submit text started) = str_ok text"
| "admissible s (Suggest text started) = str_ok text"
| "admissible s (SaveEdit text) = str_ok text"
| "admissible s (SubmitEdit text started) = str_ok text"
| "admissible s (ModelChange v) = str_ok v"
| "admissible s (GroupChange v) = str_ok v"
| "admissible s (ModelsLoaded ms) = list_all (\<lambda>m. str_ok (mo_value m)) ms"
| "admissible s (GroupsLoaded gs) = list_all (\<lambda>g. str_ok (go_value g)) gs"
| "admissible s (SseMessage src data) \<longleftrightarrow> src \<in> set (pg_live s) \<and> str_ok data"
| "admissible s (SseError src data r) \<longleftrightarrow>
     (src \<in> set (pg_live s) \<or> r = 2) \<and> opt_ok str_ok data"
| "admissible s (SseReady src r st) \<longleftrightarrow> src \<in> set (pg_live s) \<or> pg_source s = None"
| "admissible s (Reply res) \<longleftrightarrow> 0 < pg_pending s \<and> result_ok res"
| "admissible s _ = True"

text \<open>The events whose handlers do not check whether a message is being generated: the suggestion
  buttons and the submit button of an open edit form stay enabled during a generation.\<close>

fun unguarded :: "event \<Rightarrow> bool" where
  "unguarded (Suggest text started) = True"
| "unguarded (SubmitEdit text started) = True"
| "unguarded _ = False"

definition disciplined :: "playground \<Rightarrow> event \<Rightarrow> bool" where
  "disciplined s e \<longleftrightarrow> admissible s e \<and> \<not> (unguarded e \<and> isGenerating s)"

text \<open>The states of a session that mounts on the storage \<open>st\<close> after \<open>ids\<close> calls of \<open>nanoid\<close> and
  processes allowed events.\<close>

inductive reaches ::
  "(playground \<Rightarrow> event \<Rightarrow> bool) \<Rightarrow> (nat \<Rightarrow> js_string) \<Rightarrow> local_storage \<Rightarrow> nat \<Rightarrow> playground \<Rightarrow> bool"
  for allowed :: "playground \<Rightarrow> event \<Rightarrow> bool" and nid :: "nat \<Rightarrow> js_string"
    and st :: local_storage and ids :: nat where
  mount: "usePlaygroundState st ids = Some s \<Longrightarrow> reaches allowed nid st ids s"
| event: "reaches allowed nid st ids s \<Longrightarrow> allowed s e \<Longrightarrow> reaches allowed nid st ids (step nid e s)"

lemma reaches_invariant [consumes 1, case_names mount handle effects]:
  assumes "reaches allowed nid st ids s"
    and "\<And>s. usePlaygroundState st ids = Some s \<Longrightarrow> I s"
    and "\<And>s e. I s \<Longrightarrow> allowed s e \<Longrightarrow> I (handle nid e s)"
    and "\<And>s. I s \<Longrightarrow> I (effects s)"
  shows "I s"
  using assms(1) by induction (auto simp: step_def assms(2-4))

end
