(* ===== verification/PlaygroundProps.thy ===== *)
theory PlaygroundProps
  imports Playground
begin

text \<open>
  What holds in every state of a playground session: message keys are unique, the storage mirrors
  the messages so that a reload restores them, a message is in progress only while a source is open
  (in disciplined streaming sessions), and a streamed answer ends as the answer a non-streaming
  request would have given.
\<close>

section \<open>Updaters of a message\<close>

text \<open>The contract of the functions passed to \<open>updateLastAssistantMessage\<close>.\<close>

locale message_updater =
  fixes upd :: "message \<Rightarrow> message"
  assumes upd_key: "msg_key (upd m) = msg_key m"
    and upd_from: "msg_from (upd m) = msg_from m"
begin

lemma keys_updateLast: "map msg_key (updateLastAssistantMessage ms upd) = map msg_key ms"
  by (cases ms rule: rev_cases) (simp_all add: updateLast_snoc upd_key)

lemma roles_updateLast: "map msg_from (updateLastAssistantMessage ms upd) = map msg_from ms"
  by (cases ms rule: rev_cases) (simp_all add: updateLast_snoc upd_from)

lemma ok_updateLast:
  "list_all message_ok ms \<Longrightarrow> (\<And>m. message_ok m \<Longrightarrow> message_ok (upd m)) \<Longrightarrow>
   list_all message_ok (updateLastAssistantMessage ms upd)"
  by (cases ms rule: rev_cases) (simp_all add: updateLast_snoc)

end

interpretation stream_upd: message_updater "streamUpdater kind chunk" for kind chunk
  by unfold_locales (simp_all add: streamUpdater_def split: delta_kind.split)

interpretation complete_upd: message_updater completeUpdater
  by unfold_locales (simp_all add: completeUpdater_def)

interpretation stop_upd: message_updater stopUpdater
  by unfold_locales (simp_all add: stopUpdater_def)

interpretation reply_upd: message_updater "replyUpdater choice" for choice
  by unfold_locales (simp_all add: replyUpdater_def)

interpretation error_upd: message_updater "errorUpdater e c" for e c
  by unfold_locales simp_all

lemma updater_ok:
  "message_ok m \<Longrightarrow> str_ok chunk \<Longrightarrow> message_ok (streamUpdater kind chunk m)"
  "message_ok m \<Longrightarrow> message_ok (completeUpdater m)"
  "message_ok m \<Longrightarrow> message_ok (stopUpdater m)"
  "message_ok m \<Longrightarrow> opt_ok str_ok (cc_content choice) \<Longrightarrow> opt_ok str_ok (cc_reasoning choice) \<Longrightarrow>
     message_ok (replyUpdater choice m)"
  "message_ok m \<Longrightarrow> str_ok t \<Longrightarrow> message_ok (editContent t m)"
proof -
  show "message_ok m \<Longrightarrow> str_ok chunk \<Longrightarrow> message_ok (streamUpdater kind chunk m)"
    using reasoning_content_ok [of m]
    by (auto simp: streamUpdater_def opt_str_def reasoning_ok_def processStreamingContent_ok
        message_ok_reasoning split: delta_kind.split)
  show "message_ok m \<Longrightarrow> message_ok (completeUpdater m)" "message_ok m \<Longrightarrow> message_ok (stopUpdater m)"
    by (simp_all add: completeUpdater_def stopUpdater_def finalizeMessage_ok opt_str_def)
  show "message_ok m \<Longrightarrow> str_ok t \<Longrightarrow> message_ok (editContent t m)"
    using updateCurrentVersionContent_ok [of m t]
    by (simp add: editContent_def updateCurrentVersionContent_def)
  show "message_ok m \<Longrightarrow> opt_ok str_ok (cc_content choice) \<Longrightarrow> opt_ok str_ok (cc_reasoning choice) \<Longrightarrow>
      message_ok (replyUpdater choice m)"
    using updateCurrentVersionContent_ok [of m "opt_str (cc_content choice)"]
    by (auto simp: replyUpdater_def updateCurrentVersionContent_def opt_ok_def opt_str_def
        finalizeMessage_ok split: option.splits)
qed

section \<open>What the handlers change\<close>

lemma updateMessages_fields [simp]:
  "pg_messages (updateMessages f s) = f (pg_messages s)"
  "pg_storage (updateMessages f s) = saveMessages (pg_storage s) (f (pg_messages s))"
  "pg_config (updateMessages f s) = pg_config s" "pg_ids (updateMessages f s) = pg_ids s"
  "pg_source (updateMessages f s) = pg_source s" "pg_live (updateMessages f s) = pg_live s"
  "pg_complete (updateMessages f s) = pg_complete s" "pg_pending (updateMessages f s) = pg_pending s"
  "pg_modelsData (updateMessages f s) = pg_modelsData s"
  "pg_groupsData (updateMessages f s) = pg_groupsData s"
  "pg_enabled (updateMessages f s) = pg_enabled s" "pg_sources (updateMessages f s) = pg_sources s"
  by (simp_all add: updateMessages_def Let_def)

lemma toast_fields [simp]:
  "pg_messages (toast t s) = pg_messages s" "pg_storage (toast t s) = pg_storage s"
  "pg_config (toast t s) = pg_config s" "pg_ids (toast t s) = pg_ids s"
  "pg_source (toast t s) = pg_source s" "pg_live (toast t s) = pg_live s"
  "pg_complete (toast t s) = pg_complete s" "pg_pending (toast t s) = pg_pending s"
  "pg_modelsData (toast t s) = pg_modelsData s" "pg_groupsData (toast t s) = pg_groupsData s"
  "pg_enabled (toast t s) = pg_enabled s" "pg_sources (toast t s) = pg_sources s"
  by (simp_all add: toast_def)

lemma updateConfig_fields [simp]:
  "pg_messages (updateConfig x s) = pg_messages s"
  "pg_storage (updateConfig x s) = saveConfig (pg_storage s) (set_entry x (pg_config s))"
  "pg_config (updateConfig x s) = set_entry x (pg_config s)" "pg_ids (updateConfig x s) = pg_ids s"
  "pg_source (updateConfig x s) = pg_source s" "pg_live (updateConfig x s) = pg_live s"
  "pg_complete (updateConfig x s) = pg_complete s" "pg_pending (updateConfig x s) = pg_pending s"
  "pg_modelsData (updateConfig x s) = pg_modelsData s"
  "pg_groupsData (updateConfig x s) = pg_groupsData s"
  "pg_enabled (updateConfig x s) = pg_enabled s" "pg_sources (updateConfig x s) = pg_sources s"
  by (simp_all add: updateConfig_def Let_def)

lemma closeSource_fields [simp]:
  "pg_messages (closeSource src s) = pg_messages s" "pg_storage (closeSource src s) = pg_storage s"
  "pg_config (closeSource src s) = pg_config s" "pg_ids (closeSource src s) = pg_ids s"
  "pg_source (closeSource src s) = None" "pg_live (closeSource src s) = removeAll src (pg_live s)"
  "pg_complete (closeSource src s) = pg_complete s" "pg_pending (closeSource src s) = pg_pending s"
  "pg_modelsData (closeSource src s) = pg_modelsData s"
  "pg_groupsData (closeSource src s) = pg_groupsData s"
  "pg_enabled (closeSource src s) = pg_enabled s" "pg_sources (closeSource src s) = pg_sources s"
  by (simp_all add: closeSource_def)

lemmas handler_defs =
  handleStreamUpdate_def handleStreamComplete_def handleStreamError_def handleError_def
  updateAssistantMessageWithError_def onError_def onReadyStateChange_def onChatResult_def
  stopGeneration_def stopStream_def guardAction_def handleEditMessage_def handleEditOpenChange_def
  handleDeleteMessage_def

lemmas send_defs =
  sendChat_def sendStreamingChat_def sendNonStreamingChat_def sendStreamRequest_def

lemmas page_defs =
  handleSubmit_def handleSuggestionClick_def handleSendMessage_def newUserMessage_def
  newLoadingMessage_def handleRegenerateMessage_def applyEdit_def

lemma effects_fields [simp]:
  "pg_messages (effects s) = pg_messages s" "pg_ids (effects s) = pg_ids s"
  "pg_source (effects s) = pg_source s" "pg_live (effects s) = pg_live s"
  "pg_complete (effects s) = pg_complete s" "pg_pending (effects s) = pg_pending s"
  "pg_modelsData (effects s) = pg_modelsData s" "pg_groupsData (effects s) = pg_groupsData s"
  "cfg_stream (pg_config (effects s)) = cfg_stream (pg_config s)"
  by (auto simp: effects_def groupsEffect_def modelsEffect_def Let_def set_entry_def
      split: option.split list.split)

lemma sendChat_fields [simp]:
  "pg_messages (sendChat ms started s) =
     (if cfg_stream (pg_config s) \<and> \<not> started
      then updateLastAssistantMessage (pg_messages s) (errorUpdater STREAM_START_ERROR None)
      else pg_messages s)"
  "pg_ids (sendChat ms started s) = pg_ids s"
  "pg_config (sendChat ms started s) = pg_config s"
  "pg_modelsData (sendChat ms started s) = pg_modelsData s"
  "pg_groupsData (sendChat ms started s) = pg_groupsData s"
  by (simp_all add: send_defs handler_defs Let_def)

section \<open>Unique keys\<close>

definition fresh_keys :: "(nat \<Rightarrow> js_string) \<Rightarrow> nat \<Rightarrow> js_string list \<Rightarrow> bool" where
  "fresh_keys nid n ks \<longleftrightarrow> distinct ks \<and> (\<forall>k\<in>set ks. \<forall>i\<ge>n. k \<noteq> nid i)"

lemma fresh_keys_snoc:
  assumes "inj nid" and "fresh_keys nid n ks"
  shows "fresh_keys nid (Suc (Suc n)) (ks @ [nid n])"
  using assms by (auto simp: fresh_keys_def inj_eq)

lemma fresh_keys_mono: "fresh_keys nid n ks \<Longrightarrow> n \<le> n' \<Longrightarrow> fresh_keys nid n' ks"
  by (auto simp: fresh_keys_def)

lemma fresh_keys_take: "fresh_keys nid n ks \<Longrightarrow> fresh_keys nid n (take i ks)"
  by (auto simp: fresh_keys_def dest: in_set_takeD)

lemma fresh_keys_filter: "fresh_keys nid n (map f xs) \<Longrightarrow> fresh_keys nid n (map f (filter P xs))"
  by (auto simp: fresh_keys_def distinct_map_filter)

lemma keys_edit: "map msg_key (map (\<lambda>m. if msg_key m = k then editContent t m else m) ms) = map msg_key ms"
  by (simp add: editContent_def)

lemmas keys_updates = stream_upd.keys_updateLast complete_upd.keys_updateLast
  stop_upd.keys_updateLast reply_upd.keys_updateLast error_upd.keys_updateLast

lemma onMessage_keys [simp]:
  "map msg_key (pg_messages (onMessage src d s)) = map msg_key (pg_messages s)"
  "pg_ids (onMessage src d s) = pg_ids s"
  by (auto simp: onMessage_def Let_def handler_defs keys_updates split: option.split)

lemma handleError_keys [simp]:
  "map msg_key (pg_messages (handleError src e c s)) = map msg_key (pg_messages s)"
  "pg_ids (handleError src e c s) = pg_ids s"
  by (auto simp: handler_defs keys_updates)

lemma sendChat_keys [simp]:
  "map msg_key (pg_messages (sendChat ms started s)) = map msg_key (pg_messages s)"
  by (simp add: keys_updates)

lemma onChatResult_keys [simp]:
  "map msg_key (pg_messages (onChatResult r s)) = map msg_key (pg_messages s)"
  "pg_ids (onChatResult r s) = pg_ids s"
  by (auto simp: onChatResult_def Let_def handleStreamError_def updateAssistantMessageWithError_def
      keys_updates split: chat_result.split option.split list.split)

lemma keys_send:
  assumes "inj nid" and "fresh_keys nid (pg_ids s) (map msg_key (pg_messages s))"
  shows "fresh_keys nid (pg_ids (handleSendMessage nid text started s))
     (map msg_key (pg_messages (handleSendMessage nid text started s)))"
proof -
  have "fresh_keys nid (Suc (Suc (Suc (Suc (pg_ids s)))))
      ((map msg_key (pg_messages s) @ [nid (pg_ids s)]) @ [nid (Suc (Suc (pg_ids s)))])"
    by (intro fresh_keys_snoc assms)
  then show ?thesis
    by (simp add: handleSendMessage_def newUserMessage_def newLoadingMessage_def Let_def
        createUserMessage_def createLoadingAssistantMessage_def del: sendChat_fields(1))
qed

lemma keys_applyEdit:
  assumes "inj nid" and "fresh_keys nid (pg_ids s) (map msg_key (pg_messages s))"
  shows "fresh_keys nid (pg_ids (applyEdit nid text submit started s))
     (map msg_key (pg_messages (applyEdit nid text submit started s)))"
  using assms fresh_keys_snoc [OF assms(1) fresh_keys_take [OF assms(2)]]
  by (auto simp: applyEdit_def newLoadingMessage_def Let_def take_map [symmetric] keys_edit
      createLoadingAssistantMessage_def simp del: sendChat_fields(1) map_map
      split: option.split)

lemma keys_regenerate:
  assumes "inj nid" and "fresh_keys nid (pg_ids s) (map msg_key (pg_messages s))"
  shows "fresh_keys nid (pg_ids (handleRegenerateMessage nid key started s))
     (map msg_key (pg_messages (handleRegenerateMessage nid key started s)))"
  using assms fresh_keys_snoc [OF assms(1) fresh_keys_take [OF assms(2)]]
  by (auto simp: handleRegenerateMessage_def newLoadingMessage_def Let_def take_map [symmetric]
      createLoadingAssistantMessage_def simp del: sendChat_fields(1) split: option.split)

lemma keys_handle:
  assumes "inj nid" and "fresh_keys nid (pg_ids s) (map msg_key (pg_messages s))"
  shows "fresh_keys nid (pg_ids (handle nid e s)) (map msg_key (pg_messages (handle nid e s)))"
proof (cases e)
  case (Delete key)
  then show ?thesis
    using fresh_keys_filter [OF assms(2)] assms(2) by (simp add: guardAction_def handleDeleteMessage_def)
next
  case Stop
  then show ?thesis
    using assms by (simp add: stopGeneration_def stopStream_def keys_updates split: option.split)
next
  case (SseError src d r)
  then show ?thesis using assms by (simp add: onError_def split: prod.split)
next
  case (SseReady src r st)
  then show ?thesis using assms by (simp add: onReadyStateChange_def split: option.split)
qed (use assms keys_send [OF assms] keys_applyEdit [OF assms] keys_regenerate [OF assms] in
      \<open>simp_all add: handleSubmit_def handleSuggestionClick_def guardAction_def handleEditMessage_def
        handleEditOpenChange_def\<close>)

section \<open>Stored values are well formed\<close>

lemma json_ok_prop: "json_ok v \<Longrightarrow> json_prop v k = Some x \<Longrightarrow> json_ok x"
proof (cases v)
  case (JObj ps)
  assume "json_ok v" "json_prop v k = Some x"
  moreover have "obj_get ps k = Some x \<Longrightarrow> (k, x) \<in> set ps"
    by (induction ps k rule: obj_get.induct) (auto split: if_splits)
  ultimately show ?thesis using JObj by (auto simp: list_all_iff)
qed (auto simp: list_all_length str_ok_def split: option.splits if_splits)

lemma field_ok: "json_ok v \<Longrightarrow> field v k f = Some x \<Longrightarrow> \<exists>y. json_ok y \<and> f y = Some x"
  using json_ok_prop [of v "js k"]
  by (auto simp: field_def bind_eq_Some_conv simp del: json_ok.simps split: json.splits)

lemma opt_field_ok: "json_ok v \<Longrightarrow> opt_field v k f = Some (Some x) \<Longrightarrow> \<exists>y. json_ok y \<and> f y = Some x"
  using json_ok_prop [of v "js k"] by (auto simp: opt_field_def split: option.splits)

lemma field_or_ok: "json_ok v \<Longrightarrow> field_or v k f d = Some x \<Longrightarrow> x = d \<or> (\<exists>y. json_ok y \<and> f y = Some x)"
  using json_ok_prop [of v "js k"] by (auto simp: field_or_def split: option.splits)

lemma as_ok:
  "json_ok y \<Longrightarrow> as_str y = Some s \<Longrightarrow> str_ok s"
  "json_ok y \<Longrightarrow> as_num y = Some n \<Longrightarrow> num_ok n"
  "json_ok y \<Longrightarrow> as_nullable as_num y = Some (Some n) \<Longrightarrow> num_ok n"
  by (auto simp: as_str_def as_num_def as_nullable_def split: json.splits if_splits)

lemma as_list_ok:
  assumes "json_ok y" "as_list f y = Some xs" "\<And>v x. json_ok v \<Longrightarrow> f v = Some x \<Longrightarrow> P x"
  shows "list_all P xs"
proof -
  have *: "those (map f vs) = Some xs \<Longrightarrow> list_all json_ok vs \<Longrightarrow> list_all P xs" for vs
    by (induction vs arbitrary: xs) (auto simp: assms(3) split: option.splits)
  show ?thesis using assms(1,2) * by (auto simp: as_list_def split: json.splits)
qed

lemma bind_SomeE:
  assumes "x \<bind> f = Some y"
  obtains z where "x = Some z" and "f z = Some y"
  using assms by (cases x) auto

lemma field_typed:
  "json_ok v \<Longrightarrow> field v k as_str = Some s \<Longrightarrow> str_ok s"
  "json_ok v \<Longrightarrow> field v k as_num = Some n \<Longrightarrow> num_ok n"
  by (drule (1) field_ok, elim exE conjE, erule (1) as_ok)+

lemma version_of_json_ok: "json_ok v \<Longrightarrow> version_of_json v = Some x \<Longrightarrow> version_ok x"
  unfolding version_of_json_def by (elim bind_SomeE) (auto simp: version_ok_def field_typed)

lemma source_of_json_ok: "json_ok v \<Longrightarrow> source_of_json v = Some x \<Longrightarrow> source_ok x"
  unfolding source_of_json_def by (elim bind_SomeE) (auto simp: source_ok_def field_typed)

lemma reasoning_of_json_ok: "json_ok v \<Longrightarrow> reasoning_of_json v = Some x \<Longrightarrow> reasoning_ok x"
  unfolding reasoning_of_json_def by (elim bind_SomeE) (auto simp: reasoning_ok_def field_typed)

lemma message_parts_ok:
  assumes "json_ok v"
  shows "field v k (as_list version_of_json) = Some vs \<Longrightarrow> list_all version_ok vs"
    and "opt_field v k (as_list source_of_json) = Some ss \<Longrightarrow>
      list_all source_ok (case ss of None \<Rightarrow> [] | Some ss \<Rightarrow> ss)"
    and "opt_field v k reasoning_of_json = Some r \<Longrightarrow>
      (case r of None \<Rightarrow> True | Some r \<Rightarrow> reasoning_ok r)"
    and "opt_field v k Some = Some e \<Longrightarrow> (case e of None \<Rightarrow> True | Some e \<Rightarrow> json_ok e)"
proof -
  show "field v k (as_list version_of_json) = Some vs \<Longrightarrow> list_all version_ok vs"
    using field_ok [OF assms, of k "as_list version_of_json" vs] as_list_ok [of _ version_of_json vs version_ok]
      version_of_json_ok by blast
  show "opt_field v k (as_list source_of_json) = Some ss \<Longrightarrow>
      list_all source_ok (case ss of None \<Rightarrow> [] | Some ss \<Rightarrow> ss)"
    using opt_field_ok [OF assms, of k "as_list source_of_json"] as_list_ok [of _ source_of_json]
      source_of_json_ok by (cases ss) (simp, fastforce)
  show "opt_field v k reasoning_of_json = Some r \<Longrightarrow>
      (case r of None \<Rightarrow> True | Some r \<Rightarrow> reasoning_ok r)"
    using opt_field_ok [OF assms, of k reasoning_of_json] reasoning_of_json_ok
    by (cases r) (simp, fastforce)
  show "opt_field v k Some = Some e \<Longrightarrow> (case e of None \<Rightarrow> True | Some e \<Rightarrow> json_ok e)"
    using opt_field_ok [OF assms, of k Some] by (cases e) (simp, fastforce)
qed

lemma message_of_json_ok: "json_ok v \<Longrightarrow> message_of_json v = Some m \<Longrightarrow> message_ok m"
  unfolding message_of_json_def
  by (elim bind_SomeE)
     (auto simp: message_ok_def field_typed message_parts_ok)

lemma DEFAULT_CONFIG_ok: "config_ok DEFAULT_CONFIG"
  by (simp add: config_ok_def DEFAULT_CONFIG_def) (simp add: num_ok_def)

lemma field_or_typed:
  assumes "json_ok v"
  shows "field_or v k as_str x = Some y \<Longrightarrow> str_ok x \<Longrightarrow> str_ok y"
    and "field_or v k as_num a = Some b \<Longrightarrow> num_ok a \<Longrightarrow> num_ok b"
    and "field_or v k (as_nullable as_num) None = Some n \<Longrightarrow> (case n of None \<Rightarrow> True | Some x \<Rightarrow> num_ok x)"
proof -
  show "field_or v k as_str x = Some y \<Longrightarrow> str_ok x \<Longrightarrow> str_ok y"
    using field_or_ok [OF assms, of k as_str x y] as_ok(1) by blast
  show "field_or v k as_num a = Some b \<Longrightarrow> num_ok a \<Longrightarrow> num_ok b"
    using field_or_ok [OF assms, of k as_num a b] as_ok(2) by blast
  show "field_or v k (as_nullable as_num) None = Some n \<Longrightarrow> (case n of None \<Rightarrow> True | Some x \<Rightarrow> num_ok x)"
    using field_or_ok [OF assms, of k "as_nullable as_num" None n] as_ok(3)
    by (cases n) (simp, fastforce)
qed

lemma merge_config_ok:
  assumes "json_ok v" "merge_config v = Some c"
  shows "config_ok c"
proof -
  have d: "str_ok (cfg_model DEFAULT_CONFIG)" "str_ok (cfg_group DEFAULT_CONFIG)"
    "num_ok (cfg_temperature DEFAULT_CONFIG)" "num_ok (cfg_top_p DEFAULT_CONFIG)"
    "num_ok (cfg_max_tokens DEFAULT_CONFIG)" "num_ok (cfg_frequency_penalty DEFAULT_CONFIG)"
    "num_ok (cfg_presence_penalty DEFAULT_CONFIG)" "cfg_seed DEFAULT_CONFIG = None"
    using DEFAULT_CONFIG_ok by (simp_all add: config_ok_def DEFAULT_CONFIG_def)
  from assms(2) show ?thesis
    unfolding merge_config_def d(8)
    by (elim bind_SomeE) (auto simp: config_ok_def intro: field_or_typed [OF assms(1)] d)
qed

section \<open>The storage mirrors the state\<close>

text \<open>What a reload of the page shows.\<close>

definition reload :: "local_storage \<Rightarrow> message list option" where
  "reload st = loadedMessages (snd (loadMessages st))"

definition storage_ok :: "local_storage \<Rightarrow> bool" where
  "storage_ok st \<longleftrightarrow> ls_quota st = None \<and> (\<forall>(k, v)\<in>set (ls_items st). str_ok v)"

definition mirrored :: "playground \<Rightarrow> bool" where
  "mirrored s \<longleftrightarrow>
     ls_quota (pg_storage s) = None \<and> list_all message_ok (pg_messages s) \<and> config_ok (pg_config s) \<and>
     opt_ok (list_all (\<lambda>m. str_ok (mo_value m))) (pg_modelsData s) \<and>
     opt_ok (list_all (\<lambda>g. str_ok (go_value g))) (pg_groupsData s) \<and>
     reload (pg_storage s) = Some (sanitizeMessagesOnLoad (pg_messages s)) \<and>
     merge_config (loadConfig (pg_storage s)) = Some (pg_config s)"

lemma setItem_unlimited:
  "ls_quota st = None \<Longrightarrow> setItem st k v = Some (st\<lparr>ls_items := obj_set (ls_items st) k v\<rparr>)"
  by (simp add: setItem_def Let_def)

lemma trySet_unlimited:
  assumes "ls_quota st = None"
  shows "getItem (trySet st k v) k' = (if k' = k then Some v else getItem st k')"
    and "ls_quota (trySet st k v) = None"
  using browser_store.get_put [OF setItem_unlimited [OF assms], of k v k'] assms
  by (simp_all add: trySet_def setItem_unlimited)

lemma keys_differ [simp]: "MESSAGES_KEY \<noteq> CONFIG_KEY" "CONFIG_KEY \<noteq> MESSAGES_KEY"
  by (simp_all add: MESSAGES_KEY_def CONFIG_KEY_def)

lemma reload_cong: "getItem st MESSAGES_KEY = getItem st' MESSAGES_KEY \<Longrightarrow> reload st = reload st'"
  by (auto simp: reload_def loadMessages_def Let_def split: option.split json.split)

lemma loadConfig_cong: "getItem st CONFIG_KEY = getItem st' CONFIG_KEY \<Longrightarrow> loadConfig st = loadConfig st'"
  by (simp add: loadConfig_def)

lemma reload_saveMessages:
  assumes "ls_quota st = None" and "list_all message_ok ms"
  shows "reload (saveMessages st ms) = Some (sanitizeMessagesOnLoad ms)"
    and "loadConfig (saveMessages st ms) = loadConfig st"
    and "ls_quota (saveMessages st ms) = None"
proof -
  have "getItem (saveMessages st ms) MESSAGES_KEY = Some (json_stringify (JArr (map message_to_json ms)))"
    using trySet_unlimited(1) [OF assms(1)] by (simp add: saveMessages_def)
  from loadMessages_stored [OF assms(2) this] show "reload (saveMessages st ms) = Some (sanitizeMessagesOnLoad ms)"
    by (simp add: reload_def loadedMessages_def)
  show "loadConfig (saveMessages st ms) = loadConfig st"
    by (rule loadConfig_cong) (simp add: saveMessages_def trySet_unlimited assms)
  show "ls_quota (saveMessages st ms) = None"
    by (simp add: saveMessages_def trySet_unlimited assms)
qed

lemma reload_saveConfig:
  assumes "ls_quota st = None" and "config_ok c"
  shows "reload (saveConfig st c) = reload st"
    and "merge_config (loadConfig (saveConfig st c)) = Some c"
    and "ls_quota (saveConfig st c) = None"
proof -
  show "reload (saveConfig st c) = reload st"
    by (rule reload_cong) (simp add: saveConfig_def trySet_unlimited assms)
  show "merge_config (loadConfig (saveConfig st c)) = Some c"
    using json_parse_stringify [OF config_json_ok [OF assms(2)]] std_json.stringify_ne
    by (simp add: loadConfig_def saveConfig_def trySet_unlimited assms)
  show "ls_quota (saveConfig st c) = None"
    by (simp add: saveConfig_def trySet_unlimited assms)
qed

lemma mirrored_updateMessages:
  "mirrored s \<Longrightarrow> list_all message_ok (f (pg_messages s)) \<Longrightarrow> mirrored (updateMessages f s)"
  by (simp add: mirrored_def reload_saveMessages)

lemma mirrored_updateConfig:
  "mirrored s \<Longrightarrow> config_ok (set_entry x (pg_config s)) \<Longrightarrow> mirrored (updateConfig x s)"
  by (simp add: mirrored_def reload_saveConfig)

lemma mirrored_fields [simp]:
  "mirrored (s\<lparr>pg_source := a\<rparr>) = mirrored s" "mirrored (s\<lparr>pg_live := b\<rparr>) = mirrored s"
  "mirrored (s\<lparr>pg_complete := c\<rparr>) = mirrored s" "mirrored (s\<lparr>pg_pending := d\<rparr>) = mirrored s"
  "mirrored (s\<lparr>pg_sent := e\<rparr>) = mirrored s" "mirrored (s\<lparr>pg_sources := n\<rparr>) = mirrored s"
  "mirrored (s\<lparr>pg_ids := n\<rparr>) = mirrored s" "mirrored (s\<lparr>pg_editing := k\<rparr>) = mirrored s"
  "mirrored (s\<lparr>pg_models := ms\<rparr>) = mirrored s" "mirrored (s\<lparr>pg_groups := gs\<rparr>) = mirrored s"
  "mirrored (toast t s) = mirrored s" "mirrored (closeSource src s) = mirrored s"
  by (simp_all add: mirrored_def toast_def closeSource_def)

lemma mirrored_ok: "mirrored s \<Longrightarrow> list_all message_ok (pg_messages s)"
  by (simp add: mirrored_def)

section \<open>Every handler keeps the mirror\<close>

lemma mirrored_error:
  assumes "mirrored s" and "str_ok e" and "opt_ok json_ok c"
  shows "mirrored (handleStreamError e c s)" and "mirrored (handleError src e c s)"
proof -
  have "list_all message_ok (updateLastAssistantMessage (pg_messages s) (errorUpdater e c))"
    using assms by (intro error_upd.ok_updateLast mirrored_ok errorUpdater_ok) (auto simp: opt_ok_def)
  with assms(1) show m: "mirrored (handleStreamError e c s)"
    by (simp add: handleStreamError_def updateAssistantMessageWithError_def mirrored_updateMessages)
  with assms(1) show "mirrored (handleError src e c s)" by (simp add: handleError_def)
qed

lemma str_ok_constants [simp]:
  "str_ok PARSE_ERROR" "str_ok STREAM_START_ERROR" "str_ok API_REQUEST_ERROR" "str_ok CONNECTION_CLOSED"
  by (simp_all add: PARSE_ERROR_def STREAM_START_ERROR_def API_REQUEST_ERROR_def CONNECTION_CLOSED_def)

lemma opt_prop_ok: "opt_ok json_ok v \<Longrightarrow> opt_ok json_ok (opt_prop v k)"
  by (auto simp: opt_ok_def opt_prop_def dest: json_ok_prop split: option.splits)

lemma truthy_opt_Some: "truthy_opt v \<Longrightarrow> opt_ok json_ok v \<Longrightarrow> json_ok (the v)"
  by (auto simp: truthy_opt_def opt_ok_def split: option.splits)

lemma chunkDelta_ok: "str_ok d \<Longrightarrow> chunkDelta d = Some v \<Longrightarrow> opt_ok json_ok v"
proof -
  assume d: "str_ok d" and v: "chunkDelta d = Some v"
  then obtain c where c: "json_parse d = Some c"
    "v = opt_prop (opt_prop (json_prop c (js ''choices'')) (js ''0'')) (js ''delta'')"
    by (auto simp: chunkDelta_def split: option.splits json.splits)
  have "opt_ok json_ok (json_prop c (js ''choices''))"
    using opt_prop_ok [of "Some c" "js ''choices''"] json_parse_ok [OF c(1) d]
    by (simp add: opt_ok_def opt_prop_def)
  then show ?thesis unfolding c(2) by (intro opt_prop_ok)
qed

lemma mirrored_stream: "mirrored s \<Longrightarrow> str_ok c \<Longrightarrow> mirrored (handleStreamUpdate k c s)"
  unfolding handleStreamUpdate_def
  by (intro mirrored_updateMessages stream_upd.ok_updateLast mirrored_ok updater_ok)

lemma mirrored_onMessage:
  assumes "mirrored s" and "str_ok d"
  shows "mirrored (onMessage src d s)"
proof -
  have ok: "str_ok (json_to_string (the (opt_prop v k)))"
    if "chunkDelta d = Some v" "truthy_opt (opt_prop v k)" for v k
    using that by (intro json_to_string_ok truthy_opt_Some opt_prop_ok chunkDelta_ok [OF assms(2)])
  show ?thesis
    using assms
    by (auto simp: onMessage_def Let_def handleStreamComplete_def opt_ok_def [of _ None] ok
        intro!: mirrored_updateMessages complete_upd.ok_updateLast updater_ok mirrored_error
          mirrored_stream mirrored_ok
        split: option.split)
qed

lemma errorDetails_ok:
  assumes "opt_ok str_ok d"
  shows "str_ok (fst (errorDetails d))" and "opt_ok json_ok (snd (errorDetails d))"
proof -
  have d: "str_ok (opt_str d)" using assms by (auto simp: opt_ok_def opt_str_def split: option.splits)
  have e: "opt_ok json_ok (json_prop v (js ''error''))" if "json_parse (opt_str d) = Some v" for v
    using opt_prop_ok [of "Some v" "js ''error''"] json_parse_ok [OF that d]
    by (simp add: opt_ok_def opt_prop_def)
  show "str_ok (fst (errorDetails d))"
    using d opt_prop_ok [OF e] by (auto simp: errorDetails_def Let_def str_or_def json_to_string_ok
        truthy_opt_Some split: option.splits)
  show "opt_ok json_ok (snd (errorDetails d))"
    using opt_prop_ok [OF e] by (auto simp: errorDetails_def Let_def opt_ok_def [of _ None] split: option.splits)
qed

lemma mirrored_sendChat: "mirrored s \<Longrightarrow> mirrored (sendChat ms started s)"
  by (simp add: send_defs Let_def mirrored_error opt_ok_def)

lemma mirrored_onChatResult: "mirrored s \<Longrightarrow> result_ok r \<Longrightarrow> mirrored (onChatResult r s)"
  by (cases r)
     (auto simp: onChatResult_def Let_def opt_ok_def str_or_def opt_str_def truthy_opt_def
        intro!: mirrored_updateMessages reply_upd.ok_updateLast updater_ok mirrored_error mirrored_ok
        split: option.splits list.splits)

lemma mirrored_handleSend:
  "mirrored s \<Longrightarrow> str_ok t \<Longrightarrow> (\<And>n. str_ok (nid n)) \<Longrightarrow> mirrored (handleSendMessage nid t started s)"
  by (auto simp: handleSendMessage_def newUserMessage_def newLoadingMessage_def Let_def create_ok
      dest: mirrored_ok intro!: mirrored_sendChat mirrored_updateMessages)

lemma list_all_take: "list_all P xs \<Longrightarrow> list_all P (take n xs)"
  by (auto simp: list_all_iff dest: in_set_takeD)

lemma mirrored_regenerate:
  "mirrored s \<Longrightarrow> (\<And>n. str_ok (nid n)) \<Longrightarrow> mirrored (handleRegenerateMessage nid k started s)"
  by (auto simp: handleRegenerateMessage_def newLoadingMessage_def Let_def create_ok
      intro!: mirrored_sendChat mirrored_updateMessages list_all_take mirrored_ok
      split: option.split)

lemma list_all_ok_edit:
  "list_all message_ok ms \<Longrightarrow> str_ok t \<Longrightarrow>
   list_all message_ok (map (\<lambda>m. if msg_key m = k then editContent t m else m) ms)"
  by (auto simp: list_all_iff updater_ok)

lemma mirrored_applyEdit:
  assumes "mirrored s" and "str_ok t" and "\<And>n. str_ok (nid n)"
  shows "mirrored (applyEdit nid t submit started s)"
proof -
  let ?u = "\<lambda>k. map (\<lambda>m. if msg_key m = k then editContent t m else m) (pg_messages s)"
  have u: "list_all message_ok (?u k)" "list_all message_ok (take n (?u k))" for k n
    by (intro list_all_take list_all_ok_edit mirrored_ok assms)+
  show ?thesis
    using assms(1,3) u
    by (auto simp: applyEdit_def newLoadingMessage_def Let_def create_ok simp del: take_map
        intro!: mirrored_sendChat mirrored_updateMessages split: option.split)
qed

lemma mirrored_handle:
  assumes "mirrored s" and "admissible s e" and nid: "\<And>n. str_ok (nid n)"
  shows "mirrored (handle nid e s)"
proof (cases e)
  case (Delete k)
  have "list_all message_ok (filter (\<lambda>m. msg_key m \<noteq> k) (pg_messages s))"
    using mirrored_ok [OF assms(1)] by (auto simp: list_all_iff)
  with Delete assms show ?thesis
    by (simp add: guardAction_def handleDeleteMessage_def mirrored_updateMessages)
next
  case Stop
  then show ?thesis
    using assms by (auto simp: stopGeneration_def stopStream_def intro!: mirrored_updateMessages
        stop_upd.ok_updateLast updater_ok mirrored_ok split: option.split)
next
  case (ModelChange v)
  then show ?thesis using assms mirrored_updateConfig [of s "CModel v"]
    by (auto simp: mirrored_def config_ok_def set_entry_def)
next
  case (GroupChange v)
  then show ?thesis using assms mirrored_updateConfig [of s "CGroup v"]
    by (auto simp: mirrored_def config_ok_def set_entry_def)
next
  case (SseError src d r)
  then show ?thesis using assms errorDetails_ok [of d]
    by (auto simp: onError_def intro!: mirrored_error split: prod.split)
next
  case (SseReady src r st)
  then show ?thesis using assms
    by (auto simp: onReadyStateChange_def opt_ok_def intro!: mirrored_error split: option.split)
qed (use assms mirrored_handleSend mirrored_applyEdit mirrored_regenerate mirrored_onMessage
       mirrored_onChatResult in
     \<open>auto simp: handleSubmit_def handleSuggestionClick_def guardAction_def handleEditMessage_def
        handleEditOpenChange_def mirrored_def opt_ok_def\<close>)

lemma mirrored_modelsEffect: "mirrored s \<Longrightarrow> mirrored (modelsEffect s)"
proof (cases "pg_modelsData s")
  case (Some models)
  assume m: "mirrored s"
  then show ?thesis
    using Some by (cases models)
      (auto simp: modelsEffect_def Let_def intro!: mirrored_updateConfig,
       auto simp: mirrored_def config_ok_def set_entry_def opt_ok_def)
qed (simp add: modelsEffect_def)

lemma mirrored_groupsEffect: "mirrored s \<Longrightarrow> mirrored (groupsEffect s)"
proof (cases "pg_groupsData s")
  case (Some groups)
  assume m: "mirrored s"
  then have ok: "list_all (\<lambda>g. str_ok (go_value g)) groups" using Some by (simp add: mirrored_def opt_ok_def)
  have d: "find (\<lambda>g. go_value g = js ''default'') groups = Some d \<Longrightarrow> str_ok (go_value d)" for d
    using ok by (auto simp: find_Some_iff list_all_length)
  show ?thesis
    using Some m ok d by (cases groups)
      (auto simp: groupsEffect_def Let_def intro!: mirrored_updateConfig,
       auto simp: mirrored_def config_ok_def set_entry_def split: option.splits)
qed (simp add: groupsEffect_def)

lemma mirrored_effects: "mirrored s \<Longrightarrow> mirrored (effects s)"
  by (simp add: effects_def mirrored_modelsEffect mirrored_groupsEffect)

lemma getItem_ok: "storage_ok st \<Longrightarrow> getItem st k = Some v \<Longrightarrow> str_ok v"
proof -
  have "obj_get ps k = Some v \<Longrightarrow> (k, v) \<in> set ps" for ps
    by (induction ps k rule: obj_get.induct) (auto split: if_splits)
  then show "storage_ok st \<Longrightarrow> getItem st k = Some v \<Longrightarrow> str_ok v"
    by (fastforce simp: storage_ok_def getItem_def)
qed

lemma loadConfig_ok: "storage_ok st \<Longrightarrow> json_ok (loadConfig st)"
  using getItem_ok [of st CONFIG_KEY] json_parse_ok
  by (auto simp: loadConfig_def split: option.splits)

lemma those_ok: "those (map f vs) = Some xs \<Longrightarrow> list_all json_ok vs \<Longrightarrow>
   (\<And>v x. json_ok v \<Longrightarrow> f v = Some x \<Longrightarrow> P x) \<Longrightarrow> list_all P xs"
  using as_list_ok [of "JArr vs" f xs P] by (simp add: as_list_def)

lemma loadMessages_cases [consumes 1, case_names null ill loaded]:
  assumes "storage_ok st"
  obtains (null) "snd (loadMessages st) = LoadedNull" "fst (loadMessages st) = st"
    | (ill) v where "snd (loadMessages st) = IllTyped v"
    | (loaded) ms where "list_all message_ok ms" "snd (loadMessages st) = Loaded (sanitizeMessagesOnLoad ms)"
        "fst (loadMessages st) =
           (if filter is_stuck ms = [] then st else saveMessages st (sanitizeMessagesOnLoad ms))"
proof (cases "getItem st MESSAGES_KEY")
  case None
  then show ?thesis by (intro null) (simp_all add: loadMessages_def)
next
  case (Some t)
  note t = this
  show ?thesis
  proof (cases "\<exists>xs. t \<noteq> [] \<and> json_parse t = Some (JArr xs)")
    case False
    with t show ?thesis
      by (intro null) (auto simp: loadMessages_def split: option.split json.split)
  next
    case True
    then obtain xs where xs: "t \<noteq> []" "json_parse t = Some (JArr xs)" by blast
    have ok: "list_all json_ok xs"
      using json_parse_ok [OF xs(2) getItem_ok [OF assms t]] by simp
    show ?thesis
    proof (cases "those (map message_of_json xs)")
      case None
      with t xs show ?thesis by (intro ill) (simp add: loadMessages_def)
    next
      case (Some ms)
      have "list_all message_ok ms" by (rule those_ok [OF Some ok message_of_json_ok])
      with Some t xs show ?thesis
        using findStuck_None_iff [of "length ms" ms] by (intro loaded [of ms]) (auto simp: loadMessages_def Let_def)
    qed
  qed
qed

lemma sanitize_no_stuck: "filter is_stuck ms = [] \<Longrightarrow> sanitizeMessagesOnLoad ms = ms"
  using sanitize_cases [of ms] by auto

lemma usePlaygroundState_fields:
  assumes "usePlaygroundState st ids = Some s"
  shows "merge_config (loadConfig st) = Some (pg_config s)" and "reload st = Some (pg_messages s)"
    and "pg_storage s = fst (loadMessages st)" and "pg_modelsData s = None" and "pg_groupsData s = None"
    and "pg_source s = None" and "pg_live s = []" and "pg_pending s = 0" and "pg_ids s = ids"
  using assms unfolding usePlaygroundState_def reload_def by (auto elim!: bind_SomeE)

lemma mirrored_mount:
  assumes "storage_ok st" and "usePlaygroundState st ids = Some s"
  shows "mirrored s"
proof -
  note f = usePlaygroundState_fields [OF assms(2)]
  have q: "ls_quota st = None" using assms(1) by (simp add: storage_ok_def)
  have c: "config_ok (pg_config s)" by (rule merge_config_ok [OF loadConfig_ok [OF assms(1)] f(1)])
  from assms(1) show ?thesis
  proof (cases rule: loadMessages_cases)
    case null
    then show ?thesis
      using f q c by (simp add: mirrored_def opt_ok_def reload_def loadedMessages_def sanitize_no_stuck)
  next
    case (ill v)
    then show ?thesis using f(2) by (simp add: reload_def loadedMessages_def)
  next
    case (loaded ms)
    have m: "pg_messages s = sanitizeMessagesOnLoad ms"
      using f(2) loaded by (simp add: reload_def loadedMessages_def)
    have ok: "list_all message_ok (sanitizeMessagesOnLoad ms)"
      by (rule sanitizeMessagesOnLoad_ok [OF loaded(1)])
    show ?thesis
    proof (cases "filter is_stuck ms = []")
      case True
      with f q c m ok loaded show ?thesis
        by (simp add: mirrored_def opt_ok_def sanitize_no_stuck)
    next
      case False
      with f q c m ok loaded show ?thesis
        by (simp add: mirrored_def opt_ok_def reload_saveMessages)
    qed
  qed
qed

lemma reaches_mirrored:
  assumes "reaches admissible nid st ids s" and "storage_ok st" and "\<And>n. str_ok (nid n)"
  shows "mirrored s"
  using assms(1)
proof (induction rule: reaches_invariant)
  case (mount s)
  then show ?case by (rule mirrored_mount [OF assms(2)])
next
  case (handle s e)
  then show ?case using assms(3) by (intro mirrored_handle)
next
  case (effects s)
  then show ?case by (rule mirrored_effects)
qed

lemma reaches_mono: "reaches p nid st ids s \<Longrightarrow> (\<And>s e. p s e \<Longrightarrow> q s e) \<Longrightarrow> reaches q nid st ids s"
  by (induction rule: reaches.induct) (auto intro: reaches.intros)

section \<open>At most the last message is in progress\<close>

locale settling_updater = message_updater upd for upd :: "message \<Rightarrow> message" +
  assumes settles: "\<not> is_stuck (upd m)"
begin

lemma settled_updateLast:
  "filter is_stuck (butlast ms) = [] \<Longrightarrow> filter is_stuck (updateLastAssistantMessage ms upd) = []"
  by (cases ms rule: rev_cases) (auto simp: updateLast_snoc settles, auto simp: is_stuck_def)

end

interpretation complete_settles: settling_updater completeUpdater
  by unfold_locales (auto simp: completeUpdater_def is_stuck_def)

interpretation stop_settles: settling_updater stopUpdater
  by unfold_locales (auto simp: stopUpdater_def is_stuck_def)

interpretation reply_settles: settling_updater "replyUpdater choice" for choice
  by unfold_locales (auto simp: replyUpdater_def is_stuck_def)

interpretation error_settles: settling_updater "errorUpdater e c" for e c
  by unfold_locales (auto simp: is_stuck_def)

lemma butlast_updateLast [simp]: "butlast (updateLastAssistantMessage ms f) = butlast ms"
  by (cases ms rule: rev_cases) (simp_all add: updateLast_snoc)

lemma no_stuck_butlast: "filter is_stuck ms = [] \<Longrightarrow> filter is_stuck (butlast ms) = []"
  by (cases ms rule: rev_cases) (auto split: if_splits)

definition progress :: "playground \<Rightarrow> bool" where
  "progress s \<longleftrightarrow>
     cfg_stream (pg_config s) \<and> pg_pending s = 0 \<and>
     pg_live s = (case pg_source s of None \<Rightarrow> [] | Some src \<Rightarrow> [src]) \<and>
     filter is_stuck (butlast (pg_messages s)) = [] \<and>
     (pg_source s = None \<longrightarrow> filter is_stuck (pg_messages s) = [])"

lemma progress_fields [simp]:
  "progress (toast t s) = progress s" "progress (s\<lparr>pg_ids := n\<rparr>) = progress s"
  "progress (s\<lparr>pg_editing := k\<rparr>) = progress s" "progress (s\<lparr>pg_modelsData := ms\<rparr>) = progress s"
  "progress (s\<lparr>pg_groupsData := gs\<rparr>) = progress s"
  by (simp_all add: progress_def toast_def)

lemma progress_send:
  assumes "progress s" and "pg_source s = None" and "filter is_stuck (butlast ms) = []"
  shows "progress (sendChat ms' started (updateMessages (\<lambda>_. ms) s))"
  using assms error_settles.settled_updateLast [OF assms(3)]
  by (simp add: progress_def send_defs handler_defs Let_def)

lemma progress_closing:
  assumes "progress s" and "src \<in> set (pg_live s) \<or> pg_source s = None"
    and "filter is_stuck (f (pg_messages s)) = []"
  shows "progress (closeSource src (updateMessages f s))"
    and "progress (updateMessages f (closeSource src s))"
  using assms no_stuck_butlast [OF assms(3)] by (auto simp: progress_def split: option.splits)

lemma progress_error:
  assumes "progress s" and "src \<in> set (pg_live s) \<or> pg_source s = None"
  shows "progress (handleError src e c s)"
proof -
  have "filter is_stuck (updateLastAssistantMessage (pg_messages s) (errorUpdater e c)) = []"
    using assms(1) by (intro error_settles.settled_updateLast) (simp add: progress_def)
  with progress_closing(1) [of "toast e s" src] assms show ?thesis
    by (simp add: handleError_def handleStreamError_def updateAssistantMessageWithError_def)
qed

lemma progress_stream: "progress s \<Longrightarrow> pg_source s \<noteq> None \<Longrightarrow> progress (handleStreamUpdate k c s)"
  by (auto simp: progress_def handleStreamUpdate_def)

lemma handleStreamUpdate_source [simp]: "pg_source (handleStreamUpdate k c s) = pg_source s"
  by (simp add: handleStreamUpdate_def)

lemma progress_onMessage:
  assumes "progress s" and "src \<in> set (pg_live s)"
  shows "progress (onMessage src d s)"
proof -
  have src: "pg_source s \<noteq> None" using assms by (auto simp: progress_def split: option.splits)
  have "filter is_stuck (updateLastAssistantMessage (pg_messages s) completeUpdater) = []"
    using assms(1) by (intro complete_settles.settled_updateLast) (simp add: progress_def)
  with progress_closing(2) [of "s\<lparr>pg_complete := True\<rparr>" src] assms
  have "progress (handleStreamComplete (closeSource src (s\<lparr>pg_complete := True\<rparr>)))"
    by (simp add: handleStreamComplete_def progress_def)
  with assms src show ?thesis
    by (simp add: onMessage_def Let_def progress_error progress_stream split: option.split)
qed

lemma is_stuck_edit [simp]: "is_stuck (editContent t m) = is_stuck m"
  by (simp add: editContent_def is_stuck_def)

lemma filter_stuck_edit [simp]:
  "filter is_stuck (map (\<lambda>m. if msg_key m = k then editContent t m else m) ms) = [] \<longleftrightarrow>
   filter is_stuck ms = []"
  by (induction ms) auto

lemma progress_saveEdit: "progress s \<Longrightarrow> progress (applyEdit nid t False started s)"
  by (auto simp: applyEdit_def Let_def progress_def map_butlast [symmetric] split: option.split)

lemma no_stuck_take: "filter is_stuck ms = [] \<Longrightarrow> filter is_stuck (take n ms) = []"
  by (auto simp: filter_empty_conv dest: in_set_takeD)

lemma progress_submitEdit:
  assumes "progress s" and "pg_source s = None"
  shows "progress (applyEdit nid t True started s)"
proof -
  have "filter is_stuck (pg_messages s) = []" using assms by (simp add: progress_def)
  then have u: "filter is_stuck (take n (map (\<lambda>m. if msg_key m = k then editContent t m else m) (pg_messages s))) = []"
    for n k by (intro no_stuck_take) simp
  show ?thesis
    using assms u progress_saveEdit [OF assms(1), of nid t started]
    by (auto simp: applyEdit_def newLoadingMessage_def Let_def simp del: take_map
        intro!: progress_send split: option.splits if_splits)
qed

lemma progress_handleSend:
  assumes "progress s" and "pg_source s = None"
  shows "progress (handleSendMessage nid t started s)"
proof -
  have "filter is_stuck (butlast (pg_messages s @ [createUserMessage k v t, m])) = []" for k v m
    using assms by (simp add: butlast_append progress_def is_stuck_def createUserMessage_def)
  then show ?thesis
    using assms by (simp add: handleSendMessage_def newUserMessage_def newLoadingMessage_def Let_def
        progress_send)
qed

lemma progress_handle:
  assumes "progress s" and "disciplined s e"
  shows "progress (handle nid e s)"
proof (cases e)
  case (Submit t started)
  then show ?thesis using assms progress_handleSend by (auto simp: handleSubmit_def isGenerating_def)
next
  case (Suggest t started)
  then show ?thesis
    using assms progress_handleSend
    by (auto simp: disciplined_def handleSuggestionClick_def isGenerating_def)
next
  case (Regenerate k started)
  then show ?thesis
    using assms
    by (auto simp: guardAction_def isGenerating_def handleRegenerateMessage_def newLoadingMessage_def
        Let_def intro!: progress_send split: option.split)
       (auto simp: progress_def no_stuck_take)
next
  case (Delete k)
  have "pg_source s = None \<Longrightarrow> filter is_stuck (filter (\<lambda>m. msg_key m \<noteq> k) (pg_messages s)) = []"
    using assms by (auto simp: progress_def filter_empty_conv)
  with Delete assms(1) show ?thesis
    using no_stuck_butlast
    by (auto simp: guardAction_def isGenerating_def handleDeleteMessage_def progress_def)
next
  case Stop
  have "filter is_stuck (updateLastAssistantMessage (pg_messages s) stopUpdater) = []"
    using assms(1) by (intro stop_settles.settled_updateLast) (simp add: progress_def)
  with Stop assms(1) show ?thesis
    by (auto simp: stopGeneration_def stopStream_def progress_def split: option.splits)
next
  case (SseError src d r)
  then show ?thesis
    using assms progress_error [of s src] by (auto simp: onError_def disciplined_def split: prod.split)
next
  case (SseReady src r st)
  then show ?thesis
    using assms progress_error [of s src]
    by (auto simp: onReadyStateChange_def disciplined_def split: option.split)
next
  case (SubmitEdit t started)
  then show ?thesis
    using assms by (auto simp: disciplined_def isGenerating_def intro!: progress_submitEdit)
next
  case (Reply res)
  then show ?thesis using assms by (simp add: disciplined_def progress_def)
qed (use assms progress_onMessage progress_saveEdit in
     \<open>auto simp: guardAction_def handleEditMessage_def handleEditOpenChange_def disciplined_def\<close>,
     auto simp: progress_def set_entry_def)

lemma progress_effects: "progress s \<Longrightarrow> progress (effects s)"
  by (simp add: progress_def)

lemma reaches_progress:
  assumes "reaches disciplined nid st ids s" and "reload st = Some ms" and "filter is_stuck ms = []"
    and "merge_config (loadConfig st) = Some c" and "cfg_stream c"
  shows "progress s"
  using assms(1)
proof (induction rule: reaches_invariant)
  case (mount s)
  note f = usePlaygroundState_fields [OF mount]
  from f assms no_stuck_butlast [OF assms(3)] show ?case by (simp add: progress_def)
next
  case (handle s e)
  then show ?case by (rule progress_handle)
next
  case (effects s)
  then show ?case by (rule progress_effects)
qed

section \<open>Streaming and non-streaming answers\<close>

lemma msg_equality:
  "msg_key m = msg_key n \<Longrightarrow> msg_from m = msg_from n \<Longrightarrow> msg_versions m = msg_versions n \<Longrightarrow>
   msg_sources m = msg_sources n \<Longrightarrow> msg_reasoning m = msg_reasoning n \<Longrightarrow>
   msg_isReasoningStreaming m = msg_isReasoningStreaming n \<Longrightarrow>
   msg_isReasoningComplete m = msg_isReasoningComplete n \<Longrightarrow>
   msg_isContentComplete m = msg_isContentComplete n \<Longrightarrow> msg_status m = msg_status n \<Longrightarrow>
   msg_errorCode m = msg_errorCode n \<Longrightarrow> m = (n :: message)"
  by simp

text \<open>The texts of the deltas of one kind.\<close>

definition deltas :: "delta_kind \<Rightarrow> (delta_kind \<times> js_string) list \<Rightarrow> js_string" where
  "deltas k ds = concat (map snd (filter (\<lambda>d. fst d = k) ds))"

definition streamed :: "(delta_kind \<times> js_string) list \<Rightarrow> message \<Rightarrow> message" where
  "streamed ds m = foldl (\<lambda>m (k, c). streamUpdater k c m) m ds"

lemma streamed_Nil [simp]: "streamed [] m = m"
  by (simp add: streamed_def)

lemma streamed_snoc [simp]: "streamed (ds @ [(k, c)]) m = streamUpdater k c (streamed ds m)"
  by (simp add: streamed_def)

lemma deltas_snoc [simp]: "deltas k (ds @ [(k', c)]) = deltas k ds @ (if k' = k then c else [])"
  by (simp add: deltas_def)

lemma deltas_Nil [simp]: "deltas k [] = []"
  by (simp add: deltas_def)

lemma streamUpdater_frame:
  assumes "msg_status m \<noteq> Some Error"
  shows "ver_content (getCurrentVersion (streamUpdater k c m)) =
      ver_content (getCurrentVersion m) @ (if k = DContent then c else [])"
    and "ver_id (getCurrentVersion (streamUpdater k c m)) = ver_id (getCurrentVersion m)"
    and "msg_sources (streamUpdater k c m) = msg_sources m"
    and "msg_isReasoningComplete (streamUpdater k c m) = msg_isReasoningComplete m"
    and "msg_isContentComplete (streamUpdater k c m) = msg_isContentComplete m"
    and "msg_errorCode (streamUpdater k c m) = msg_errorCode m"
    and "msg_status (streamUpdater k c m) = Some Streaming"
  using assms
  by (cases k; simp add: streamUpdater_def processStreamingContent_def Let_def opt_str_def
      updateCurrentVersionContent_def getCurrentVersion_def)+

lemma streamed_frame:
  assumes "msg_status m \<noteq> Some Error"
  shows "msg_status (streamed ds m) \<noteq> Some Error \<and> (ds \<noteq> [] \<longrightarrow> msg_status (streamed ds m) = Some Streaming) \<and>
    ver_content (getCurrentVersion (streamed ds m)) = ver_content (getCurrentVersion m) @ deltas DContent ds \<and>
    ver_id (getCurrentVersion (streamed ds m)) = ver_id (getCurrentVersion m) \<and>
    msg_key (streamed ds m) = msg_key m \<and> msg_from (streamed ds m) = msg_from m \<and>
    msg_sources (streamed ds m) = msg_sources m \<and>
    msg_isReasoningComplete (streamed ds m) = msg_isReasoningComplete m \<and>
    msg_isContentComplete (streamed ds m) = msg_isContentComplete m \<and>
    msg_errorCode (streamed ds m) = msg_errorCode m"
proof (induction ds rule: rev_induct)
  case Nil
  then show ?case using assms by simp
next
  case (snoc d ds)
  obtain k c where d: "d = (k, c)" by (cases d)
  show ?case
    using snoc.IH streamUpdater_frame [of "streamed ds m" k c]
    by (cases k) (simp_all add: d stream_upd.upd_key stream_upd.upd_from)
qed

lemma reasoning_content_stream:
  assumes "msg_status m \<noteq> Some Error"
    and "\<not> sublist OPEN_TAG (ver_content (getCurrentVersion m) @ (if k = DContent then c else []))"
  shows "reasoning_content (streamUpdater k c m) = reasoning_content m @ (if k = DReasoning then c else [])"
    and "reasoning_duration m = num_of_int 0 \<Longrightarrow> reasoning_duration (streamUpdater k c m) = num_of_int 0"
proof -
  have "reasoning_content (streamUpdater k c m) = reasoning_content m @ (if k = DReasoning then c else []) \<and>
      (reasoning_duration m = num_of_int 0 \<longrightarrow> reasoning_duration (streamUpdater k c m) = num_of_int 0)"
  proof (cases k)
    case DReasoning
    with assms(1) show ?thesis
      by (simp add: streamUpdater_def reasoning_content_def reasoning_duration_def)
  next
    case DContent
    have "(if opt_str (Some c) \<noteq> [] then ver_content (getCurrentVersion m) @ opt_str (Some c)
        else ver_content (getCurrentVersion m)) = ver_content (getCurrentVersion m) @ c"
      by (simp add: opt_str_def)
    moreover have "tr_reasoning (parseThinkTags (ver_content (getCurrentVersion m) @ c)) = []"
      using assms(2) DContent parseThinkTags_no_tag [of "ver_content (getCurrentVersion m) @ c"] by simp
    ultimately have "msg_reasoning (streamUpdater k c m) = msg_reasoning m"
      using assms(1) DContent
      by (simp add: streamUpdater_def processStreamingContent_def Let_def updateCurrentVersionContent_def)
    then show ?thesis
      using DContent by (simp add: reasoning_content_def reasoning_duration_def)
  qed
  then show "reasoning_content (streamUpdater k c m) = reasoning_content m @ (if k = DReasoning then c else [])"
    and "reasoning_duration m = num_of_int 0 \<Longrightarrow> reasoning_duration (streamUpdater k c m) = num_of_int 0"
    by blast+
qed

lemma sublist_extend: "sublist p xs \<Longrightarrow> sublist p (xs @ ys)"
  unfolding sublist_def by (elim exE, hypsubst, unfold append_assoc) blast

lemma streamed_reasoning_plain:
  assumes "msg_status m \<noteq> Some Error" and "ver_content (getCurrentVersion m) = []"
    and "reasoning_content m = []" and "reasoning_duration m = num_of_int 0"
    and "\<not> sublist OPEN_TAG (deltas DContent ds)"
  shows "reasoning_content (streamed ds m) = deltas DReasoning ds \<and>
    reasoning_duration (streamed ds m) = num_of_int 0"
  using assms(5)
proof (induction ds rule: rev_induct)
  case Nil
  then show ?case using assms by simp
next
  case (snoc d ds)
  obtain k c where d: "d = (k, c)" by (cases d)
  have n: "\<not> sublist OPEN_TAG (deltas DContent ds)"
    using snoc.prems by (auto simp: d sublist_extend split: if_splits)
  have "\<not> sublist OPEN_TAG (deltas DContent ds @ (if k = DContent then c else []))"
    using snoc.prems by (simp add: d)
  then show ?case
    using snoc.IH [OF n] streamed_frame [OF assms(1), of ds] assms(2)
      reasoning_content_stream [of "streamed ds m" k c]
    by (simp add: d)
qed

lemma streamed_reasoning_tags:
  assumes "msg_status m \<noteq> Some Error" and "ver_content (getCurrentVersion m) = []"
    and "list_all (\<lambda>d. fst d = DContent) ds" and "tr_reasoning (parseThinkTags (deltas DContent ds)) \<noteq> []"
  shows "msg_reasoning (streamed ds m) =
    Some \<lparr>rsn_content = tr_reasoning (parseThinkTags (deltas DContent ds)), rsn_duration = num_of_int 0\<rparr>"
proof (cases ds rule: rev_cases)
  case Nil
  have "parseThinkTags [] = \<lparr>tr_visibleContent = [], tr_reasoning = [], tr_hasUnclosedTag = False\<rparr>"
    by (rule parseThinkTags_no_tag) (simp add: OPEN_TAG_def)
  with Nil assms(4) show ?thesis by simp
next
  case (snoc ds' d)
  obtain c where d: "d = (DContent, c)" using assms(3) snoc by (cases d) simp
  show ?thesis
    using assms streamed_frame [OF assms(1), of ds']
    by (auto simp: snoc d streamUpdater_def processStreamingContent_def Let_def opt_str_def)
qed

lemma stream_equals_reply:
  fixes ds defines "C \<equiv> deltas DContent ds" and "R \<equiv> deltas DReasoning ds"
  assumes "\<not> sublist OPEN_TAG C \<or> list_all (\<lambda>d. fst d = DContent) ds \<and> tr_reasoning (parseThinkTags C) \<noteq> []"
  shows "completeUpdater (streamed ds (createLoadingAssistantMessage key vid)) =
    replyUpdater \<lparr>cc_content = Some C, cc_reasoning = Some R\<rparr> (createLoadingAssistantMessage key vid)"
proof -
  let ?m = "createLoadingAssistantMessage key vid"
  let ?s = "streamed ds ?m"
  have m: "msg_status ?m \<noteq> Some Error" "msg_status ?m = Some Loading" "ver_content (getCurrentVersion ?m) = []"
    "reasoning_content ?m = []" "reasoning_duration ?m = num_of_int 0" "msg_reasoning ?m = None"
    by (simp_all add: createLoadingAssistantMessage_def getCurrentVersion_def createMessageVersion_def
        reasoning_content_def reasoning_duration_def)
  note f = streamed_frame [OF m(1), of ds]
  have content: "ver_content (getCurrentVersion ?s) = C" using f m(3) by (simp add: C_def)
  have run: "msg_status ?s \<noteq> Some Error \<and> msg_status ?s \<noteq> Some Complete"
    using f m(2) by (cases "ds = []") auto
  have rs: "str_or (reasoning_content ?s) (tr_reasoning (parseThinkTags C)) =
      str_or R (tr_reasoning (parseThinkTags C))" and dur: "reasoning_duration ?s = num_of_int 0"
  proof -
    have "deltas DReasoning ds = []" if "list_all (\<lambda>d. fst d = DContent) ds"
      using that by (auto simp: deltas_def list_all_iff intro!: filter_False)
    then have "str_or (reasoning_content ?s) (tr_reasoning (parseThinkTags C)) =
      str_or R (tr_reasoning (parseThinkTags C)) \<and> reasoning_duration ?s = num_of_int 0"
      using assms(3) streamed_reasoning_plain [OF m(1,3,4,5), of ds]
        streamed_reasoning_tags [OF m(1,3), of ds]
      by (auto simp: C_def R_def str_or_def reasoning_content_def reasoning_duration_def)
    then show "str_or (reasoning_content ?s) (tr_reasoning (parseThinkTags C)) =
      str_or R (tr_reasoning (parseThinkTags C))" and "reasoning_duration ?s = num_of_int 0" by auto
  qed
  have v: "(getCurrentVersion ?s)\<lparr>ver_content := x\<rparr> = (getCurrentVersion ?m)\<lparr>ver_content := x\<rparr>" for x
    using f by simp
  have vm: "getCurrentVersion (?m\<lparr>msg_versions := [(getCurrentVersion ?m)\<lparr>ver_content := C\<rparr>]\<rparr>) =
      (getCurrentVersion ?m)\<lparr>ver_content := C\<rparr>" by (simp add: getCurrentVersion_def)
  have keep: "reasoning_content (?m\<lparr>msg_versions := x\<rparr>) = []"
    "reasoning_duration (?m\<lparr>msg_versions := x\<rparr>) = num_of_int 0" for x
    by (simp_all add: reasoning_content_def reasoning_duration_def m(6))
  have g: "msg_key ?s = msg_key ?m" "msg_from ?s = msg_from ?m" "msg_sources ?s = msg_sources ?m"
    "msg_isReasoningComplete ?s = msg_isReasoningComplete ?m"
    "msg_isContentComplete ?s = msg_isContentComplete ?m" "msg_errorCode ?s = msg_errorCode ?m"
    using f by simp_all
  have "completeUpdater ?s = (finalizeMessage ?s None)\<lparr>msg_status := Some Complete\<rparr>"
    using run by (simp add: completeUpdater_def)
  also have "\<dots> = replyUpdater \<lparr>cc_content = Some C, cc_reasoning = Some R\<rparr> ?m"
    unfolding replyUpdater_def finalizeMessage_def Let_def
    by (rule msg_equality)
      (use g in \<open>simp_all add: content rs dur v vm keep opt_str_def updateCurrentVersionContent_def
        str_or_def [of "[]"]\<close>)
  finally show ?thesis .
qed

lemma foldl_handleStreamUpdate:
  assumes "pg_messages s = h @ [m]" and "msg_from m = Assistant"
  shows "pg_messages (foldl (\<lambda>s (k, c). handleStreamUpdate k c s) s ds) = h @ [streamed ds m]"
proof (induction ds rule: rev_induct)
  case Nil
  then show ?case using assms by simp
next
  case (snoc d ds)
  obtain k c where d: "d = (k, c)" by (cases d)
  have "msg_from (streamed ds m) = Assistant"
    using assms(2) by (induction ds rule: rev_induct) (auto simp: stream_upd.upd_from)
  with snoc show ?case by (simp add: d handleStreamUpdate_def updateLast_snoc)
qed

lemma effects_models:
  assumes "pg_modelsData s = Some models" and "models \<noteq> []"
  shows "list_ex (\<lambda>m. mo_value m = cfg_model (pg_config (effects s))) models"
proof -
  have "list_ex (\<lambda>m. mo_value m = cfg_model (pg_config (modelsEffect s))) models"
    using assms by (cases models) (auto simp: modelsEffect_def Let_def set_entry_def)
  moreover have "cfg_model (pg_config (groupsEffect s')) = cfg_model (pg_config s')" for s'
    by (auto simp: groupsEffect_def Let_def set_entry_def split: option.split list.split)
  ultimately show ?thesis by (simp add: effects_def)
qed

lemma effects_groups:
  assumes "pg_groupsData s = Some groups" and "groups \<noteq> []"
  shows "list_ex (\<lambda>g. go_value g = cfg_group (pg_config (effects s))) groups"
proof -
  have d: "pg_groupsData (modelsEffect s) = Some groups"
    using assms by (auto simp: modelsEffect_def Let_def split: option.split list.split)
  have f: "find (\<lambda>g. go_value g = js ''default'') groups = Some g \<Longrightarrow> g \<in> set groups" for g
    by (auto simp: find_Some_iff)
  show ?thesis
    using assms(2) d f
    by (cases groups) (auto simp: effects_def groupsEffect_def Let_def set_entry_def list_ex_iff
        simp del: find.simps split: option.split)
qed

section \<open>What the unguarded handlers allow\<close>

text \<open>A suggestion clicked during a generation does not close the running source: its next delta lands in
  the new message, and the message it belongs to stays in progress.\<close>

lemma suggestion_takes_over_stream:
  fixes nid t s src d
  defines "s1 \<equiv> handle nid (Suggest t True) s"
  defines "s2 \<equiv> handle nid (SseMessage src d) s1"
  assumes "pg_messages s = h @ [m]" and "is_stuck m" and "src \<in> set (pg_live s)"
    and "cfg_stream (pg_config s)" and "chunkDelta d = Some (Some v)" and "truthy v" and "d \<noteq> js ''[DONE]''"
    and "json_prop v (js ''content'') = Some (JStr c)" and "c \<noteq> []"
    and "\<not> truthy_opt (json_prop v (js ''reasoning_content''))"
  shows "src \<in> set (pg_live s1)" and "m \<in> set (butlast (pg_messages s2))"
    and "ver_content (getCurrentVersion (last (pg_messages s2))) = c"
proof -
  let ?l = "createLoadingAssistantMessage (nid (pg_ids s + 2)) (nid (Suc (pg_ids s + 2)))"
  obtain u where m1: "pg_messages s1 = h @ [m, u, ?l]"
    using assms(3) by (simp add: s1_def handleSuggestionClick_def handleSendMessage_def newUserMessage_def
        newLoadingMessage_def Let_def)
  show "src \<in> set (pg_live s1)"
    using assms(5,6) by (simp add: s1_def handleSuggestionClick_def handleSendMessage_def newUserMessage_def
        newLoadingMessage_def Let_def send_defs)
  have "s2 = handleStreamUpdate DContent c s1"
    using assms(7-12) by (simp add: s2_def onMessage_def truthy_opt_def opt_prop_def Let_def)
  then have "pg_messages s2 = (h @ [m, u]) @ [streamUpdater DContent c ?l]"
    using m1 updateLast_snoc [of "h @ [m, u]" ?l]
    by (simp add: handleStreamUpdate_def createLoadingAssistantMessage_def)
  then show "m \<in> set (butlast (pg_messages s2))"
    and "ver_content (getCurrentVersion (last (pg_messages s2))) = c"
    using streamUpdater_frame(1) [of ?l DContent c]
    by (simp_all add: butlast_append createLoadingAssistantMessage_def getCurrentVersion_def createMessageVersion_def)
qed

text \<open>A closing tag cut by a delta boundary is shown as reasoning, and stays when the block turns out to be
  empty.\<close>

lemma parse_cut_tag:
  "parseThinkTags (js ''<think></thi'') =
     \<lparr>tr_visibleContent = [], tr_reasoning = js ''</thi'', tr_hasUnclosedTag = True\<rparr>"
  "parseThinkTags (js ''<think></think>ok'') =
     \<lparr>tr_visibleContent = js ''ok'', tr_reasoning = [], tr_hasUnclosedTag = False\<rparr>"
proof -
  have "think_ok ([], [], Some (js ''</thi''))" and "think_ok ([([], [])], js ''ok'', None)"
    by (simp_all add: think_ok_def js_def tag_units sublist_Cons_right)
  from parseThinkTags_render [OF this(1)] parseThinkTags_render [OF this(2)]
  show "parseThinkTags (js ''<think></thi'') =
      \<lparr>tr_visibleContent = [], tr_reasoning = js ''</thi'', tr_hasUnclosedTag = True\<rparr>"
    and "parseThinkTags (js ''<think></think>ok'') =
      \<lparr>tr_visibleContent = js ''ok'', tr_reasoning = [], tr_hasUnclosedTag = False\<rparr>"
    by (simp_all add: think_render_def think_block_def think_tail_def think_visible_def
        think_reasoning_def js_def tag_units trim_def is_ws_def)
qed

lemma cut_closing_tag_stays:
  "reasoning_content (completeUpdater (streamed [(DContent, js ''<think></thi''), (DContent, js ''nk>ok'')]
     (createLoadingAssistantMessage key vid))) = js ''</thi''"
  "reasoning_content (completeUpdater (streamed [(DContent, js ''<think></think>ok'')]
     (createLoadingAssistantMessage key vid))) = []"
proof -
  have j: "js ''<think></thi'' @ js ''nk>ok'' = js ''<think></think>ok''" by (simp add: js_def)
  show "reasoning_content (completeUpdater (streamed [(DContent, js ''<think></thi''), (DContent, js ''nk>ok'')]
     (createLoadingAssistantMessage key vid))) = js ''</thi''"
    and "reasoning_content (completeUpdater (streamed [(DContent, js ''<think></think>ok'')]
     (createLoadingAssistantMessage key vid))) = []"
    by (simp_all add: streamed_def streamUpdater_def processStreamingContent_def Let_def opt_str_def
        createLoadingAssistantMessage_def createMessageVersion_def getCurrentVersion_def
        updateCurrentVersionContent_def parse_cut_tag j completeUpdater_def finalizeMessage_def str_or_def
        reasoning_content_def)
qed

section \<open>A concrete session\<close>

text \<open>A concrete session for the witnesses: an empty storage, identifiers counted up, one message sent.\<close>

definition demo_id :: "nat \<Rightarrow> js_string" where
  "demo_id n = replicate n 97"

definition demo_storage :: local_storage where
  "demo_storage = \<lparr>ls_items = [], ls_quota = None\<rparr>"

definition demo_mounted :: playground where
  "demo_mounted = the (usePlaygroundState demo_storage 0)"

lemma demo_load: "loadMessages demo_storage = (demo_storage, LoadedNull)" "loadConfig demo_storage = JObj []"
  "loadParameterEnabled demo_storage = JObj []"
  by (simp_all add: demo_storage_def loadMessages_def loadConfig_def loadParameterEnabled_def getItem_def)

lemma demo_merge: "merge_config (JObj []) = Some DEFAULT_CONFIG"
  "merge_enabled (JObj []) = Some DEFAULT_PARAMETER_ENABLED"
  by (simp_all add: merge_config_def merge_enabled_def field_or_def)

lemma demo_mount: "usePlaygroundState demo_storage 0 = Some demo_mounted"
  by (simp add: demo_mounted_def usePlaygroundState_def demo_load demo_merge loadedMessages_def)

lemma demo_reaches:
  assumes "allowed demo_mounted (Submit (js ''hi'') True)"
  shows "reaches allowed demo_id demo_storage 0 (step demo_id (Submit (js ''hi'') True) demo_mounted)"
  by (intro reaches.event reaches.mount demo_mount assms)

lemma demo_ok: "storage_ok demo_storage" "str_ok (demo_id n)" "inj demo_id" "reload demo_storage = Some []"
  "merge_config (loadConfig demo_storage) = Some DEFAULT_CONFIG" "cfg_stream DEFAULT_CONFIG"
proof -
  show "inj demo_id"
  proof (rule injI)
    fix m n
    assume "demo_id m = demo_id n"
    then have "length (demo_id m) = length (demo_id n)" by simp
    then show "m = n" by (simp add: demo_id_def)
  qed
qed (simp_all add: storage_ok_def demo_storage_def demo_id_def str_ok_def reload_def loadMessages_def
  getItem_def loadedMessages_def loadConfig_def demo_merge DEFAULT_CONFIG_def)

section \<open>Properties\<close>





text \<open>C9 (invariant): in a streaming session in which no suggestion is clicked and no edit is submitted
  during a generation, only the last message can be in progress, and only while a source is open;
  so a reload never shows a message that is still in progress.\<close>

theorem session_progress:
  assumes "reaches disciplined nid st ids s" and "storage_ok st" and "\<And>n. str_ok (nid n)"
    and "reload st = Some ms" and "filter is_stuck ms = []"
    and "merge_config (loadConfig st) = Some c" and "cfg_stream c"
  shows "filter is_stuck (butlast (pg_messages s)) = [] \<and>
    (isGenerating s \<or> filter is_stuck (pg_messages s) = []) \<and>
    (\<exists>ms'. reload (pg_storage s) = Some ms' \<and> filter is_stuck ms' = [])"
proof -
  have p: "progress s" by (rule reaches_progress [OF assms(1,4,5,6,7)])
  have "reaches admissible nid st ids s"
    using assms(1) by (rule reaches_mono) (simp add: disciplined_def)
  from reaches_mirrored [OF this assms(2,3)]
  have r: "reload (pg_storage s) = Some (sanitizeMessagesOnLoad (pg_messages s))"
    by (simp add: mirrored_def)
  have "filter is_stuck (sanitizeMessagesOnLoad (pg_messages s)) = []"
  proof -
    have "filter is_stuck (pg_messages s) \<noteq> [] \<Longrightarrow> filter is_stuck pre = []"
      if "pg_messages s = pre @ m # post" for pre m post
      using that p by (auto simp: progress_def butlast_append split: if_splits)
    then show ?thesis using sanitize_cases [of "pg_messages s"] by fastforce
  qed
  with p r show ?thesis by (auto simp: progress_def isGenerating_def)
qed

theorem session_progress_witness:
  "filter is_stuck (butlast (pg_messages (step demo_id (Submit (js ''hi'') True) demo_mounted))) = []"
proof -
  have "disciplined demo_mounted (Submit (js ''hi'') True)" by (simp add: disciplined_def)
  from session_progress [OF demo_reaches [of disciplined, OF this] demo_ok(1,2,4) _ demo_ok(5,6)] show ?thesis by simp
qed

text \<open>C19 (invariant): the keys of the messages are distinct in every reachable state, so that editing,
  deleting and regenerating concern one message. \<open>nanoid\<close> is taken to return distinct values.\<close>

theorem session_keys:
  assumes "reaches admissible nid st ids s" and "inj nid"
    and "reload st = Some ms" and "fresh_keys nid ids (map msg_key ms)"
  shows "distinct (map msg_key (pg_messages s))"
proof -
  from assms(1) have "fresh_keys nid (pg_ids s) (map msg_key (pg_messages s))"
  proof (induction rule: reaches_invariant)
    case (mount s)
    with assms(3,4) usePlaygroundState_fields [OF mount] show ?case by simp
  next
    case (handle s e)
    then show ?case by (intro keys_handle assms(2))
  next
    case (effects s)
    then show ?case by simp
  qed
  then show ?thesis by (simp add: fresh_keys_def)
qed

theorem session_keys_witness:
  "distinct (map msg_key (pg_messages (step demo_id (Submit (js ''hi'') True) demo_mounted)))"
proof -
  have "admissible demo_mounted (Submit (js ''hi'') True)" by simp
  from session_keys [OF demo_reaches [of admissible, OF this] demo_ok(3,4)] show ?thesis by (simp add: fresh_keys_def)
qed

text \<open>C20 (safety): during a generation the guarded actions change neither the messages nor the requests
  sent.\<close>

theorem guarded_during_generation:
  assumes "isGenerating s" and "e \<in> {Submit t b, Regenerate k b, StartEdit k, Delete k}"
  shows "pg_messages (step nid e s) = pg_messages s \<and> pg_source (step nid e s) = pg_source s \<and>
    pg_sent (handle nid e s) = pg_sent s \<and> pg_editing (handle nid e s) = pg_editing s"
  using assms by (auto simp: step_def handleSubmit_def guardAction_def toast_def)

theorem guarded_during_generation_witness:
  "pg_messages (step demo_id (Delete (js ''k'')) (demo_mounted\<lparr>pg_source := Some 0\<rparr>)) =
   pg_messages (demo_mounted\<lparr>pg_source := Some 0\<rparr>)"
proof -
  have "isGenerating (demo_mounted\<lparr>pg_source := Some 0\<rparr>)" by (simp add: isGenerating_def)
  from guarded_during_generation [OF this, of "Delete (js ''k'')" "[]" True "js ''k''" demo_id] show ?thesis
    by simp
qed

text \<open>C21 (liveness): stopping always ends the generation: no source is current afterwards, its source is
  closed, and the last message is settled.\<close>

theorem stop_ends_generation:
  "\<not> isGenerating (step nid Stop s) \<and>
   (case pg_source s of None \<Rightarrow> pg_live (step nid Stop s) = pg_live s
      | Some src \<Rightarrow> src \<notin> set (pg_live (step nid Stop s))) \<and>
   filter is_stuck (drop (length (pg_messages s) - 1) (pg_messages (step nid Stop s))) = []"
proof -
  have "filter is_stuck (drop (length (pg_messages s) - 1)
      (updateLastAssistantMessage (pg_messages s) stopUpdater)) = []"
    using stop_settles.settles
    by (cases "pg_messages s" rule: rev_cases) (auto simp: updateLast_snoc is_stuck_def)
  then show ?thesis
    by (auto simp: step_def isGenerating_def stopGeneration_def stopStream_def split: option.split)
qed

text \<open>C22 (functional): after every event the selected model and group are offered ones, as soon as the
  lists are loaded and not empty.\<close>

theorem selection_valid:
  assumes "pg_modelsData (step nid e s) = Some models" and "models \<noteq> []"
    and "pg_groupsData (step nid e s) = Some groups" and "groups \<noteq> []"
  shows "cfg_model (pg_config (step nid e s)) \<in> mo_value ` set models \<and>
    cfg_group (pg_config (step nid e s)) \<in> go_value ` set groups"
  using effects_models [of "handle nid e s" models] effects_groups [of "handle nid e s" groups] assms
  by (auto simp: step_def list_ex_iff intro: rev_image_eqI)

theorem selection_valid_witness:
  "cfg_model (pg_config (step demo_id (ModelsLoaded [\<lparr>mo_label = js ''m'', mo_value = js ''m''\<rparr>])
     (demo_mounted\<lparr>pg_groupsData := Some [\<lparr>go_label = js ''g'', go_value = js ''g'', go_ratio = Dec 1 0, go_desc = None\<rparr>]\<rparr>))) =
   js ''m''"
proof -
  let ?s = "demo_mounted\<lparr>pg_groupsData := Some [\<lparr>go_label = js ''g'', go_value = js ''g'', go_ratio = Dec 1 0, go_desc = None\<rparr>]\<rparr>"
  let ?e = "ModelsLoaded [\<lparr>mo_label = js ''m'', mo_value = js ''m''\<rparr>]"
  have "pg_modelsData (step demo_id ?e ?s) = Some [\<lparr>mo_label = js ''m'', mo_value = js ''m''\<rparr>]"
    and "pg_groupsData (step demo_id ?e ?s) = Some [\<lparr>go_label = js ''g'', go_value = js ''g'', go_ratio = Dec 1 0, go_desc = None\<rparr>]"
    by (simp_all add: step_def)
  from selection_valid [OF this(1) _ this(2)] show ?thesis by simp
qed

end
