(* ===== verification/CommaList.thy ===== *)
theory CommaList
  imports JsonRoundTrip
begin

text \<open>
  Separated lists in a text field, as several files of \<open>features/channels\<close> read and write them:
  split at a separator, trim every piece, drop the empty ones; and join. The locales \<open>list_reader\<close> and \<open>list_codec\<close>
  are the contract of such a pair of functions; every reader/writer pair of the channel files interprets
  one of them in the theory of its file.
\<close>

definition parse_list :: "code_unit \<Rightarrow> js_string \<Rightarrow> js_string list" where
  "parse_list sep s = filter_truthy (map trim (split_on sep s))"

definition item_ok :: "code_unit \<Rightarrow> js_string \<Rightarrow> bool" where
  "item_ok sep x \<longleftrightarrow> x \<noteq> [] \<and> trimmed x \<and> sep \<notin> set x"

locale list_reader =
  fixes parse :: "js_string \<Rightarrow> js_string list"
    and print :: "js_string list \<Rightarrow> js_string"
    and canon :: "js_string list \<Rightarrow> js_string list"
    and ok :: "js_string \<Rightarrow> bool"
  assumes parse_items: "list_all ok (parse s)"
    and parse_print: "list_all ok xs \<Longrightarrow> parse (print xs) = canon xs"
    and canon_items: "list_all ok xs \<Longrightarrow> list_all ok (canon xs)"
begin

text \<open>Reading, writing and reading again changes nothing but the canonical form.\<close>

lemma reparse: "parse (print (parse s)) = canon (parse s)"
  by (rule parse_print [OF parse_items])

lemma print_inject: "list_all ok xs \<Longrightarrow> list_all ok ys \<Longrightarrow> print xs = print ys \<Longrightarrow> canon xs = canon ys"
  by (metis parse_print)

end

text \<open>A codec whose writer already writes the canonical form.\<close>

locale list_codec = list_reader +
  assumes print_canon: "print (canon xs) = print xs"
begin

lemma print_stable: "print (parse (print (parse s))) = print (parse s)"
  by (simp add: reparse print_canon)

end

lemma parse_list_items: "list_all (item_ok sep) (parse_list sep s)"
proof -
  have "trim p \<noteq> [] \<Longrightarrow> item_ok sep (trim p)" if "p \<in> set (split_on sep s)" for p
    using split_on_parts_no_sep [OF that] set_trim_subset [of p] by (auto simp: item_ok_def)
  then show ?thesis by (auto simp: parse_list_def list_all_iff)
qed

lemma parse_list_Nil [simp]: "parse_list sep [] = []"
  by (simp add: parse_list_def filter_truthy_def)

lemma map_trim_items: "list_all (item_ok sep) xs \<Longrightarrow> map trim xs = xs"
  by (induction xs) (auto simp: item_ok_def trim_id)

lemma parse_list_join: "list_all (item_ok sep) xs \<Longrightarrow> parse_list sep (join [sep] xs) = xs"
proof (cases "xs = []")
  case False
  assume ok: "list_all (item_ok sep) xs"
  then have "split_on sep (join [sep] xs) = xs"
    using False by (intro split_on_join) (auto simp: list_all_iff item_ok_def)
  moreover have "filter_truthy xs = xs"
    using ok by (intro filter_truthy_id) (auto simp: list_all_iff item_ok_def)
  ultimately show ?thesis using ok by (simp add: parse_list_def map_trim_items)
qed simp

lemma parse_list_js_set: "list_all (item_ok sep) (js_set (parse_list sep s))"
  using parse_list_items [of sep s] by (simp add: list_all_iff)

lemma set_parse_list: "set (parse_list sep s) = {trim p | p. p \<in> set (split_on sep s) \<and> trim p \<noteq> []}"
  by (auto simp: parse_list_def)

lemma list_codec_plain:
  "list_codec (parse_list sep) (join [sep]) (\<lambda>xs. xs) (item_ok sep)"
  by unfold_locales (simp_all add: parse_list_items parse_list_join)

lemma list_codec_dedup:
  "list_codec (parse_list sep) (\<lambda>xs. join [sep] (js_set xs)) js_set (item_ok sep)"
proof unfold_locales
  show "list_all (item_ok sep) xs \<Longrightarrow> parse_list sep (join [sep] (js_set xs)) = js_set xs" for xs
    by (rule parse_list_join) (simp add: list_all_iff)
qed (simp_all add: parse_list_items [unfolded list_all_iff] list_all_iff)

end
