(* ===== verification/ModelMapping.thy ===== *)
theory ModelMapping
  imports CommaList
begin

text \<open>
  \<open>features/channels/lib/model-mapping-validation.ts\<close>: the model list of a channel and its model
  mapping, a JSON object from requested to upstream model names. The sets of the source are
  insertion-ordered lists without duplicates. \<open>typeof x === 'string'\<close> is decided by the types,
  except for the values of a parsed object.
\<close>

section \<open>Model lists\<close>

definition parseModelsString :: "js_string \<Rightarrow> js_string list" where
  "parseModelsString modelsStr =
     (if modelsStr \<noteq> [] then filter_truthy (map trim (split_on 44 modelsStr)) else [])"

definition formatModelsArray :: "js_string list \<Rightarrow> js_string" where
  "formatModelsArray models = join [44] (js_set models)"

definition normalizeModelName :: "js_string \<Rightarrow> js_string" where
  "normalizeModelName model = trim model"

section \<open>The mapping\<close>

text \<open>\<open>!parsed || typeof parsed !== 'object' || Array.isArray(parsed)\<close> is the negation of being a JSON
  object.\<close>

definition as_object :: "json option \<Rightarrow> (js_string \<times> json) list option" where
  "as_object v = (case v of Some (JObj ps) \<Rightarrow> Some ps | _ \<Rightarrow> None)"

definition extractMappingSourceModels :: "js_string \<Rightarrow> js_string list" where
  "extractMappingSourceModels modelMapping =
     (let trimmed = trim modelMapping in
      if trimmed = [] then []
      else
        (case as_object (json_parse trimmed) of
           None \<Rightarrow> []
         | Some ps \<Rightarrow> js_set (filter_truthy (map (\<lambda>p. trim (fst p)) ps))))"

definition string_value :: "json \<Rightarrow> js_string option" where
  "string_value v = (case v of JStr s \<Rightarrow> Some (trim s) | _ \<Rightarrow> None)"

definition extractRedirectModels :: "js_string \<Rightarrow> js_string list" where
  "extractRedirectModels modelMapping =
     (let trimmed = trim modelMapping in
      if trimmed = [] then []
      else
        (case as_object (json_parse trimmed) of
           None \<Rightarrow> []
         | Some ps \<Rightarrow> js_set (filter_truthy (List.map_filter (\<lambda>p. string_value (snd p)) ps))))"

text \<open>The loop over the two model lists.\<close>

fun models_differ :: "js_string list \<Rightarrow> js_string list \<Rightarrow> bool" where
  "models_differ (x # xs) (y # ys) = (if x \<noteq> y then True else models_differ xs ys)"
| "models_differ _ _ = False"

definition hasModelConfigChanged ::
  "js_string list \<Rightarrow> js_string \<Rightarrow> js_string list \<Rightarrow> js_string \<Rightarrow> bool" where
  "hasModelConfigChanged currentModels currentModelMapping initialModels initialModelMapping =
     (if length initialModels = 0 \<and> initialModelMapping = [] then True
      else if length currentModels \<noteq> length initialModels then True
      else if models_differ currentModels initialModels then True
      else trim currentModelMapping \<noteq> trim initialModelMapping)"

definition findMissingModelsInMapping :: "js_string \<Rightarrow> js_string list \<Rightarrow> js_string list" where
  "findMissingModelsInMapping modelMapping currentModels =
     (if modelMapping = [] \<or> trim modelMapping = [] then []
      else
        (case as_object (json_parse modelMapping) of
           None \<Rightarrow> []
         | Some ps \<Rightarrow>
             (let modelSet = js_set (map normalizeModelName currentModels);
                  missingModels = filter (\<lambda>key. key \<noteq> [] \<and> key \<notin> set modelSet)
                    (map (\<lambda>p. normalizeModelName (fst p)) ps) in
              js_set missingModels)))"

datatype mapping_check = Valid | Invalid js_string

definition validateModelMappingJson :: "js_string \<Rightarrow> mapping_check" where
  "validateModelMappingJson modelMapping =
     (if modelMapping = [] \<or> trim modelMapping = [] then Valid
      else
        (case json_parse modelMapping of
           None \<Rightarrow> Invalid (js ''Model mapping must be valid JSON format'')
         | Some parsed \<Rightarrow>
             (case as_object (Some parsed) of
                None \<Rightarrow> Invalid (js ''Model mapping must be a valid JSON object'')
              | Some ps \<Rightarrow>
                  if list_ex (\<lambda>p. string_value (snd p) = None) ps
                  then Invalid (js ''Model mapping values must be strings'')
                  else Valid)))"

definition findExposedTargetModels :: "js_string \<Rightarrow> js_string list \<Rightarrow> js_string list" where
  "findExposedTargetModels modelMapping currentModels =
     (let redirectModels = extractRedirectModels modelMapping in
      if length redirectModels = 0 then []
      else
        (let modelSet = js_set (map normalizeModelName currentModels) in
         filter (\<lambda>model. normalizeModelName model \<in> set modelSet) redirectModels))"

record model_categories =
  normalizedCurrentModels :: "js_string list"
  normalizedRedirectModels :: "js_string list"
  classificationSet :: "js_string list"
  redirectOnlySet :: "js_string list"

definition categorizeModelsWithRedirect ::
  "js_string list \<Rightarrow> js_string list \<Rightarrow> model_categories" where
  "categorizeModelsWithRedirect currentModels redirectModels =
     (let cur = js_set (filter_truthy (map normalizeModelName currentModels));
          red = js_set (filter_truthy (map normalizeModelName redirectModels)) in
      \<lparr>normalizedCurrentModels = cur, normalizedRedirectModels = red,
       classificationSet = js_set (cur @ red),
       redirectOnlySet = js_set (filter (\<lambda>m. m \<notin> set cur) red)\<rparr>)"

section \<open>Lemmas\<close>

lemma parseModelsString_eq: "parseModelsString = parse_list 44"
  by (rule ext) (simp add: parseModelsString_def parse_list_def filter_truthy_def)

interpretation models_field: list_codec parseModelsString formatModelsArray js_set "item_ok 44"
  using list_codec_dedup [of 44] by (simp add: parseModelsString_eq formatModelsArray_def [abs_def])

lemma models_differ_iff: "length xs = length ys \<Longrightarrow> models_differ xs ys \<longleftrightarrow> xs \<noteq> ys"
  by (induction xs ys rule: models_differ.induct) auto

lemma set_map_filter_Some: "y \<in> set (List.map_filter f xs) \<longleftrightarrow> (\<exists>x\<in>set xs. f x = Some y)"
  by (induction xs) (auto simp: List.map_filter_simps split: option.splits)

lemma string_value_Some: "string_value v = Some t \<longleftrightarrow> (\<exists>s. v = JStr s \<and> t = trim s)"
  by (cases v) (auto simp: string_value_def)

lemma as_object_Some: "as_object v = Some ps \<longleftrightarrow> v = Some (JObj ps)"
  by (auto simp: as_object_def split: option.splits json.splits)

lemma set_redirect_object:
  assumes "json_parse (trim mm) = Some (JObj ps)" and "trim mm \<noteq> []"
  shows "set (extractRedirectModels mm) = {trim s | s. trim s \<noteq> [] \<and> (\<exists>k. (k, JStr s) \<in> set ps)}"
  using assms
  by (auto simp: extractRedirectModels_def as_object_def set_map_filter_Some string_value_Some)
     (blast, erule bexI [rotated], auto)

lemma extractRedirectModels_none:
  "as_object (json_parse (trim mm)) = None \<or> trim mm = [] \<Longrightarrow> extractRedirectModels mm = []"
  by (auto simp: extractRedirectModels_def Let_def)

lemma redirect_trimmed: "m \<in> set (extractRedirectModels mm) \<Longrightarrow> trim m = m"
proof (cases "as_object (json_parse (trim mm)) = None \<or> trim mm = []")
  case True
  then show "m \<in> set (extractRedirectModels mm) \<Longrightarrow> trim m = m" by (simp add: extractRedirectModels_none)
next
  case False
  then obtain ps where "json_parse (trim mm) = Some (JObj ps)" by (auto simp: as_object_Some)
  with False show "m \<in> set (extractRedirectModels mm) \<Longrightarrow> trim m = m"
    by (auto simp: set_redirect_object)
qed

text \<open>The model names a mapping maps from.\<close>

definition mapping_keys :: "js_string \<Rightarrow> js_string set" where
  "mapping_keys mm =
     (if trim mm = [] then {}
      else (case as_object (json_parse mm) of None \<Rightarrow> {} | Some ps \<Rightarrow> trim ` fst ` set ps - {[]}))"

lemma mapping_keys_trimmed: "k \<in> mapping_keys mm \<Longrightarrow> trim k = k"
  by (auto simp: mapping_keys_def split: option.splits if_splits)

lemma set_missing: "set (findMissingModelsInMapping mm cur) = mapping_keys mm - trim ` set cur"
  by (auto simp: findMissingModelsInMapping_def mapping_keys_def Let_def normalizeModelName_def image_image
      split: option.splits)

lemma set_exposed:
  "set (findExposedTargetModels mm cur) = set (extractRedirectModels mm) \<inter> trim ` set cur"
  using redirect_trimmed [of _ mm]
  by (auto simp: findExposedTargetModels_def Let_def normalizeModelName_def)

section \<open>Properties\<close>



text \<open>The categories of the model picker partition the union of the two lists.\<close>

lemma categories_partition:
  fixes cur red defines "cs \<equiv> categorizeModelsWithRedirect cur red"
  shows "set (classificationSet cs) = set (normalizedCurrentModels cs) \<union> set (redirectOnlySet cs)"
    and "set (normalizedCurrentModels cs) \<inter> set (redirectOnlySet cs) = {}"
    and "distinct (classificationSet cs)"
  by (auto simp: cs_def categorizeModelsWithRedirect_def Let_def)

end
