(* ===== verification/JsNumber.thy ===== *)
theory JsNumber
  imports CommaList
begin

text \<open>
  Numbers as the channel code converts and compares them: \<open>Number(x)\<close> on strings and on parsed JSON
  values, \<open>Number.isInteger\<close> and comparison, on the decimal numbers of the JSON model. \<open>None\<close> is \<open>NaN\<close>
  or an infinity, which the code only tells apart from the integers. As for JSON, decimals with more
  digits than a double holds are not rounded.
\<close>

definition radix_digits :: "nat \<Rightarrow> js_string \<Rightarrow> jnum option" where
  "radix_digits b ds =
     (if ds \<noteq> [] \<and> list_all (\<lambda>c. case hex_value c of None \<Rightarrow> False | Some d \<Rightarrow> d < b) ds
      then Some (num_of_int (int (foldl (\<lambda>a c. b * a + the (hex_value c)) 0 ds))) else None)"

definition unsigned_decimal :: "js_string \<Rightarrow> (nat \<times> int) option" where
  "unsigned_decimal s =
     (let ds = takeWhile is_digit s; r = dropWhile is_digit s;
          fs = (case r of [] \<Rightarrow> [] | c # r' \<Rightarrow> if c = 46 then takeWhile is_digit r' else []);
          rest = (case r of [] \<Rightarrow> [] | c # r' \<Rightarrow> if c = 46 then dropWhile is_digit r' else r) in
      if ds = [] \<and> fs = [] then None
      else
        (case parse_exp_part rest of
           Some (x, []) \<Rightarrow> Some (digits_value (ds @ fs), x - int (length fs))
         | _ \<Rightarrow> None))"

definition signed_decimal :: "js_string \<Rightarrow> jnum option" where
  "signed_decimal s =
     (case s of
        [] \<Rightarrow> None
      | c # r \<Rightarrow>
          if c = 45 then map_option (\<lambda>(m, e). normalise (- int m) e) (unsigned_decimal r)
          else if c = 43 then map_option (\<lambda>(m, e). normalise (int m) e) (unsigned_decimal r)
          else map_option (\<lambda>(m, e). normalise (int m) e) (unsigned_decimal s))"

definition string_to_number :: "js_string \<Rightarrow> jnum option" where
  "string_to_number s =
     (let t = trim s in
      if t = [] then Some (num_of_int 0)
      else if take 2 t = js ''0x'' \<or> take 2 t = js ''0X'' then radix_digits 16 (drop 2 t)
      else if take 2 t = js ''0o'' \<or> take 2 t = js ''0O'' then radix_digits 8 (drop 2 t)
      else if take 2 t = js ''0b'' \<or> take 2 t = js ''0B'' then radix_digits 2 (drop 2 t)
      else signed_decimal t)"

fun json_to_number :: "json \<Rightarrow> jnum option" where
  "json_to_number JNull = Some (num_of_int 0)"
| "json_to_number (JBool b) = Some (num_of_int (if b then 1 else 0))"
| "json_to_number (JNum x) = Some x"
| "json_to_number (JStr s) = string_to_number s"
| "json_to_number (JArr xs) = string_to_number (json_to_string (JArr xs))"
| "json_to_number (JObj ps) = None"

text \<open>The integer a canonical decimal denotes, if it is one (\<open>Number.isInteger\<close>).\<close>

definition num_int :: "jnum \<Rightarrow> int option" where
  "num_int x = (if expo x \<ge> 0 then Some (mant x * 10 ^ nat (expo x)) else None)"

lemma num_int_normalise: "num_int (normalise i 0) = Some i"
proof -
  have "e \<ge> 0 \<Longrightarrow> num_int (normalise m e) = Some (m * 10 ^ nat e)" for m e
  proof (induction m e rule: normalise.induct)
    case (1 m e)
    show ?case
    proof (cases "m \<noteq> 0 \<and> 10 dvd m")
      case True
      then have "num_int (normalise m e) = Some (m div 10 * 10 ^ nat (e + 1))"
        using 1 by (subst normalise.simps) simp
      moreover have "nat (e + 1) = Suc (nat e)" using 1 by simp
      moreover have "m div 10 * 10 ^ Suc (nat e) = m * 10 ^ nat e"
        using True by (simp add: mult.assoc [symmetric])
      ultimately show ?thesis by simp
    next
      case False
      then show ?thesis using 1 by (subst normalise.simps) (auto simp: num_int_def)
    qed
  qed
  from this [of 0 i] show ?thesis by simp
qed

lemma num_int_of_int [simp]: "num_int (num_of_int i) = Some i"
  by (simp add: num_of_int_def num_int_normalise)

text \<open>Printing an integer and converting it back.\<close>

lemma string_to_number_digits:
  assumes "0 < n"
  shows "string_to_number (digits n) = Some (num_of_int (int n))"
proof -
  have d: "list_all is_digit (digits n)" "digits n \<noteq> []" "hd (digits n) \<noteq> 48"
    using digits_all hd_digits [of n] assms by (auto simp: digits_ne)
  have ws: "\<not> is_ws c" if "c \<in> set (digits n)" for c
    using d(1) that by (auto simp: list_all_iff is_digit_def is_ws_def)
  have t: "trim (digits n) = digits n"
    using ws d(2) by (intro trim_id) (auto simp: trimmed_def)
  have tw: "takeWhile is_digit (digits n) = digits n" "dropWhile is_digit (digits n) = []"
    using d(1) by (auto simp: list_all_iff takeWhile_eq_all_conv dropWhile_eq_Nil_conv)
  obtain c cs where c: "digits n = c # cs" using d(2) by (cases "digits n") auto
  have cd: "is_digit c" "c \<noteq> 48" using d c by auto
  have "unsigned_decimal (digits n) = Some (digits_value (digits n), 0)"
    using d(2) by (simp add: unsigned_decimal_def tw parse_exp_part_def)
  moreover have "digits_value (c # cs) = n" using digits_value_digits [of n] by (simp only: c)
  ultimately have "signed_decimal (digits n) = Some (normalise (int n) 0)"
    using cd by (simp add: signed_decimal_def c is_digit_def)
  moreover have "take 2 (digits n) \<noteq> js [CHR ''0'', x]" for x
    using cd by (simp add: c js_def)
  ultimately show ?thesis
    using d(2) by (simp add: string_to_number_def t Let_def num_of_int_def)
qed

end
