(* ===== verification/ChannelUtils.thy ===== *)
theory ChannelUtils
  imports ModelMapping JsNumber Complex_Main
begin

text \<open>
  \<open>features/channels/constants.ts\<close> and \<open>features/channels/lib/channel-utils.ts\<close>: the channel type
  tables, the parsers of the channel's text fields, the checks, the aggregation of channels by tag
  and the deduplication of keys.

  \<^item> \<open>channel\<close> has the properties these functions read; \<open>ch_rest\<close> stands for those they only copy.
  \<^item> Quotas, balances and response times are rationals: the sums and averages of the source are
    computed exactly, the rounding of doubles is not modelled. Priorities and weights are only
    compared and printed, and are decimals as in JSON.
  \<^item> \<open>localeCompare\<close> (the collation of the browser) is a parameter \<open>lc\<close>.
\<close>

section \<open>Tables\<close>

definition CHANNEL_TYPES :: "(nat \<times> js_string) list" where
  "CHANNEL_TYPES =
     [(0, js ''Unknown''), (1, js ''OpenAI''), (2, js ''Midjourney''), (3, js ''Azure''),
      (4, js ''Ollama''), (5, js ''MidjourneyPlus''), (6, js ''OpenAIMax''), (7, js ''OhMyGPT''),
      (8, js ''Custom''), (9, js ''AILS''), (10, js ''AI Proxy''), (11, js ''PaLM''),
      (12, js ''API2GPT''), (13, js ''AIGC2D''), (14, js ''Anthropic''), (15, js ''Baidu''),
      (16, js ''Zhipu''), (17, js ''Ali''), (18, js ''Xunfei''), (19, js ''360''),
      (20, js ''OpenRouter''), (21, js ''AI Proxy Library''), (22, js ''FastGPT''),
      (23, js ''Tencent''), (24, js ''Gemini''), (25, js ''Moonshot''), (26, js ''Zhipu V4''),
      (27, js ''Perplexity''), (31, js ''LingYiWanWu''), (33, js ''AWS''), (34, js ''Cohere''),
      (35, js ''MiniMax''), (36, js ''SunoAPI''), (37, js ''Dify''), (38, js ''Jina''),
      (39, js ''Cloudflare''), (40, js ''SiliconFlow''), (41, js ''Vertex AI''),
      (42, js ''Mistral''), (43, js ''DeepSeek''), (44, js ''MokaAI''), (45, js ''VolcEngine''),
      (46, js ''Baidu V2''), (47, js ''Xinference''), (48, js ''xAI''), (49, js ''Coze''),
      (50, js ''Kling''), (51, js ''Jimeng''), (52, js ''Vidu''), (53, js ''Submodel''),
      (54, js ''DoubaoVideo''), (55, js ''Sora''), (56, js ''Replicate''), (57, js ''Codex'')]"

definition CHANNEL_TYPE_DISPLAY_ORDER :: "nat list" where
  "CHANNEL_TYPE_DISPLAY_ORDER =
     [1, 14, 33, 24, 43, 3, 41, 48, 42, 34, 20, 4, 40, 27, 25, 17, 26, 15, 46, 23, 18, 45, 31,
      35, 49, 19, 47, 37, 38, 39, 11, 8, 57, 22, 21, 44, 2, 5, 36, 50, 51, 52, 53, 54, 55, 56]"

text \<open>The two loops that build \<open>CHANNEL_TYPE_OPTIONS\<close>: the types in display order, then the others.\<close>

definition orderedTypes :: "(nat \<times> js_string) list \<Rightarrow> nat list \<Rightarrow> (nat \<times> js_string) list" where
  "orderedTypes types order =
     List.map_filter
       (\<lambda>t. case obj_get types t of None \<Rightarrow> None | Some l \<Rightarrow> if l \<noteq> [] then Some (t, l) else None) order"

definition channelTypeOptions :: "(nat \<times> js_string) list \<Rightarrow> nat list \<Rightarrow> (nat \<times> js_string) list" where
  "channelTypeOptions types order =
     (let ordered = orderedTypes types order; seen = map fst ordered in
      ordered @ filter (\<lambda>(t, l). t \<noteq> 0 \<and> t \<notin> set seen) types)"

definition CHANNEL_TYPE_OPTIONS :: "(nat \<times> js_string) list" where
  "CHANNEL_TYPE_OPTIONS = channelTypeOptions CHANNEL_TYPES CHANNEL_TYPE_DISPLAY_ORDER"

definition TYPE_TO_ICON :: "(nat \<times> js_string) list" where
  "TYPE_TO_ICON =
     [(1, js ''OpenAI''), (6, js ''OpenAI''), (7, js ''OpenAI''), (8, js ''OpenAI''),
      (3, js ''Azure''), (14, js ''Claude''), (24, js ''Gemini''), (11, js ''Google''),
      (41, js ''Gemini''), (33, js ''Aws''), (39, js ''Cloudflare''), (15, js ''Baidu''),
      (46, js ''Baidu''), (16, js ''Zhipu''), (26, js ''Zhipu''), (17, js ''Qwen''),
      (18, js ''Spark''), (23, js ''Hunyuan''), (19, js ''Ai360''), (25, js ''Moonshot''),
      (31, js ''Yi''), (35, js ''Minimax''), (45, js ''Volcengine''), (4, js ''Ollama''),
      (27, js ''Perplexity''), (34, js ''Cohere''), (42, js ''Mistral''), (43, js ''DeepSeek''),
      (48, js ''XAI''), (49, js ''Coze''), (40, js ''SiliconCloud''), (44, js ''OpenAI''),
      (20, js ''OpenRouter''), (2, js ''Midjourney''), (5, js ''Midjourney''), (50, js ''Kling''),
      (51, js ''Jimeng''), (52, js ''Vidu''), (36, js ''Suno''), (55, js ''OpenAI''),
      (54, js ''Doubao''), (56, js ''Replicate''), (37, js ''Dify''), (38, js ''Jina''),
      (22, js ''FastGPT''), (47, js ''Xinference''), (53, js ''OpenAI''), (10, js ''OpenAI''),
      (21, js ''OpenAI''), (12, js ''OpenAI''), (13, js ''OpenAI''), (9, js ''OpenAI'')]"

definition TYPE_TO_KEY_PROMPT :: "(nat \<times> js_string) list" where
  "TYPE_TO_KEY_PROMPT =
     [(15, js ''Format: APIKey|SecretKey''), (18, js ''Format: APPID|APISecret|APIKey''),
      (22, js ''Format: APIKey-AppId, e.g., fastgpt-0sp2gtvfdgyi4k30jwlgwf1i-64f335d84283f05518e9e041''),
      (23, js ''Format: AppId|SecretId|SecretKey''), (33, js ''Format: Ak|Sk|Region''),
      (50, js ''Format: AccessKey|SecretKey (or just ApiKey if upstream is New API)''),
      (51, js ''Format: Access Key ID|Secret Access Key''),
      (57, js ''Paste Codex OAuth JSON credential (access_token / refresh_token / account_id)'')]"

definition table_or :: "(nat \<times> js_string) list \<Rightarrow> nat \<Rightarrow> js_string \<Rightarrow> js_string" where
  "table_or t k d = (case obj_get t k of None \<Rightarrow> d | Some v \<Rightarrow> str_or v d)"

definition getChannelTypeLabel :: "nat \<Rightarrow> js_string" where
  "getChannelTypeLabel t = table_or CHANNEL_TYPES t (js ''Unknown'')"

definition getChannelTypeIcon :: "nat \<Rightarrow> js_string" where
  "getChannelTypeIcon t = table_or TYPE_TO_ICON t (js ''OpenAI'')"

definition getKeyPromptForType :: "nat \<Rightarrow> js_string" where
  "getKeyPromptForType t = table_or TYPE_TO_KEY_PROMPT t (js ''Enter API key for this channel'')"

datatype variant = Success | Info | Warning | Danger | Neutral

record badge =
  badge_variant :: variant
  badge_label :: js_string

definition CHANNEL_STATUS_CONFIG :: "(int \<times> badge) list" where
  "CHANNEL_STATUS_CONFIG =
     [(0, \<lparr>badge_variant = Neutral, badge_label = js ''Unknown''\<rparr>),
      (1, \<lparr>badge_variant = Success, badge_label = js ''Enabled''\<rparr>),
      (2, \<lparr>badge_variant = Danger, badge_label = js ''Disabled''\<rparr>),
      (3, \<lparr>badge_variant = Warning, badge_label = js ''Auto Disabled''\<rparr>)]"

definition MULTI_KEY_STATUS_CONFIG :: "(int \<times> badge) list" where
  "MULTI_KEY_STATUS_CONFIG =
     [(1, \<lparr>badge_variant = Success, badge_label = js ''Enabled''\<rparr>),
      (2, \<lparr>badge_variant = Neutral, badge_label = js ''Manual Disabled''\<rparr>),
      (3, \<lparr>badge_variant = Danger, badge_label = js ''Auto Disabled''\<rparr>)]"

definition getChannelStatusBadge :: "int \<Rightarrow> badge" where
  "getChannelStatusBadge status =
     (case obj_get CHANNEL_STATUS_CONFIG status of
        Some b \<Rightarrow> b | None \<Rightarrow> the (obj_get CHANNEL_STATUS_CONFIG 0))"

definition getMultiKeyStatusBadge :: "int \<Rightarrow> badge" where
  "getMultiKeyStatusBadge status =
     (case obj_get MULTI_KEY_STATUS_CONFIG status of
        Some b \<Rightarrow> b | None \<Rightarrow> the (obj_get MULTI_KEY_STATUS_CONFIG 1))"

definition getMultiKeyStatusConfig :: "int \<Rightarrow> badge" where
  "getMultiKeyStatusConfig status =
     (case obj_get MULTI_KEY_STATUS_CONFIG status of
        Some b \<Rightarrow> b | None \<Rightarrow> \<lparr>badge_variant = Neutral, badge_label = js ''Unknown''\<rparr>)"

section \<open>Channels\<close>

record channel_info =
  is_multi_key :: bool
  multi_key_size :: nat
  multi_key_status_list :: "(js_string \<times> int) list option"

datatype nullish = Undef | Null | Num jnum

record channel =
  ch_id :: int
  ch_type :: int
  ch_key :: js_string
  ch_name :: js_string
  ch_status :: int
  ch_balance :: rat
  ch_response_time :: rat
  ch_used_quota :: rat
  ch_models :: js_string
  ch_group :: js_string
  ch_priority :: nullish
  ch_weight :: nullish
  ch_tag :: "js_string option"
  ch_info :: "channel_info option"
  ch_rest :: json

definition isChannelEnabled :: "channel \<Rightarrow> bool" where
  "isChannelEnabled c \<longleftrightarrow> ch_status c = 1"

definition isMultiKeyChannel :: "channel \<Rightarrow> bool" where
  "isMultiKeyChannel c = (case ch_info c of None \<Rightarrow> False | Some i \<Rightarrow> is_multi_key i)"

section \<open>Keys\<close>

definition nonblank_lines :: "js_string \<Rightarrow> js_string list" where
  "nonblank_lines s = filter (\<lambda>k. trim k \<noteq> []) (split_on 10 s)"

definition formatChannelKey :: "js_string \<Rightarrow> bool \<Rightarrow> js_string" where
  "formatChannelKey key isMultiKey =
     (if key = [] then []
      else if isMultiKey then digits (length (nonblank_lines key)) @ js '' keys''
      else if length key \<le> 16 then slice 4 key @ js ''...'' @ slice_last 4 key
      else slice 8 key @ js ''...'' @ slice_last 8 key)"

definition formatKeyPreview :: "js_string \<Rightarrow> nat \<Rightarrow> js_string" where
  "formatKeyPreview key maxLength =
     (if key = [] then [] else if length key \<le> maxLength then key
      else slice maxLength key @ js ''...'')"

definition countKeys :: "js_string \<Rightarrow> nat" where
  "countKeys key = (if key = [] then 0 else length (nonblank_lines key))"

section \<open>Models and groups\<close>

definition parseModelsList :: "js_string \<Rightarrow> js_string list" where
  "parseModelsList models =
     (if models = [] then [] else filter (\<lambda>m. 0 < length m) (map trim (split_on 44 models)))"

definition groupCompare :: "(js_string \<Rightarrow> js_string \<Rightarrow> int) \<Rightarrow> js_string \<Rightarrow> js_string \<Rightarrow> int" where
  "groupCompare lc a b = (if a = js ''default'' then - 1 else if b = js ''default'' then 1 else lc a b)"

definition parseGroupsList :: "(js_string \<Rightarrow> js_string \<Rightarrow> int) \<Rightarrow> js_string \<Rightarrow> js_string list" where
  "parseGroupsList lc groups =
     (if groups = [] then []
      else js_sort (groupCompare lc) (filter (\<lambda>g. 0 < length g) (map trim (split_on 44 groups))))"

definition formatModelsString :: "js_string list \<Rightarrow> js_string" where
  "formatModelsString models = join [44] models"

definition formatGroupsString :: "js_string list \<Rightarrow> js_string" where
  "formatGroupsString groups = join [44] groups"

section \<open>Settings\<close>

definition parseChannelSettings :: "js_string option \<Rightarrow> json" where
  "parseChannelSettings settingStr =
     (if opt_str settingStr = [] then JObj []
      else (case json_parse (opt_str settingStr) of None \<Rightarrow> JObj [] | Some v \<Rightarrow> v))"

definition parseChannelOtherSettings :: "js_string option \<Rightarrow> json" where
  "parseChannelOtherSettings settingsStr =
     (if opt_str settingsStr = [] \<or> opt_str settingsStr = js ''{}'' then JObj []
      else (case json_parse (opt_str settingsStr) of None \<Rightarrow> JObj [] | Some v \<Rightarrow> v))"

definition validateChannelSettings :: "js_string \<Rightarrow> bool" where
  "validateChannelSettings settings =
     (if settings = [] \<or> trim settings = [] then True else json_parse settings \<noteq> None)"

section \<open>Display values and checks\<close>

definition getBalanceVariant :: "rat \<Rightarrow> variant" where
  "getBalanceVariant balance =
     (if balance = 0 then Neutral else if balance < 1 then Danger
      else if balance < 10 then Warning else Success)"

definition getResponseTimeConfig :: "rat \<Rightarrow> badge" where
  "getResponseTimeConfig timeMs =
     (if timeMs = 0 then \<lparr>badge_variant = Neutral, badge_label = js ''Not tested''\<rparr>
      else if timeMs \<le> 500 then \<lparr>badge_variant = Success, badge_label = js ''Excellent''\<rparr>
      else if timeMs \<le> 1000 then \<lparr>badge_variant = Info, badge_label = js ''Good''\<rparr>
      else if timeMs \<le> 2000 then \<lparr>badge_variant = Warning, badge_label = js ''Fair''\<rparr>
      else if timeMs \<le> 5000 then \<lparr>badge_variant = Danger, badge_label = js ''Poor''\<rparr>
      else \<lparr>badge_variant = Danger, badge_label = js ''Poor''\<rparr>)"

definition getPriorityDisplay :: "nullish \<Rightarrow> js_string" where
  "getPriorityDisplay priority = (case priority of Num x \<Rightarrow> num_to_string x | _ \<Rightarrow> js ''0'')"

definition getWeightDisplay :: "nullish \<Rightarrow> js_string" where
  "getWeightDisplay weight = (case weight of Num x \<Rightarrow> num_to_string x | _ \<Rightarrow> js ''0'')"

definition validateChannelName :: "js_string \<Rightarrow> bool" where
  "validateChannelName name \<longleftrightarrow> 0 < length (trim name)"

definition validateApiKey :: "js_string \<Rightarrow> bool" where
  "validateApiKey key \<longleftrightarrow> 0 < length (trim key)"

definition validateModels :: "js_string \<Rightarrow> bool" where
  "validateModels models \<longleftrightarrow> 0 < length (parseModelsList models)"

definition validateGroups :: "(js_string \<Rightarrow> js_string \<Rightarrow> int) \<Rightarrow> js_string \<Rightarrow> bool" where
  "validateGroups lc groups \<longleftrightarrow> 0 < length (parseGroupsList lc groups)"

definition allKeysDisabled :: "channel \<Rightarrow> bool" where
  "allKeysDisabled c =
     (case ch_info c of
        None \<Rightarrow> False
      | Some i \<Rightarrow>
          is_multi_key i \<and>
          (case multi_key_status_list i of
             None \<Rightarrow> False | Some l \<Rightarrow> multi_key_size i \<le> length (map fst l)))"

definition channelNeedsAttention :: "channel \<Rightarrow> bool" where
  "channelNeedsAttention c =
     (if ch_status c = 3 then True
      else if 0 < ch_balance c \<and> ch_balance c < 1 then True
      else if allKeysDisabled c then True else False)"

definition getAttentionReason :: "channel \<Rightarrow> js_string option" where
  "getAttentionReason c =
     (if ch_status c = 3 then Some (js ''Auto-disabled'')
      else if 0 < ch_balance c \<and> ch_balance c < 1 then Some (js ''Low balance'')
      else if allKeysDisabled c then Some (js ''All keys disabled'') else None)"

section \<open>Aggregation by tag\<close>

text \<open>A tag row: the properties the aggregation sets, and the channel \<open>row_base\<close> the others are spread
  from. \<open>id\<close> is the tag cast to a number type, so it is a string.\<close>

record tag_row =
  row_key :: js_string
  row_id :: js_string
  row_tag :: js_string
  row_name :: js_string
  row_type :: int
  row_status :: "int option"
  row_group :: js_string
  row_used_quota :: rat
  row_response_time :: rat
  row_priority :: nullish
  row_weight :: nullish
  row_balance :: rat
  row_test_time :: int
  row_created_time :: int
  row_balance_updated_time :: int
  row_models :: js_string
  row_children :: "channel list"
  row_base :: channel

definition newTagRow :: "js_string \<Rightarrow> channel \<Rightarrow> tag_row" where
  "newTagRow tag c =
     \<lparr>row_key = tag, row_id = tag, row_tag = tag, row_name = tag, row_type = 0, row_status = None, row_group = [], row_used_quota = 0, row_response_time = 0,
      row_priority = Num (num_of_int (- 1)), row_weight = Num (num_of_int (- 1)),
      row_balance = 0, row_test_time = 0, row_created_time = 0, row_balance_updated_time = 0, row_models = [],
      row_children = [], row_base = c\<rparr>"

definition aggregateNullish :: "nullish \<Rightarrow> nullish \<Rightarrow> nullish" where
  "aggregateNullish current p =
     (if current = Num (num_of_int (- 1)) then p else if current \<noteq> p then Null else current)"

definition aggregateGroup :: "js_string \<Rightarrow> js_string \<Rightarrow> js_string" where
  "aggregateGroup rowGroup grp =
     (if rowGroup = [] then grp
      else
        (let existingGroups = js_set (filter_truthy (split_on 44 rowGroup));
             newGroups = filter_truthy (split_on 44 grp) in
         foldl (\<lambda>acc g. if g \<notin> set existingGroups then acc @ [44] @ g else acc) rowGroup newGroups))"

definition addToRow :: "tag_row \<Rightarrow> channel \<Rightarrow> tag_row" where
  "addToRow row c =
     (let children = row_children row @ [c]; childCount = length children in
      row\<lparr>row_children := children,
          row_used_quota := row_used_quota row + ch_used_quota c,
          row_response_time :=
            (row_response_time row * of_nat (childCount - 1) + ch_response_time c) / of_nat childCount,
          row_priority := aggregateNullish (row_priority row) (ch_priority c),
          row_weight := aggregateNullish (row_weight row) (ch_weight c),
          row_group := aggregateGroup (row_group row) (ch_group c),
          row_status :=
            (if ch_status c = 1 then Some 1
             else if row_status row = None then Some (ch_status c) else row_status row)\<rparr>)"

definition channelTag :: "channel \<Rightarrow> js_string" where
  "channelTag c = opt_str (ch_tag c)"

text \<open>The rows in the order of \<open>result\<close>, which is the insertion order of \<open>tagMap\<close>.\<close>

definition aggregateStep :: "(js_string \<times> tag_row) list \<Rightarrow> channel \<Rightarrow> (js_string \<times> tag_row) list" where
  "aggregateStep tagMap c =
     (let tag = channelTag c;
          tagMap1 = (if obj_has tagMap tag then tagMap else obj_set tagMap tag (newTagRow tag c)) in
      obj_set tagMap1 tag (addToRow (the (obj_get tagMap1 tag)) c))"

definition aggregateChannelsByTag :: "channel list \<Rightarrow> tag_row list" where
  "aggregateChannelsByTag channels = map snd (foldl aggregateStep [] channels)"

section \<open>Deduplicating keys\<close>

record dedup_result =
  deduplicatedText :: js_string
  beforeCount :: nat
  afterCount :: nat
  removedCount :: int

definition deduplicateKeys :: "js_string \<Rightarrow> dedup_result" where
  "deduplicateKeys keysText =
     (if keysText = [] \<or> trim keysText = []
      then \<lparr>deduplicatedText = [], beforeCount = 0, afterCount = 0, removedCount = 0\<rparr>
      else
        (let keyLines = split_on 10 keysText;
             deduplicatedKeys =
               foldl (\<lambda>ks line. if trim line \<noteq> [] \<and> trim line \<notin> set ks then ks @ [trim line] else ks)
                 [] keyLines in
         \<lparr>deduplicatedText = join [10] deduplicatedKeys, beforeCount = length keyLines,
          afterCount = length deduplicatedKeys,
          removedCount = int (length keyLines) - int (length deduplicatedKeys)\<rparr>))"

section \<open>Type options\<close>

lemma set_orderedTypes:
  "(t, l) \<in> set (orderedTypes types order) \<longleftrightarrow> t \<in> set order \<and> obj_get types t = Some l \<and> l \<noteq> []"
  by (force simp: orderedTypes_def List.map_filter_def split: option.splits if_splits)

lemma distinct_orderedTypes: "distinct order \<Longrightarrow> distinct (map fst (orderedTypes types order))"
proof (induction order)
  case (Cons t order)
  moreover have "t \<notin> set (map fst (orderedTypes types order))"
    using Cons.prems by (auto simp: set_orderedTypes)
  ultimately show ?case by (auto simp: orderedTypes_def map_filter_simps split: option.split)
qed (simp add: orderedTypes_def map_filter_simps)

lemma fst_orderedTypes:
  assumes "set order \<subseteq> set (map fst types)" and "list_all (\<lambda>(t, l). l \<noteq> []) types"
  shows "map fst (orderedTypes types order) = order"
proof -
  have "\<exists>l. obj_get types t = Some l \<and> l \<noteq> []" if "t \<in> set (map fst types)" for t
    using that assms(2) by (induction types) (auto split: prod.splits)
  then show ?thesis using assms(1)
    by (induction order) (force simp: orderedTypes_def map_filter_simps)+
qed

lemma distinct_channelTypeOptions:
  assumes "distinct (map fst types)" and "distinct order"
  shows "distinct (map fst (channelTypeOptions types order))"
  using assms distinct_orderedTypes [of order types]
  by (force simp: channelTypeOptions_def Let_def distinct_map_filter)

lemma set_channelTypeOptions:
  assumes "distinct (map fst types)" and "list_all (\<lambda>(t, l). l \<noteq> []) types" and "0 \<notin> set order"
  shows "set (channelTypeOptions types order) = {(t, l) \<in> set types. t \<noteq> 0}"
proof -
  have get: "obj_get types t = Some l \<longleftrightarrow> (t, l) \<in> set types" for t l
    using assms(1) by (induction types) (force simp: image_iff split: if_splits)+
  have pos: "t \<in> set order \<Longrightarrow> 0 < t" for t
    using assms(3) by (cases t) auto
  show ?thesis
    using assms(2) pos
    by (auto simp: channelTypeOptions_def Let_def set_orderedTypes get list_all_iff image_iff)
qed

section \<open>Groups\<close>

lemma groupCompare_comparator: "comparator lc \<Longrightarrow> comparator (groupCompare lc)"
proof
  assume lc: "comparator lc"
  show "groupCompare lc x y \<le> 0 \<or> groupCompare lc y x \<le> 0" for x y
    using comparator.cmp_total [OF lc] by (auto simp: groupCompare_def)
  show "groupCompare lc x y \<le> 0 \<Longrightarrow> groupCompare lc y z \<le> 0 \<Longrightarrow> groupCompare lc x z \<le> 0" for x y z
    using comparator.cmp_trans [OF lc] by (auto simp: groupCompare_def split: if_splits)
qed

lemma parseModelsList_eq: "parseModelsList s = parse_list 44 s"
  by (simp add: parseModelsList_def parse_list_def filter_truthy_def)

lemma parseGroupsList_eq: "parseGroupsList lc s = js_sort (groupCompare lc) (parse_list 44 s)"
  by (simp add: parseGroupsList_def parse_list_def filter_truthy_def)

interpretation models_list: list_codec parseModelsList formatModelsString "\<lambda>xs. xs" "item_ok 44"
  using list_codec_plain [of 44] by (simp add: parseModelsList_eq [abs_def] formatModelsString_def [abs_def])

lemma groups_reader:
  "list_reader (parseGroupsList lc) formatGroupsString (js_sort (groupCompare lc)) (item_ok 44)"
  by unfold_locales
    (simp_all add: parseGroupsList_eq formatGroupsString_def parse_list_join list_all_iff
      parse_list_items [unfolded list_all_iff])

interpretation groups_list: list_reader "parseGroupsList lc" formatGroupsString
    "js_sort (groupCompare lc)" "item_ok 44" for lc
  by (rule groups_reader)

section \<open>Aggregation\<close>

lemma foldl_addToRow_fixed:
  "row_tag (foldl addToRow r cs) = row_tag r"
  "row_children (foldl addToRow r cs) = row_children r @ cs"
  "row_used_quota (foldl addToRow r cs) = row_used_quota r + sum_list (map ch_used_quota cs)"
  by (induction cs arbitrary: r) (auto simp: addToRow_def Let_def)

lemma addToRow_simps [simp]:
  "row_children (addToRow r c) = row_children r @ [c]"
  "row_response_time (addToRow r c) =
     (row_response_time r * of_nat (length (row_children r)) + ch_response_time c) /
       of_nat (Suc (length (row_children r)))"
  by (simp_all add: addToRow_def Let_def)

text \<open>The running average is the average.\<close>

lemma foldl_addToRow_time:
  "row_response_time (foldl addToRow r cs) * of_nat (length (row_children r @ cs)) =
     row_response_time r * of_nat (length (row_children r)) + sum_list (map ch_response_time cs)"
proof (induction cs arbitrary: r)
  case (Cons c cs)
  have nz: "of_nat (Suc n) \<noteq> (0 :: rat)" for n by (rule of_nat_neq_0)
  have "row_response_time (foldl addToRow (addToRow r c) cs) * of_nat (length (row_children r @ c # cs)) =
        row_response_time (addToRow r c) * of_nat (Suc (length (row_children r))) + sum_list (map ch_response_time cs)"
    using Cons [of "addToRow r c"] by simp
  then show ?case by (simp add: nz del: of_nat_Suc)
qed simp

text \<open>What the sentinel \<open>-1\<close> makes of a column: leading \<open>-1\<close>s are skipped, then the common value or
  \<open>null\<close>.\<close>

definition agreed :: "nullish list \<Rightarrow> nullish" where
  "agreed ps =
     (case dropWhile (\<lambda>p. p = Num (num_of_int (- 1))) ps of
        [] \<Rightarrow> Num (num_of_int (- 1)) | p # qs \<Rightarrow> if list_all ((=) p) qs then p else Null)"

lemma foldl_aggregateNullish_set:
  "p \<noteq> Num (num_of_int (- 1)) \<Longrightarrow>
   foldl aggregateNullish p ps = (if list_all ((=) p) ps then p else Null)"
proof (induction ps arbitrary: p)
  case (Cons q ps)
  then show ?case by (cases "p = q") (auto simp: aggregateNullish_def list_all_iff)
qed simp

lemma foldl_aggregateNullish: "foldl aggregateNullish (Num (num_of_int (- 1))) ps = agreed ps"
proof (induction ps)
  case (Cons p ps)
  have "aggregateNullish (Num (num_of_int (- 1))) p = p" by (simp add: aggregateNullish_def)
  with Cons show ?case
    by (cases "p = Num (num_of_int (- 1))") (simp_all add: agreed_def foldl_aggregateNullish_set)
qed (simp add: agreed_def)

lemma foldl_addToRow_agreed:
  "row_priority (foldl addToRow r cs) = foldl aggregateNullish (row_priority r) (map ch_priority cs)"
  "row_weight (foldl addToRow r cs) = foldl aggregateNullish (row_weight r) (map ch_weight cs)"
  by (induction cs arbitrary: r) (auto simp: addToRow_def Let_def)

definition anyStatus :: "channel list \<Rightarrow> int option" where
  "anyStatus cs =
     (if list_ex (\<lambda>c. ch_status c = 1) cs then Some 1
      else (case cs of [] \<Rightarrow> None | c # _ \<Rightarrow> Some (ch_status c)))"

lemma foldl_addToRow_status:
  "row_status (foldl addToRow r cs) =
     (if list_ex (\<lambda>c. ch_status c = 1) cs then Some 1
      else if row_status r = None then anyStatus cs else row_status r)"
  by (induction cs arbitrary: r) (auto simp: addToRow_def Let_def anyStatus_def)

definition groupSet :: "js_string \<Rightarrow> js_string set" where
  "groupSet s = set (filter_truthy (split_on 44 s))"

lemma split_on_append: "split_on c (s @ c # t) = split_on c s @ split_on c t"
proof (induction s)
  case (Cons x s)
  obtain p ps where "split_on c s = p # ps" by (cases "split_on c s") auto
  with Cons show ?case by simp
qed simp

lemma groupSet_append: "groupSet (s @ 44 # g) = groupSet s \<union> groupSet g"
  by (auto simp: groupSet_def split_on_append filter_truthy_def)

lemma groupSet_item: "g \<in> groupSet s \<Longrightarrow> groupSet g = {g}"
proof -
  assume "g \<in> groupSet s"
  then have "44 \<notin> set g" and "g \<noteq> []"
    using split_on_parts_no_sep [of g 44 s] by (auto simp: groupSet_def filter_truthy_def)
  then show ?thesis by (simp add: groupSet_def filter_truthy_def split_on_no_sep)
qed

lemma groupSet_Nil [simp]: "groupSet [] = {}"
  by (simp add: groupSet_def filter_truthy_def)

lemma groupSet_foldl:
  "set gs \<subseteq> groupSet grp \<Longrightarrow>
   groupSet (foldl (\<lambda>acc g. if g \<notin> S then acc @ [44] @ g else acc) acc gs) = groupSet acc \<union> (set gs - S)"
proof (induction gs arbitrary: acc)
  case (Cons g gs)
  then have "groupSet g = {g}" using groupSet_item [of g grp] by simp
  with Cons show ?case by (auto simp: groupSet_append)
qed simp

lemma groupSet_aggregateGroup: "groupSet (aggregateGroup s g) = groupSet s \<union> groupSet g"
proof (cases "s = []")
  case False
  have "groupSet (aggregateGroup s g) = groupSet s \<union> (groupSet g - groupSet s)"
    using False groupSet_foldl [of "filter_truthy (split_on 44 g)" g "groupSet s" s]
    by (simp add: aggregateGroup_def Let_def groupSet_def)
  then show ?thesis by auto
qed (simp add: aggregateGroup_def)

lemma foldl_addToRow_group:
  "groupSet (row_group (foldl addToRow r cs)) = groupSet (row_group r) \<union> (\<Union>c\<in>set cs. groupSet (ch_group c))"
proof (induction cs arbitrary: r)
  case (Cons c cs)
  show ?case using Cons [of "addToRow r c"]
    by (auto simp: addToRow_def Let_def groupSet_aggregateGroup)
qed simp

text \<open>The loop keeps one row per tag, in order of first appearance; each row is the fold of
  \<open>addToRow\<close> over the channels with its tag.\<close>

definition tagged :: "js_string \<Rightarrow> channel list \<Rightarrow> channel list" where
  "tagged t cs = filter (\<lambda>c. channelTag c = t) cs"

definition tagFold :: "channel list \<Rightarrow> js_string \<Rightarrow> tag_row" where
  "tagFold cs t = foldl addToRow (newTagRow t (hd (tagged t cs))) (tagged t cs)"

lemma obj_set_map:
  "distinct ks \<Longrightarrow> k \<in> set ks \<Longrightarrow>
   obj_set (map (\<lambda>k. (k, f k)) ks) k v = map (\<lambda>k'. (k', if k' = k then v else f k')) ks"
  by (induction ks) auto

lemma obj_set_map_new:
  "k \<notin> set ks \<Longrightarrow> obj_set (map (\<lambda>k. (k, f k)) ks) k v = map (\<lambda>k. (k, f k)) ks @ [(k, v)]"
  by (induction ks) auto

lemma obj_get_map: "obj_get (map (\<lambda>k. (k, f k)) ks) k = (if k \<in> set ks then Some (f k) else None)"
  by (induction ks) auto

lemma js_set_snoc: "js_set (xs @ [x]) = (if x \<in> set xs then js_set xs else js_set xs @ [x])"
  using set_js_set [of xs] by (simp add: js_set_def set_add_def)

lemma tagged_snoc: "tagged t (cs @ [c]) = tagged t cs @ (if channelTag c = t then [c] else [])"
  by (simp add: tagged_def)

lemma tagged_ne: "tagged t cs \<noteq> [] \<longleftrightarrow> t \<in> set (map channelTag cs)"
  by (auto simp: tagged_def filter_empty_conv image_iff)

lemma tagFold_snoc:
  "tagFold (cs @ [c]) t =
     (if channelTag c \<noteq> t then tagFold cs t
      else if tagged t cs = [] then addToRow (newTagRow t c) c else addToRow (tagFold cs t) c)"
  by (simp add: tagFold_def tagged_snoc)

lemma aggregate_rows:
  "foldl aggregateStep [] cs = map (\<lambda>t. (t, tagFold cs t)) (js_set (map channelTag cs))"
proof (induction cs rule: rev_induct)
  case (snoc c cs)
  let ?ts = "js_set (map channelTag cs)" and ?t = "channelTag c"
  show ?case
  proof (cases "?t \<in> set (map channelTag cs)")
    case True
    then have "tagged ?t cs \<noteq> []" by (simp only: tagged_ne)
    then show ?thesis using True snoc
      by (auto simp: aggregateStep_def Let_def obj_has_def obj_get_map obj_set_map js_set_snoc tagFold_snoc)
  next
    case False
    then have "tagged ?t cs = []" using tagged_ne [of ?t cs] by blast
    moreover have "map (\<lambda>t. (t, tagFold (cs @ [c]) t)) ?ts = map (\<lambda>t. (t, tagFold cs t)) ?ts"
      using False by (auto simp: tagFold_snoc)
    moreover have "obj_set (xs @ [(k, v)]) k v' = xs @ [(k, v')] \<and> obj_get (xs @ [(k, v)]) k = Some v"
      if "obj_get xs k = None" for xs :: "(js_string \<times> tag_row) list" and k v v'
      using that by (induction xs) (auto split: if_splits)
    ultimately show ?thesis using False snoc
      by (simp add: aggregateStep_def Let_def obj_has_def obj_get_map obj_set_map_new js_set_snoc tagFold_snoc)
  qed
qed simp

definition summarises :: "channel list \<Rightarrow> tag_row \<Rightarrow> bool" where
  "summarises cs row =
     (let own = filter (\<lambda>c. channelTag c = row_tag row) cs in
      row_children row = own \<and>
      row_used_quota row = sum_list (map ch_used_quota own) \<and>
      row_response_time row = sum_list (map ch_response_time own) / of_nat (length own) \<and>
      row_priority row = agreed (map ch_priority own) \<and>
      row_weight row = agreed (map ch_weight own) \<and>
      row_status row = anyStatus own \<and>
      groupSet (row_group row) = (\<Union>c\<in>set own. groupSet (ch_group c)))"

lemma tagFold_summarises:
  assumes "t \<in> set (map channelTag cs)"
  shows "summarises cs (tagFold cs t)"
proof -
  let ?own = "tagged t cs"
  have "of_nat (length ?own) \<noteq> (0 :: rat)" using assms tagged_ne [of t cs] by simp
  then have "row_response_time (tagFold cs t) = sum_list (map ch_response_time ?own) / of_nat (length ?own)"
    using foldl_addToRow_time [of "newTagRow t (hd ?own)" ?own]
    by (simp add: tagFold_def newTagRow_def field_simps)
  moreover have "row_tag (tagFold cs t) = t" by (simp add: tagFold_def foldl_addToRow_fixed newTagRow_def)
  ultimately show ?thesis
    by (simp add: summarises_def Let_def tagged_def [symmetric])
      (simp add: tagFold_def foldl_addToRow_fixed newTagRow_def foldl_addToRow_agreed
        foldl_aggregateNullish foldl_addToRow_status foldl_addToRow_group anyStatus_def)
qed

section \<open>Properties\<close>


lemma deduplicated_keys:
  "foldl (\<lambda>ks line. if trim line \<noteq> [] \<and> trim line \<notin> set ks then ks @ [trim line] else ks) ks lines =
   foldl set_add ks (filter_truthy (map trim lines))"
  by (induction lines arbitrary: ks) (auto simp: filter_truthy_def set_add_def)

lemma countKeys_eq: "countKeys s = length (parse_list 10 s)"
proof -
  have "length (filter (\<lambda>k. trim k \<noteq> []) xs) = length (filter_truthy (map trim xs))" for xs
    by (induction xs) (auto simp: filter_truthy_def)
  then show ?thesis by (auto simp: countKeys_def nonblank_lines_def parse_list_def filter_truthy_def)
qed

lemma parse_list_eq_Nil_iff: "is_ws sep \<Longrightarrow> parse_list sep s = [] \<longleftrightarrow> trim s = []"
proof -
  assume ws: "is_ws sep"
  have "(\<Union>p\<in>set (split_on sep s). set p) \<union> {sep} = set s \<union> {sep}"
  proof (induction s)
    case (Cons x s)
    obtain p ps where "split_on sep s = p # ps" by (cases "split_on sep s") auto
    with Cons show ?case by auto
  qed simp
  then have "(\<forall>p\<in>set (split_on sep s). \<forall>c\<in>set p. is_ws c) \<longleftrightarrow> (\<forall>c\<in>set s. is_ws c)"
    using ws by blast
  then show ?thesis
    by (simp add: parse_list_def filter_truthy_def filter_empty_conv trim_eq_Nil_iff)
qed

lemma deduplicateKeys_eq:
  "deduplicatedText (deduplicateKeys s) = join [10] (js_set (parse_list 10 s))"
  "afterCount (deduplicateKeys s) = length (js_set (parse_list 10 s))"
  "removedCount (deduplicateKeys s) =
     (if trim s = [] then 0 else int (length (split_on 10 s)) - int (length (js_set (parse_list 10 s))))"
  using parse_list_eq_Nil_iff [of 10 s]
  by (auto simp: deduplicateKeys_def Let_def deduplicated_keys parse_list_def js_set_def is_ws_def)

interpretation key_lines: list_codec "parse_list 10" "\<lambda>xs. join [10] (js_set xs)" js_set "item_ok 10"
  by (rule list_codec_dedup)

text \<open>C30 The options of the channel type selector are the channel types other than 0, each exactly once
  and under its own label, those of the display order first.\<close>

theorem type_options_complete:
  "distinct (map fst CHANNEL_TYPE_OPTIONS)
   \<and> set CHANNEL_TYPE_OPTIONS = {(t, l) \<in> set CHANNEL_TYPES. t \<noteq> 0}
   \<and> take (length CHANNEL_TYPE_DISPLAY_ORDER) (map fst CHANNEL_TYPE_OPTIONS) = CHANNEL_TYPE_DISPLAY_ORDER"
proof (intro conjI)
  have d: "distinct (map fst CHANNEL_TYPES)" and l: "list_all (\<lambda>(t, l). l \<noteq> []) CHANNEL_TYPES"
    by (simp_all add: CHANNEL_TYPES_def)
  have o: "distinct CHANNEL_TYPE_DISPLAY_ORDER" "0 \<notin> set CHANNEL_TYPE_DISPLAY_ORDER"
    by (simp_all add: CHANNEL_TYPE_DISPLAY_ORDER_def)
  show "distinct (map fst CHANNEL_TYPE_OPTIONS)"
    unfolding CHANNEL_TYPE_OPTIONS_def by (rule distinct_channelTypeOptions [OF d o(1)])
  show "set CHANNEL_TYPE_OPTIONS = {(t, l) \<in> set CHANNEL_TYPES. t \<noteq> 0}"
    unfolding CHANNEL_TYPE_OPTIONS_def
    by (rule set_channelTypeOptions [OF d l o(2)])
  show "take (length CHANNEL_TYPE_DISPLAY_ORDER) (map fst CHANNEL_TYPE_OPTIONS) = CHANNEL_TYPE_DISPLAY_ORDER"
  proof -
    have "map fst (orderedTypes CHANNEL_TYPES CHANNEL_TYPE_DISPLAY_ORDER) = CHANNEL_TYPE_DISPLAY_ORDER"
      by (rule fst_orderedTypes [OF _ l]) (simp add: CHANNEL_TYPES_def CHANNEL_TYPE_DISPLAY_ORDER_def)
    then have "map fst CHANNEL_TYPE_OPTIONS = CHANNEL_TYPE_DISPLAY_ORDER
        @ map fst (filter (\<lambda>(t, l). t \<noteq> 0 \<and> t \<notin> set CHANNEL_TYPE_DISPLAY_ORDER) CHANNEL_TYPES)"
      unfolding CHANNEL_TYPE_OPTIONS_def channelTypeOptions_def Let_def map_append by (simp only:)
    then show ?thesis by simp
  qed
qed


definition lengthCompare :: "js_string \<Rightarrow> js_string \<Rightarrow> int" where
  "lengthCompare a b = int (length a) - int (length b)"


lemma attention_has_reason: "channelNeedsAttention c = (getAttentionReason c \<noteq> None)"
  by (simp add: channelNeedsAttention_def getAttentionReason_def)

text \<open>Deduplicating keys: the resulting lines are the distinct trimmed non-blank lines in order of first
  appearance, \<open>countKeys\<close> of the result is \<open>afterCount\<close>, and deduplicating the result again changes nothing and
  removes nothing.\<close>

theorem deduplicate_keys:
  "parse_list 10 (deduplicatedText (deduplicateKeys s)) = js_set (parse_list 10 s)
   \<and> countKeys (deduplicatedText (deduplicateKeys s)) = afterCount (deduplicateKeys s)
   \<and> deduplicatedText (deduplicateKeys (deduplicatedText (deduplicateKeys s)))
       = deduplicatedText (deduplicateKeys s)
   \<and> removedCount (deduplicateKeys (deduplicatedText (deduplicateKeys s))) = 0"
proof (intro conjI)
  let ?ks = "js_set (parse_list 10 s)"
  have ok: "list_all (item_ok 10) ?ks" by (rule parse_list_js_set)
  have re: "parse_list 10 (join [10] ?ks) = ?ks" by (rule key_lines.reparse)
  show "parse_list 10 (deduplicatedText (deduplicateKeys s)) = ?ks"
    by (simp add: deduplicateKeys_eq re)
  show "countKeys (deduplicatedText (deduplicateKeys s)) = afterCount (deduplicateKeys s)"
    by (simp add: deduplicateKeys_eq countKeys_eq re)
  show "deduplicatedText (deduplicateKeys (deduplicatedText (deduplicateKeys s)))
       = deduplicatedText (deduplicateKeys s)"
    by (simp add: deduplicateKeys_eq re)
  have "split_on 10 (join [10] ?ks) = ?ks" if "?ks \<noteq> []"
    using that ok by (intro split_on_join) (auto simp: list_all_iff item_ok_def)
  moreover have "?ks = [] \<Longrightarrow> trim (join [10] ?ks) = []" by simp
  ultimately show "removedCount (deduplicateKeys (deduplicatedText (deduplicateKeys s))) = 0"
    by (cases "?ks = []") (simp_all add: deduplicateKeys_eq re)
qed

end
