(* ===== verification/JsObject.thy ===== *)
theory JsObject
  imports JsNumber
begin

text \<open>
  Objects whose properties the code reads and writes by name: property lists over JSON values. A
  property whose value is \<open>undefined\<close> is absent; reading it gives \<open>None\<close> either way and
  \<open>JSON.stringify\<close> leaves it out.
\<close>

type_synonym obj = "(js_string \<times> json) list"

abbreviation jint :: "int \<Rightarrow> json" where
  "jint n \<equiv> JNum (num_of_int n)"

text \<open>\<open>x || d\<close>, \<open>x ?? d\<close>, \<open>x === true\<close> and \<open>typeof x === 'number'\<close>.\<close>

definition js_or :: "json option \<Rightarrow> json \<Rightarrow> json" where
  "js_or x d = (if truthy_opt x then the x else d)"

definition js_nullish :: "json option \<Rightarrow> json \<Rightarrow> json" where
  "js_nullish x d = (case x of None \<Rightarrow> d | Some JNull \<Rightarrow> d | Some v \<Rightarrow> v)"

definition is_true :: "json option \<Rightarrow> bool" where
  "is_true x \<longleftrightarrow> x = Some (JBool True)"

definition number_or_undefined :: "json option \<Rightarrow> json option" where
  "number_or_undefined x = (case x of Some (JNum n) \<Rightarrow> Some (JNum n) | _ \<Rightarrow> None)"

text \<open>A value the types declare as a string or \<open>undefined\<close>; \<open>undefined\<close> reads as the empty string.\<close>

definition str_of :: "json option \<Rightarrow> js_string" where
  "str_of x = (case x of Some (JStr s) \<Rightarrow> s | _ \<Rightarrow> [])"

text \<open>An object literal.\<close>

definition obj_lit :: "(js_string \<times> json option) list \<Rightarrow> obj" where
  "obj_lit ps = List.map_filter (\<lambda>(k, v). map_option (Pair k) v) ps"

text \<open>\<open>typeof x\<close> is boolean, number or string; \<open>typeof x\<close> is object and \<open>x\<close> is not \<open>null\<close>.\<close>

definition is_scalar :: "json \<Rightarrow> bool" where
  "is_scalar raw = (case raw of JBool _ \<Rightarrow> True | JNum _ \<Rightarrow> True | JStr _ \<Rightarrow> True | _ \<Rightarrow> False)"

definition is_object :: "json \<Rightarrow> bool" where
  "is_object raw = (case raw of JArr _ \<Rightarrow> True | JObj _ \<Rightarrow> True | _ \<Rightarrow> False)"

text \<open>The entries of an arbitrary parsed value, as \<open>Object.entries\<close> lists them; \<open>None\<close> is the
  \<open>TypeError\<close> on \<open>null\<close>.\<close>

definition entries :: "json \<Rightarrow> obj option" where
  "entries v =
     (case v of
        JObj ps \<Rightarrow> Some ps
      | JArr xs \<Rightarrow> Some (map (\<lambda>i. (digits i, xs ! i)) [0..<length xs])
      | JStr s \<Rightarrow> Some (map (\<lambda>i. (digits i, JStr [s ! i])) [0..<length s])
      | JNull \<Rightarrow> None
      | _ \<Rightarrow> Some [])"

text \<open>Assigning a property: the keys that are array indices stay first.\<close>

definition obj_put :: "(js_string \<times> 'v) list \<Rightarrow> js_string \<Rightarrow> 'v \<Rightarrow> (js_string \<times> 'v) list" where
  "obj_put ps k v = own_order (obj_set ps k v)"

section \<open>Facts\<close>

lemma obj_lit_Nil [simp]: "obj_lit [] = []"
  by (simp add: obj_lit_def map_filter_simps)

lemma obj_lit_Some [simp]: "obj_lit ((k, Some v) # ps) = (k, v) # obj_lit ps"
  by (simp add: obj_lit_def map_filter_simps)

lemma obj_lit_None [simp]: "obj_lit ((k, None) # ps) = obj_lit ps"
  by (simp add: obj_lit_def map_filter_simps)

lemma fst_obj_lit: "fst ` set (obj_lit ps) \<subseteq> fst ` set ps"
  by (force simp: obj_lit_def List.map_filter_def)

lemma obj_get_obj_lit:
  "distinct (map fst ps) \<Longrightarrow> obj_get (obj_lit ps) k = (case obj_get ps k of None \<Rightarrow> None | Some v \<Rightarrow> v)"
proof (induction ps)
  case (Cons p ps)
  obtain k' v where p: "p = (k', v)" by force
  have "k' \<notin> fst ` set (obj_lit ps)" using Cons.prems p fst_obj_lit [of ps] by auto
  then have "obj_get (obj_lit ps) k' = None" by (simp add: obj_get_eq_None_iff)
  with Cons p show ?case by (cases v) auto
qed simp

lemma distinct_obj_lit: "distinct (map fst ps) \<Longrightarrow> distinct (map fst (obj_lit ps))"
proof (induction ps)
  case (Cons p ps)
  then show ?case using fst_obj_lit [of ps] by (cases p; cases "snd p") auto
qed simp

lemma obj_set_same: "obj_get ps k = Some v \<Longrightarrow> obj_set ps k v = ps"
  by (induction ps k v rule: obj_set.induct) (auto split: if_splits)

lemma obj_delete_absent: "obj_get ps k = None \<Longrightarrow> obj_delete ps k = ps"
  by (force simp: obj_delete_def obj_get_eq_None_iff intro: filter_True)

lemma js_or_idem [simp]: "js_or (Some (js_or x d)) d = js_or x d"
  by (auto simp: js_or_def truthy_opt_def split: option.split)

text \<open>Keys that are not array indices keep their insertion order.\<close>

definition plain_key :: "js_string \<Rightarrow> bool" where
  "plain_key k \<longleftrightarrow> array_index k = None"

lemma plain_key_js [simp]: "s \<noteq> [] \<Longrightarrow> \<not> is_digit (of_char (hd s)) \<Longrightarrow> plain_key (js s)"
  by (simp add: plain_key_def)

lemma own_order_plain: "list_all (\<lambda>p. plain_key (fst p)) ps \<Longrightarrow> own_order ps = ps"
  by (auto simp: own_order_def plain_key_def list_all_iff filter_empty_conv filter_id_conv)

lemma own_order_set:
  assumes "plain_key k" and "own_order ps = ps"
  shows "own_order (obj_set ps k v) = obj_set ps k v"
proof -
  let ?A = "\<lambda>p. array_index (fst p) \<noteq> None" and ?N = "\<lambda>p. array_index (fst p) = None"
  let ?s = "sort_key (\<lambda>p. the (array_index (fst p))) (filter ?A ps)"
  have k: "array_index k = None" using assms(1) by (simp add: plain_key_def)
  then have "filter ?A (obj_set ps k v) = filter ?A ps"
    by (induction ps k v rule: obj_set.induct) auto
  moreover have "filter ?N (obj_set ps k v) = obj_set (filter ?N ps) k v"
    using k by (induction ps k v rule: obj_set.induct) auto
  ultimately have own: "own_order (obj_set ps k v) = ?s @ obj_set (filter ?N ps) k v"
    unfolding own_order_def by (simp only:)
  have "obj_set (xs @ ys) k v = xs @ obj_set ys k v" if "obj_get xs k = None" for xs ys :: "(js_string \<times> 'a) list"
    using that by (induction xs) (auto split: if_splits)
  moreover have "obj_get ?s k = None" using k by (auto simp: obj_get_eq_None_iff)
  ultimately have "?s @ obj_set (filter ?N ps) k v = obj_set (own_order ps) k v"
    unfolding own_order_def by (simp only:)
  then show ?thesis by (simp only: own assms(2))
qed

lemma own_order_delete: "own_order ps = ps \<Longrightarrow> own_order (obj_delete ps k) = obj_delete ps k"
proof -
  assume o: "own_order ps = ps"
  have "own_order (obj_delete ps k) = obj_delete (own_order ps) k"
    by (simp add: own_order_def obj_delete_def filter_sort filter_filter conj_commute)
  with o show ?thesis by simp
qed

lemma json_ok_set:
  "json_ok (JObj ps) \<Longrightarrow> plain_key k \<Longrightarrow> str_ok k \<Longrightarrow> json_ok v \<Longrightarrow> json_ok (JObj (obj_set ps k v))"
  using set_obj_set [of ps k v] by (auto simp: distinct_obj_set own_order_set list_all_iff)

lemma json_ok_delete: "json_ok (JObj ps) \<Longrightarrow> json_ok (JObj (obj_delete ps k))"
  by (auto simp: distinct_obj_delete own_order_delete list_all_iff) (auto simp: obj_delete_def)

lemma obj_get_mem: "obj_get ps k = Some v \<Longrightarrow> (k, v) \<in> set ps"
  by (induction ps) (auto split: if_splits)

lemma json_ok_get: "json_ok (JObj ps) \<Longrightarrow> obj_get ps k = Some v \<Longrightarrow> json_ok v"
  by (auto simp: list_all_iff dest!: obj_get_mem)

lemma json_ok_obj_lit:
  assumes "distinct (map fst ps)" and "list_all (\<lambda>(k, v). plain_key k \<and> str_ok k \<and> pred_option json_ok v) ps"
  shows "json_ok (JObj (obj_lit ps))"
proof -
  have "(k, v) \<in> set (obj_lit ps) \<Longrightarrow> plain_key k \<and> str_ok k \<and> json_ok v" for k v
    using assms(2) by (induction ps) (auto simp: obj_lit_def map_filter_simps split: option.splits)
  then have "list_all (\<lambda>p. plain_key (fst p) \<and> str_ok (fst p) \<and> json_ok (snd p)) (obj_lit ps)"
    by (auto simp: list_all_iff)
  then show ?thesis
    using distinct_obj_lit [OF assms(1)]
    by (auto simp: list_all_iff intro!: own_order_plain)
qed

end
