(* ===== verification/ChannelForm.thy ===== *)
theory ChannelForm
  imports ChannelUtils JsObject
begin

text \<open>
  \<open>features/channels/lib/channel-form.ts\<close>: the predicates of the form schema, the cross-field
  refinement, and the transformations between a channel of the API, the form and the payloads of the
  create and update requests. Forms, channels and payloads are objects with the property names of
  the source. The field types of the schema are checked by the library zod and are not modelled; the
  predicates and callbacks handed to it are.
\<close>

section \<open>Predicates of the schema\<close>

text \<open>\<open>Inl ()\<close> is the \<open>SyntaxError\<close> of \<open>JSON.parse\<close>, \<open>Inr None\<close> is \<open>undefined\<close>.\<close>

definition parseOptionalJson :: "js_string option \<Rightarrow> unit + json option" where
  "parseOptionalJson value =
     (if trim (opt_str value) = [] then Inr None
      else (case json_parse (opt_str value) of None \<Rightarrow> Inl () | Some v \<Rightarrow> Inr (Some v)))"

definition isJsonObjectValue :: "json \<Rightarrow> bool" where
  "isJsonObjectValue value = (case value of JObj _ \<Rightarrow> True | _ \<Rightarrow> False)"

definition isOptionalJsonObject :: "js_string option \<Rightarrow> bool" where
  "isOptionalJsonObject value =
     (case parseOptionalJson value of
        Inl _ \<Rightarrow> False | Inr None \<Rightarrow> True | Inr (Some parsed) \<Rightarrow> isJsonObjectValue parsed)"

definition isOptionalModelMapping :: "js_string option \<Rightarrow> bool" where
  "isOptionalModelMapping value =
     (case parseOptionalJson value of
        Inl _ \<Rightarrow> False
      | Inr None \<Rightarrow> True
      | Inr (Some (JObj ps)) \<Rightarrow> list_all (\<lambda>p. case snd p of JStr _ \<Rightarrow> True | _ \<Rightarrow> False) ps
      | Inr (Some _) \<Rightarrow> False)"

definition isStatusCode :: "jnum option \<Rightarrow> bool" where
  "isStatusCode code =
     (case code of
        None \<Rightarrow> False
      | Some x \<Rightarrow> (case num_int x of None \<Rightarrow> False | Some i \<Rightarrow> 100 \<le> i \<and> i \<le> 599))"

definition isOptionalStatusCodeMapping :: "js_string option \<Rightarrow> bool" where
  "isOptionalStatusCodeMapping value =
     (case parseOptionalJson value of
        Inl _ \<Rightarrow> False
      | Inr None \<Rightarrow> True
      | Inr (Some (JObj ps)) \<Rightarrow>
          list_all (\<lambda>(from, to). isStatusCode (string_to_number from) \<and> isStatusCode (json_to_number to)) ps
      | Inr (Some _) \<Rightarrow> False)"

definition isNonblankString :: "json option \<Rightarrow> bool" where
  "isNonblankString v = (case v of Some (JStr s) \<Rightarrow> 0 < length (trim s) | _ \<Rightarrow> False)"

definition isCodexCredential :: "js_string option \<Rightarrow> bool" where
  "isCodexCredential value =
     (case parseOptionalJson value of
        Inl _ \<Rightarrow> False
      | Inr None \<Rightarrow> True
      | Inr (Some parsed) \<Rightarrow>
          isJsonObjectValue parsed \<and> isNonblankString (json_prop parsed (js ''access_token''))
            \<and> isNonblankString (json_prop parsed (js ''account_id'')))"

definition isVertexJsonKey :: "js_string option \<Rightarrow> bool" where
  "isVertexJsonKey value =
     (case parseOptionalJson value of
        Inl _ \<Rightarrow> False
      | Inr None \<Rightarrow> True
      | Inr (Some (JArr xs)) \<Rightarrow> list_all isJsonObjectValue xs
      | Inr (Some parsed) \<Rightarrow> isJsonObjectValue parsed)"

text \<open>The preprocessing of an optional positive integer: \<open>Inl ()\<close> is the number \<open>NaN\<close>.\<close>

definition preprocessPositiveInt :: "json option \<Rightarrow> unit + json option" where
  "preprocessPositiveInt value =
     (case value of
        None \<Rightarrow> Inr None
      | Some JNull \<Rightarrow> Inr None
      | Some (JStr s) \<Rightarrow>
          if trim s = [] then Inr None
          else (case string_to_number (trim s) of None \<Rightarrow> Inl () | Some x \<Rightarrow> Inr (Some (JNum x)))
      | Some v \<Rightarrow> Inr (Some v))"

section \<open>Cross-field refinement\<close>

text \<open>\<open>[t1, ..., tn].includes(data.type)\<close>\<close>

definition type_in :: "obj \<Rightarrow> int list \<Rightarrow> bool" where
  "type_in data ts \<longleftrightarrow> obj_get data (js ''type'') \<in> set (map (\<lambda>t. Some (jint t)) ts)"

text \<open>\<open>data.multi_key_mode && data.multi_key_mode !== 'single'\<close>\<close>

definition not_single :: "obj \<Rightarrow> bool" where
  "not_single data \<longleftrightarrow>
     truthy_opt (obj_get data (js ''multi_key_mode''))
     \<and> obj_get data (js ''multi_key_mode'') \<noteq> Some (JStr (js ''single''))"

type_synonym issue = "js_string \<times> js_string"

definition superRefine :: "obj \<Rightarrow> issue list" where
  "superRefine data =
     (let key = str_of (obj_get data (js ''key''));
          vertex = obj_get data (js ''vertex_key_type'') in
      (if type_in data [3, 8, 36, 45] \<and> trim (str_of (obj_get data (js ''base_url''))) = []
       then [(js ''base_url'', js ''Base URL is required for this channel type'')] else [])
      @ (if type_in data [3, 18, 21, 39, 41, 49] \<and> trim (str_of (obj_get data (js ''other''))) = []
         then [(js ''other'', js ''This channel type requires additional configuration'')] else [])
      @ (if type_in data [57]
         then
           (if not_single data
            then [(js ''multi_key_mode'', js ''Codex channels do not support batch creation'')] else [])
           @ (if trim key \<noteq> [] \<and> \<not> isCodexCredential (Some key)
              then [(js ''key'',
                     js ''Codex credential must be a JSON object with access_token and account_id'')]
              else [])
         else [])
      @ (if type_in data [41] \<and> vertex = Some (JStr (js ''json'')) \<and> trim key \<noteq> []
            \<and> \<not> isVertexJsonKey (Some key)
         then [(js ''key'', js ''Vertex AI service account key must be valid JSON'')] else [])
      @ (if type_in data [41] \<and> vertex = Some (JStr (js ''api_key'')) \<and> not_single data
         then [(js ''multi_key_mode'', js ''Vertex AI API Key mode does not support batch creation'')]
         else []))"

section \<open>Default values\<close>

abbreviation jfalse :: json where
  "jfalse \<equiv> JBool False"

abbreviation jempty :: json where
  "jempty \<equiv> JStr []"

definition CHANNEL_FORM_DEFAULT_VALUES :: obj where
  "CHANNEL_FORM_DEFAULT_VALUES =
     [(js ''name'', jempty), (js ''type'', jint 1), (js ''base_url'', jempty), (js ''key'', jempty),
      (js ''openai_organization'', jempty), (js ''models'', jempty),
      (js ''group'', JArr [JStr (js ''default'')]), (js ''model_mapping'', jempty),
      (js ''priority'', jint 0), (js ''weight'', jint 0), (js ''test_model'', jempty),
      (js ''auto_ban'', jint 1), (js ''status'', jint 1), (js ''status_code_mapping'', jempty),
      (js ''tag'', jempty), (js ''remark'', jempty), (js ''setting'', jempty),
      (js ''param_override'', jempty), (js ''header_override'', jempty),
      (js ''settings'', JStr (js ''{}'')), (js ''other'', jempty),
      (js ''multi_key_mode'', JStr (js ''single'')), (js ''multi_key_type'', JStr (js ''random'')),
      (js ''batch_add_set_key_prefix_2_name'', jfalse), (js ''key_mode'', JStr (js ''append'')),
      (js ''force_format'', jfalse), (js ''thinking_to_content'', jfalse), (js ''proxy'', jempty),
      (js ''pass_through_body_enabled'', jfalse), (js ''system_prompt'', jempty),
      (js ''system_prompt_override'', jfalse),
      (js ''is_enterprise_account'', jfalse), (js ''vertex_key_type'', JStr (js ''json'')),
      (js ''aws_key_type'', JStr (js ''ak_sk'')), (js ''azure_responses_version'', jempty),
      (js ''allow_service_tier'', jfalse), (js ''disable_store'', jfalse),
      (js ''allow_safety_identifier'', jfalse), (js ''allow_include_obfuscation'', jfalse),
      (js ''allow_inference_geo'', jfalse), (js ''allow_speed'', jfalse),
      (js ''claude_beta_query'', jfalse), (js ''upstream_model_update_check_enabled'', jfalse),
      (js ''upstream_model_update_auto_sync_enabled'', jfalse),
      (js ''upstream_model_update_ignored_models'', jempty)]"

section \<open>Lists\<close>

definition parseModels :: "js_string \<Rightarrow> js_string list" where
  "parseModels models =
     (if models = [] then [] else filter (\<lambda>m. 0 < length m) (map trim (split_on 44 models)))"

definition parseGroups :: "js_string \<Rightarrow> js_string list" where
  "parseGroups groups =
     (if groups = [] then [] else filter (\<lambda>g. 0 < length g) (map trim (split_on 44 groups)))"

definition formatModels :: "js_string list \<Rightarrow> js_string" where
  "formatModels models = join [44] models"

definition formatGroups :: "js_string list \<Rightarrow> js_string" where
  "formatGroups groups = join [44] groups"

definition validateJSON :: "js_string \<Rightarrow> bool" where
  "validateJSON value = (if value = [] \<or> trim value = [] then True else json_parse value \<noteq> None)"

definition validateModelMapping :: "js_string \<Rightarrow> bool" where
  "validateModelMapping value = (if value = [] \<or> trim value = [] then True else validateJSON value)"

section \<open>From a channel to the form\<close>

text \<open>\<open>JSON.parse(x)\<close> for a truthy property \<open>x\<close>. Reading a property of the result throws when it is
  \<open>null\<close>; like a syntax error this is caught and leaves the initial values.\<close>

definition parse_field :: "json option \<Rightarrow> json option" where
  "parse_field x =
     (if truthy_opt x
      then (case json_parse (json_to_string (the x)) of Some JNull \<Rightarrow> None | r \<Rightarrow> r) else None)"

definition extraSettings :: "json option \<Rightarrow> (js_string \<times> json option) list" where
  "extraSettings setting =
     (case parse_field setting of
        None \<Rightarrow>
          [(js ''force_format'', Some jfalse), (js ''thinking_to_content'', Some jfalse),
           (js ''proxy'', Some jempty), (js ''pass_through_body_enabled'', Some jfalse),
           (js ''system_prompt'', Some jempty), (js ''system_prompt_override'', Some jfalse),
           (js ''non_stream_timeout_seconds'', None), (js ''stream_first_byte_timeout_seconds'', None),
           (js ''aws_invoke_timeout_seconds'', None), (js ''aws_sdk_max_attempts'', None)]
      | Some parsed \<Rightarrow>
          (let p = json_prop parsed in
           [(js ''force_format'', Some (js_or (p (js ''force_format'')) jfalse)),
            (js ''thinking_to_content'', Some (js_or (p (js ''thinking_to_content'')) jfalse)),
            (js ''proxy'', Some (js_or (p (js ''proxy'')) jempty)),
            (js ''pass_through_body_enabled'', Some (js_or (p (js ''pass_through_body_enabled'')) jfalse)),
            (js ''system_prompt'', Some (js_or (p (js ''system_prompt'')) jempty)),
            (js ''system_prompt_override'', Some (js_or (p (js ''system_prompt_override'')) jfalse)),
            (js ''non_stream_timeout_seconds'', number_or_undefined (p (js ''non_stream_timeout_seconds''))),
            (js ''stream_first_byte_timeout_seconds'',
              number_or_undefined (p (js ''stream_first_byte_timeout_seconds''))),
            (js ''aws_invoke_timeout_seconds'', number_or_undefined (p (js ''aws_invoke_timeout_seconds''))),
            (js ''aws_sdk_max_attempts'', number_or_undefined (p (js ''aws_sdk_max_attempts'')))]))"

text \<open>The properties of the form read from the JSON in \<open>channel.settings\<close>, in the order of the returned
  literal.\<close>

definition typeSettings :: "json option \<Rightarrow> (js_string \<times> json option) list" where
  "typeSettings settings =
     (let parsed = parse_field settings;
          p = (\<lambda>k. opt_prop parsed (js k));
          flag = (\<lambda>k. Some (JBool (is_true (p k)))) in
      [(js ''is_enterprise_account'', flag ''openrouter_enterprise''),
       (js ''vertex_key_type'', Some (js_or (p ''vertex_key_type'') (JStr (js ''json'')))),
       (js ''azure_responses_version'', Some (js_or (p ''azure_responses_version'') jempty)),
       (js ''aws_key_type'', Some (js_or (p ''aws_key_type'') (JStr (js ''ak_sk'')))),
       (js ''allow_service_tier'', flag ''allow_service_tier''),
       (js ''disable_store'', flag ''disable_store''),
       (js ''allow_include_obfuscation'', flag ''allow_include_obfuscation''),
       (js ''allow_inference_geo'', flag ''allow_inference_geo''),
       (js ''allow_speed'', flag ''allow_speed''),
       (js ''claude_beta_query'', flag ''claude_beta_query''),
       (js ''allow_safety_identifier'', flag ''allow_safety_identifier''),
       (js ''upstream_model_update_check_enabled'', flag ''upstream_model_update_check_enabled''),
       (js ''upstream_model_update_auto_sync_enabled'', flag ''upstream_model_update_auto_sync_enabled''),
       (js ''upstream_model_update_ignored_models'',
         Some (case p ''upstream_model_update_ignored_models'' of
                 Some (JArr xs) \<Rightarrow> JStr (json_to_string (JArr xs)) | _ \<Rightarrow> jempty))])"

text \<open>The literal \<open>transformChannelToFormDefaults\<close> returns.\<close>

definition formFields :: "obj \<Rightarrow> (js_string \<times> json option) list" where
  "formFields channel =
     (let c = (\<lambda>k. obj_get channel (js k)); text = (\<lambda>k. Some (js_or (c k) jempty)) in
      [(js ''name'', text ''name''), (js ''type'', c ''type''), (js ''base_url'', text ''base_url''),
       (js ''key'', Some jempty), (js ''openai_organization'', text ''openai_organization''),
       (js ''models'', text ''models''),
       (js ''group'', Some (JArr (map JStr (parseGroups
          (json_to_string (js_or (c ''group'') (JStr (js ''default'')))))))),
       (js ''model_mapping'', text ''model_mapping''),
       (js ''priority'', Some (js_or (c ''priority'') (jint 0))),
       (js ''weight'', Some (js_or (c ''weight'') (jint 0))),
       (js ''test_model'', text ''test_model''),
       (js ''auto_ban'', Some (js_nullish (c ''auto_ban'') (jint 1))), (js ''status'', c ''status''),
       (js ''status_code_mapping'', text ''status_code_mapping''), (js ''tag'', text ''tag''),
       (js ''remark'', text ''remark''), (js ''setting'', text ''setting''),
       (js ''param_override'', text ''param_override''),
       (js ''header_override'', text ''header_override''),
       (js ''settings'', Some (js_or (c ''settings'') (JStr (js ''{}'')))),
       (js ''other'', text ''other''), (js ''multi_key_mode'', Some (JStr (js ''single''))),
       (js ''multi_key_type'',
         Some (js_or (opt_prop (c ''channel_info'') (js ''multi_key_mode'')) (JStr (js ''random'')))),
       (js ''batch_add_set_key_prefix_2_name'', Some jfalse), (js ''key_mode'', Some (JStr (js ''append'')))]
      @ extraSettings (c ''setting'') @ typeSettings (c ''settings''))"

text \<open>\<open>None\<close> is the \<open>TypeError\<close> for a channel without \<open>channel_info\<close>.\<close>

definition transformChannelToFormDefaults :: "obj \<Rightarrow> obj option" where
  "transformChannelToFormDefaults channel =
     (if obj_get channel (js ''channel_info'') = None \<or> obj_get channel (js ''channel_info'') = Some JNull
      then None else Some (obj_lit (formFields channel)))"

section \<open>From the form to the payloads\<close>

definition settingObj :: "obj \<Rightarrow> obj" where
  "settingObj formData =
     (let f = (\<lambda>k. obj_get formData (js k)) in
      obj_lit
       [(js ''force_format'', Some (js_or (f ''force_format'') jfalse)),
        (js ''thinking_to_content'', Some (js_or (f ''thinking_to_content'') jfalse)),
        (js ''proxy'', Some (js_or (f ''proxy'') jempty)),
        (js ''pass_through_body_enabled'', Some (js_or (f ''pass_through_body_enabled'') jfalse)),
        (js ''system_prompt'', Some (js_or (f ''system_prompt'') jempty)),
        (js ''system_prompt_override'', Some (js_or (f ''system_prompt_override'') jfalse)),
        (js ''non_stream_timeout_seconds'', f ''non_stream_timeout_seconds''),
        (js ''stream_first_byte_timeout_seconds'', f ''stream_first_byte_timeout_seconds''),
        (js ''aws_invoke_timeout_seconds'', f ''aws_invoke_timeout_seconds''),
        (js ''aws_sdk_max_attempts'', f ''aws_sdk_max_attempts'')])"

definition buildSettingJSON :: "obj \<Rightarrow> js_string" where
  "buildSettingJSON formData = json_stringify (JObj (settingObj formData))"

text \<open>\<open>settingsObj.k = v\<close> under a condition, and otherwise \<open>delete settingsObj.k\<close> when it is present.\<close>

definition set_or_delete :: "bool \<Rightarrow> string \<Rightarrow> json \<Rightarrow> obj \<Rightarrow> obj" where
  "set_or_delete c k v o' =
     (if c then obj_set o' (js k) v
      else if obj_has o' (js k) then obj_delete o' (js k) else o')"

definition MODEL_FETCHABLE_TYPES :: "int list" where
  "MODEL_FETCHABLE_TYPES = [1, 4, 14, 17, 20, 23, 24, 25, 26, 27, 31, 34, 35, 40, 42, 43, 47, 48]"

text \<open>The assignments and deletions of \<open>buildSettingsJSON\<close> on the type-specific keys in their order, and
  its part on the upstream keys.\<close>

definition typeSteps :: "obj \<Rightarrow> (bool \<times> string \<times> json) list" where
  "typeSteps formData =
     (let f = (\<lambda>k. obj_get formData (js k));
          t = (\<lambda>n. type_in formData [n]);
          flag = (\<lambda>k. JBool (is_true (f k))) in
      [(t 41, ''vertex_key_type'', js_or (f ''vertex_key_type'') (JStr (js ''json''))),
       (t 3 \<and> truthy_opt (f ''azure_responses_version''), ''azure_responses_version'',
         the (f ''azure_responses_version'')),
       (t 20, ''openrouter_enterprise'', flag ''is_enterprise_account''),
       (t 33, ''aws_key_type'', js_or (f ''aws_key_type'') (JStr (js ''ak_sk''))),
       (t 1 \<or> t 14, ''allow_service_tier'', flag ''allow_service_tier''),
       (t 1, ''disable_store'', flag ''disable_store''),
       (t 1, ''allow_safety_identifier'', flag ''allow_safety_identifier''),
       (t 1, ''allow_include_obfuscation'', flag ''allow_include_obfuscation'')]
      @ (if t 1 \<or> \<not> t 14 then [(t 1, ''allow_inference_geo'', flag ''allow_inference_geo'')] else [])
      @ (if t 14 then [(True, ''allow_inference_geo'', flag ''allow_inference_geo'')] else [])
      @ [(t 14, ''allow_speed'', flag ''allow_speed''),
         (t 14, ''claude_beta_query'', flag ''claude_beta_query'')])"

definition typeKeys :: "obj \<Rightarrow> obj \<Rightarrow> obj" where
  "typeKeys formData s0 = foldl (\<lambda>s (c, k, v). set_or_delete c k v s) s0 (typeSteps formData)"

definition upstreamKeys :: "obj \<Rightarrow> obj \<Rightarrow> obj" where
  "upstreamKeys formData s0 =
     (let f = (\<lambda>k. obj_get formData (js k)) in
      if type_in formData MODEL_FETCHABLE_TYPES
      then
        (let s1 = obj_set s0 (js ''upstream_model_update_check_enabled'')
                    (JBool (is_true (f ''upstream_model_update_check_enabled'')));
             s2 = obj_set s1 (js ''upstream_model_update_auto_sync_enabled'')
                    (JBool (is_true (obj_get s1 (js ''upstream_model_update_check_enabled''))
                            \<and> is_true (f ''upstream_model_update_auto_sync_enabled'')));
             s3 = obj_set s2 (js ''upstream_model_update_ignored_models'')
                    (JArr (map JStr (js_set (filter_truthy (map trim (split_on 44
                       (json_to_string (js_or (f ''upstream_model_update_ignored_models'') jempty))))))));
             s4 = (if \<not> (case obj_get s3 (js ''upstream_model_update_last_detected_models'') of
                           Some (JArr _) \<Rightarrow> True | _ \<Rightarrow> False)
                      \<or> \<not> is_true (obj_get s3 (js ''upstream_model_update_check_enabled''))
                   then obj_set s3 (js ''upstream_model_update_last_detected_models'') (JArr []) else s3) in
         if number_or_undefined (obj_get s4 (js ''upstream_model_update_last_check_time'')) = None
         then obj_set s4 (js ''upstream_model_update_last_check_time'') (jint 0) else s4)
      else s0)"

text \<open>\<open>None\<close> is the \<open>TypeError\<close> raised when the parsed text is a primitive value or \<open>null\<close>. The named
  properties added to an array are not printed.\<close>

definition parsedSettings :: "json option \<Rightarrow> json" where
  "parsedSettings settings =
     (if truthy_opt settings \<and> settings \<noteq> Some (JStr (js ''{}''))
      then (case json_parse (json_to_string (the settings)) of None \<Rightarrow> JObj [] | Some v \<Rightarrow> v)
      else JObj [])"

definition buildSettingsJSON :: "obj \<Rightarrow> js_string option" where
  "buildSettingsJSON formData =
     (case parsedSettings (obj_get formData (js ''settings'')) of
        JObj ps \<Rightarrow> Some (json_stringify (JObj (upstreamKeys formData (typeKeys formData ps))))
      | JArr xs \<Rightarrow> Some (json_stringify (JArr xs))
      | _ \<Rightarrow> None)"

definition normalizeBaseUrl :: "json option \<Rightarrow> js_string" where
  "normalizeBaseUrl value =
     rev (dropWhile (\<lambda>c. c = 47) (rev (trim (json_to_string (js_or value jempty)))))"

definition group_names :: "json option \<Rightarrow> js_string list" where
  "group_names v = (case v of Some (JArr xs) \<Rightarrow> map json_to_string xs | _ \<Rightarrow> [])"

text \<open>The loop that turns empty strings into \<open>null\<close>.\<close>

definition clean_empty :: "obj \<Rightarrow> obj" where
  "clean_empty o' = map (\<lambda>(k, v). (k, if v = jempty then JNull else v)) o'"

record create_payload =
  pl_mode :: json
  pl_multi_key_mode :: "json option"
  pl_batch_add_set_key_prefix_2_name :: "json option"
  pl_channel :: obj

text \<open>The literals of the two payloads, given the printed settings, and the assignments that follow the
  clean-up in an update.\<close>

definition createFields :: "obj \<Rightarrow> js_string \<Rightarrow> (js_string \<times> json option) list" where
  "createFields formData settings =
     (let f = (\<lambda>k. obj_get formData (js k)); nullable = (\<lambda>k. Some (js_or (f k) JNull)) in
      [(js ''name'', f ''name''), (js ''type'', f ''type''),
       (js ''base_url'', Some (js_or (Some (JStr (normalizeBaseUrl (f ''base_url'')))) JNull)),
       (js ''key'', f ''key''), (js ''openai_organization'', nullable ''openai_organization''),
       (js ''models'', f ''models''), (js ''group'', Some (JStr (formatGroups (group_names (f ''group''))))),
       (js ''model_mapping'', nullable ''model_mapping''), (js ''priority'', nullable ''priority''),
       (js ''weight'', nullable ''weight''), (js ''test_model'', nullable ''test_model''),
       (js ''auto_ban'', Some (js_nullish (f ''auto_ban'') (jint 1))), (js ''status'', f ''status''),
       (js ''status_code_mapping'', nullable ''status_code_mapping''), (js ''tag'', nullable ''tag''),
       (js ''remark'', Some (js_or (f ''remark'') jempty)),
       (js ''setting'', Some (JStr (buildSettingJSON formData))),
       (js ''param_override'', nullable ''param_override''),
       (js ''header_override'', nullable ''header_override''),
       (js ''settings'', Some (JStr settings)), (js ''other'', Some (js_or (f ''other'') jempty))])"

definition transformFormDataToCreatePayload :: "obj \<Rightarrow> create_payload option" where
  "transformFormDataToCreatePayload formData =
     (let f = (\<lambda>k. obj_get formData (js k));
          mode = js_or (f ''multi_key_mode'') (JStr (js ''single'')) in
      case buildSettingsJSON formData of
        None \<Rightarrow> None
      | Some settings \<Rightarrow>
          Some \<lparr>pl_mode = mode,
            pl_multi_key_mode = (if mode = JStr (js ''multi_to_single'') then f ''multi_key_type'' else None),
            pl_batch_add_set_key_prefix_2_name =
              (if mode = JStr (js ''batch'') then f ''batch_add_set_key_prefix_2_name'' else None),
            pl_channel = clean_empty (obj_lit (createFields formData settings))\<rparr>)"

definition updateFields :: "obj \<Rightarrow> js_string \<Rightarrow> int \<Rightarrow> (js_string \<times> json option) list" where
  "updateFields formData settings channelId =
     (let f = (\<lambda>k. obj_get formData (js k)); nullable = (\<lambda>k. Some (js_or (f k) JNull)) in
      [(js ''id'', Some (jint channelId)), (js ''name'', f ''name''), (js ''type'', f ''type''),
       (js ''base_url'', Some (js_or (Some (JStr (normalizeBaseUrl (f ''base_url'')))) JNull)),
       (js ''openai_organization'', nullable ''openai_organization''), (js ''models'', f ''models''),
       (js ''group'', Some (JStr (formatGroups (group_names (f ''group''))))),
       (js ''model_mapping'', nullable ''model_mapping''),
       (js ''priority'', Some (js_nullish (f ''priority'') (jint 0))),
       (js ''weight'', Some (js_nullish (f ''weight'') (jint 0))),
       (js ''test_model'', nullable ''test_model''),
       (js ''auto_ban'', Some (js_nullish (f ''auto_ban'') (jint 1))), (js ''status'', f ''status''),
       (js ''status_code_mapping'', nullable ''status_code_mapping''), (js ''tag'', nullable ''tag''),
       (js ''remark'', Some (js_or (f ''remark'') jempty)),
       (js ''setting'', Some (JStr (buildSettingJSON formData))),
       (js ''param_override'', nullable ''param_override''),
       (js ''header_override'', nullable ''header_override''),
       (js ''settings'', Some (JStr settings)), (js ''other'', Some (js_or (f ''other'') jempty))])"

definition explicitFields :: "obj \<Rightarrow> (js_string \<times> json) list" where
  "explicitFields formData =
     (let text = (\<lambda>k. js_or (obj_get formData (js k)) jempty) in
      [(js ''base_url'', JStr (normalizeBaseUrl (obj_get formData (js ''base_url'')))),
       (js ''openai_organization'', text ''openai_organization''), (js ''test_model'', text ''test_model''),
       (js ''tag'', text ''tag''), (js ''remark'', text ''remark''), (js ''model_mapping'', text ''model_mapping''),
       (js ''status_code_mapping'', text ''status_code_mapping''),
       (js ''param_override'', text ''param_override''), (js ''header_override'', text ''header_override'')])"

definition transformFormDataToUpdatePayload :: "obj \<Rightarrow> int \<Rightarrow> obj option" where
  "transformFormDataToUpdatePayload formData channelId =
     (case buildSettingsJSON formData of
        None \<Rightarrow> None
      | Some settings \<Rightarrow>
          (let payload = obj_lit (updateFields formData settings channelId);
               key = obj_get formData (js ''key'');
               p1 = (if trim (str_of key) \<noteq> [] then obj_set payload (js ''key'') (the key) else payload) in
           Some (obj_spread (clean_empty p1) (explicitFields formData))))"

section \<open>Reading a form\<close>

lemma js_or_None [simp]: "js_or None d = d"
  by (simp add: js_or_def truthy_opt_def)

lemma extraSettings_keys:
  "map fst (extraSettings x) =
     [js ''force_format'', js ''thinking_to_content'', js ''proxy'', js ''pass_through_body_enabled'',
      js ''system_prompt'', js ''system_prompt_override'', js ''non_stream_timeout_seconds'',
      js ''stream_first_byte_timeout_seconds'', js ''aws_invoke_timeout_seconds'', js ''aws_sdk_max_attempts'']"
  by (simp add: extraSettings_def Let_def split: option.split)

text \<open>The properties read from an absent or unparsable setting are those read from an empty object.\<close>

lemma extraSettings_eq:
  "extraSettings x =
     (let p = opt_prop (parse_field x) in
      [(js ''force_format'', Some (js_or (p (js ''force_format'')) jfalse)),
       (js ''thinking_to_content'', Some (js_or (p (js ''thinking_to_content'')) jfalse)),
       (js ''proxy'', Some (js_or (p (js ''proxy'')) jempty)),
       (js ''pass_through_body_enabled'', Some (js_or (p (js ''pass_through_body_enabled'')) jfalse)),
       (js ''system_prompt'', Some (js_or (p (js ''system_prompt'')) jempty)),
       (js ''system_prompt_override'', Some (js_or (p (js ''system_prompt_override'')) jfalse)),
       (js ''non_stream_timeout_seconds'', number_or_undefined (p (js ''non_stream_timeout_seconds''))),
       (js ''stream_first_byte_timeout_seconds'',
         number_or_undefined (p (js ''stream_first_byte_timeout_seconds''))),
       (js ''aws_invoke_timeout_seconds'', number_or_undefined (p (js ''aws_invoke_timeout_seconds''))),
       (js ''aws_sdk_max_attempts'', number_or_undefined (p (js ''aws_sdk_max_attempts'')))])"
  by (simp add: extraSettings_def Let_def opt_prop_def number_or_undefined_def split: option.split)

lemma distinct_formFields: "distinct (map fst (formFields chan))"
  by (simp add: formFields_def Let_def extraSettings_eq typeSettings_def)

lemma form_get:
  "transformChannelToFormDefaults chan = Some f \<Longrightarrow>
   obj_get f k = (case obj_get (formFields chan) k of None \<Rightarrow> None | Some v \<Rightarrow> v)"
  by (auto simp: transformChannelToFormDefaults_def obj_get_obj_lit distinct_formFields split: if_splits)

lemmas form_eval = form_get formFields_def Let_def extraSettings_eq typeSettings_def

section \<open>The settings object\<close>

lemma get_set_or_delete [simp]:
  "obj_get (set_or_delete c k v s) k' =
     (if k' = js k then (if c then Some v else None) else obj_get s k')"
  by (auto simp: set_or_delete_def obj_has_def)

lemma set_or_delete_id:
  "obj_get s (js k) = (if c then Some v else None) \<Longrightarrow> set_or_delete c k v s = s"
  by (simp add: set_or_delete_def obj_has_def obj_set_same split: if_splits)

lemma set_or_delete_ok:
  "json_ok (JObj s) \<Longrightarrow> plain_key (js k) \<Longrightarrow> (c \<Longrightarrow> json_ok v) \<Longrightarrow> json_ok (JObj (set_or_delete c k v s))"
  by (simp add: set_or_delete_def json_ok_set json_ok_delete del: json_ok.simps)

text \<open>The types whose settings carry a key, and the keys the form manages.\<close>

definition owner_types :: "(string \<times> int list) list" where
  "owner_types =
     [(''vertex_key_type'', [41]), (''openrouter_enterprise'', [20]), (''aws_key_type'', [33]),
      (''allow_service_tier'', [1, 14]), (''disable_store'', [1]), (''allow_safety_identifier'', [1]),
      (''allow_include_obfuscation'', [1]), (''allow_inference_geo'', [1, 14]), (''allow_speed'', [14]),
      (''claude_beta_query'', [14])]"

definition upstream_keys :: "string list" where
  "upstream_keys =
     [''upstream_model_update_check_enabled'', ''upstream_model_update_auto_sync_enabled'',
      ''upstream_model_update_ignored_models'', ''upstream_model_update_last_detected_models'',
      ''upstream_model_update_last_check_time'']"

lemma type_in_or: "type_in f [a, b] \<longleftrightarrow> type_in f [a] \<or> type_in f [b]"
  by (auto simp: type_in_def)

lemma typeKeys_owner:
  "list_all (\<lambda>(k, ts). obj_has (typeKeys f s) (js k) = type_in f ts) owner_types"
  by (simp add: owner_types_def typeKeys_def typeSteps_def Let_def obj_has_def type_in_or)

lemma typeKeys_azure:
  "obj_get (typeKeys f s) (js ''azure_responses_version'') =
     (if type_in f [3] \<and> truthy_opt (obj_get f (js ''azure_responses_version''))
      then obj_get f (js ''azure_responses_version'') else None)"
  by (auto simp: typeKeys_def typeSteps_def Let_def truthy_opt_def split: option.splits)

lemma typeKeys_other:
  "k \<notin> js ` fst ` set owner_types \<Longrightarrow> k \<noteq> js ''azure_responses_version'' \<Longrightarrow>
   obj_get (typeKeys f s) k = obj_get s k"
  by (simp add: owner_types_def typeKeys_def typeSteps_def Let_def)

lemma upstreamKeys_other:
  "k \<notin> js ` set upstream_keys \<Longrightarrow> obj_get (upstreamKeys f s) k = obj_get s k"
  by (simp add: upstream_keys_def upstreamKeys_def Let_def)

end
