(* ===== verification/ChannelFormReload.thy ===== *)
theory ChannelFormReload
  imports ChannelForm
begin

text \<open>
  The form loaded from a saved channel writes the same two JSON columns again.
\<close>

section \<open>Saving and loading again\<close>

definition values_ok :: "obj \<Rightarrow> bool" where
  "values_ok f \<longleftrightarrow> list_all (\<lambda>p. json_ok (snd p)) f"

lemma values_ok_get: "values_ok f \<Longrightarrow> obj_get f k = Some v \<Longrightarrow> json_ok v"
  by (auto simp: values_ok_def list_all_iff dest!: obj_get_mem)

lemma json_ok_js_or: "values_ok f \<Longrightarrow> json_ok d \<Longrightarrow> json_ok (js_or (obj_get f k) d)"
  by (auto simp: js_or_def truthy_opt_def values_ok_get split: option.splits)

lemma json_ok_the: "values_ok f \<Longrightarrow> truthy_opt (obj_get f k) \<Longrightarrow> json_ok (the (obj_get f k))"
  by (auto simp: truthy_opt_def values_ok_get split: option.splits)

lemma json_ok_jint: "json_ok (jint n)"
  by (simp add: num_of_int_def num_ok_normalise)

lemma typeKeys_ok: "values_ok f \<Longrightarrow> json_ok (JObj s) \<Longrightarrow> json_ok (JObj (typeKeys f s))"
proof -
  assume f: "values_ok f"
  have "list_all (\<lambda>(c, k, v). plain_key (js k) \<and> (c \<longrightarrow> json_ok v)) (typeSteps f)"
    using f by (auto simp: typeSteps_def Let_def json_ok_js_or json_ok_the is_digit_def)
  moreover have "list_all (\<lambda>(c, k, v). plain_key (js k) \<and> (c \<longrightarrow> json_ok v)) steps \<Longrightarrow> json_ok (JObj s) \<Longrightarrow>
      json_ok (JObj (foldl (\<lambda>s (c, k, v). set_or_delete c k v s) s steps))" for steps
    by (induction steps arbitrary: s) (auto simp: set_or_delete_ok simp del: json_ok.simps(6))
  ultimately have "json_ok (JObj s) \<Longrightarrow> json_ok (JObj (foldl (\<lambda>s (c, k, v). set_or_delete c k v s) s (typeSteps f)))"
    by blast
  then show "json_ok (JObj s) \<Longrightarrow> json_ok (JObj (typeKeys f s))" by (simp only: typeKeys_def)
qed

lemma json_ok_parse_list: "str_ok s \<Longrightarrow> json_ok (JArr (map JStr (js_set (parse_list c s))))"
proof -
  assume ok: "str_ok s"
  have "str_ok x" if x: "x \<in> set (parse_list c s)" for x
  proof -
    obtain p where p: "p \<in> set (split_on c s)" "x = trim p" using x by (auto simp: set_parse_list)
    have "set p \<subseteq> set s" using p(1)
    proof (induction s arbitrary: p)
      case (Cons y s)
      obtain q qs where "split_on c s = q # qs" by (cases "split_on c s") auto
      with Cons show ?case by (fastforce split: if_splits)
    qed simp
    with p(2) set_trim_subset [of p] show ?thesis by (intro str_ok_subset [OF ok]) auto
  qed
  then show ?thesis by (auto simp: list_all_iff)
qed

lemma json_ok_empty: "json_ok (JArr [])"
  by simp

lemma ignored_eq: "filter_truthy (map trim (split_on 44 s)) = parse_list 44 s"
  by (simp add: parse_list_def)

lemma upstreamKeys_ok: "values_ok f \<Longrightarrow> json_ok (JObj s) \<Longrightarrow> json_ok (JObj (upstreamKeys f s))"
  by (simp add: upstreamKeys_def Let_def json_ok_set json_ok_jint is_digit_def ignored_eq
      json_ok_parse_list json_to_string_ok json_ok_js_or json_ok_empty del: json_ok.simps(3,5,6))

text \<open>A form \<open>g\<close> loaded from the settings \<open>s\<close>, for the type of the form \<open>f\<close>.\<close>

definition reads_settings :: "obj \<Rightarrow> obj \<Rightarrow> obj \<Rightarrow> bool" where
  "reads_settings g f s \<longleftrightarrow>
     obj_get g (js ''type'') = obj_get f (js ''type'')
     \<and> (\<exists>x. parse_field x = Some (JObj s) \<and>
          list_all (\<lambda>(k, v). obj_get g k = v) (typeSettings x))"

lemma typeKeys_get:
  "obj_get (typeKeys f s) (js ''vertex_key_type'') =
     (if type_in f [41] then Some (js_or (obj_get f (js ''vertex_key_type'')) (JStr (js ''json''))) else None)"
  "obj_get (typeKeys f s) (js ''openrouter_enterprise'') =
     (if type_in f [20] then Some (JBool (is_true (obj_get f (js ''is_enterprise_account'')))) else None)"
  "obj_get (typeKeys f s) (js ''aws_key_type'') =
     (if type_in f [33] then Some (js_or (obj_get f (js ''aws_key_type'')) (JStr (js ''ak_sk''))) else None)"
  "obj_get (typeKeys f s) (js ''allow_service_tier'') =
     (if type_in f [1, 14] then Some (JBool (is_true (obj_get f (js ''allow_service_tier'')))) else None)"
  "obj_get (typeKeys f s) (js ''disable_store'') =
     (if type_in f [1] then Some (JBool (is_true (obj_get f (js ''disable_store'')))) else None)"
  "obj_get (typeKeys f s) (js ''allow_safety_identifier'') =
     (if type_in f [1] then Some (JBool (is_true (obj_get f (js ''allow_safety_identifier'')))) else None)"
  "obj_get (typeKeys f s) (js ''allow_include_obfuscation'') =
     (if type_in f [1] then Some (JBool (is_true (obj_get f (js ''allow_include_obfuscation'')))) else None)"
  "obj_get (typeKeys f s) (js ''allow_inference_geo'') =
     (if type_in f [1, 14] then Some (JBool (is_true (obj_get f (js ''allow_inference_geo'')))) else None)"
  "obj_get (typeKeys f s) (js ''allow_speed'') =
     (if type_in f [14] then Some (JBool (is_true (obj_get f (js ''allow_speed'')))) else None)"
  "obj_get (typeKeys f s) (js ''claude_beta_query'') =
     (if type_in f [14] then Some (JBool (is_true (obj_get f (js ''claude_beta_query'')))) else None)"
  by (simp_all add: typeKeys_def typeSteps_def Let_def type_in_or)

lemma typeKeys_id:
  "list_all (\<lambda>(c, k, v). obj_get s (js k) = (if c then Some v else None)) (typeSteps f) \<Longrightarrow> typeKeys f s = s"
proof -
  have "list_all (\<lambda>(c, k, v). obj_get s (js k) = (if c then Some v else None)) steps \<Longrightarrow>
        foldl (\<lambda>s (c, k, v). set_or_delete c k v s) s steps = s" for steps
    by (induction steps) (auto simp: set_or_delete_id)
  then show "list_all (\<lambda>(c, k, v). obj_get s (js k) = (if c then Some v else None)) (typeSteps f) \<Longrightarrow> typeKeys f s = s"
    by (simp only: typeKeys_def)
qed

lemma typeKeys_reload:
  assumes "reads_settings g f s" and "s = upstreamKeys f (typeKeys f s0)"
  shows "typeKeys g s = s"
proof -
  have t: "type_in g ts = type_in f ts" for ts
    using assms(1) by (simp add: reads_settings_def type_in_def)
  obtain x where x: "parse_field x = Some (JObj s)" "list_all (\<lambda>(k, v). obj_get g k = v) (typeSettings x)"
    using assms(1) by (auto simp: reads_settings_def)
  have get: "obj_get s (js k) = obj_get (typeKeys f s0) (js k)" if "k \<notin> set upstream_keys" for k
    using upstreamKeys_other [of "js k" f "typeKeys f s0"] that assms(2) by (auto simp: image_iff)
  have keys: "obj_get s (js k) = obj_get (typeKeys f s0) (js k)"
    if "k \<in> set (''azure_responses_version'' # map fst owner_types)" for k
    using that by (intro get) (auto simp: owner_types_def upstream_keys_def)
  note sk = keys [of "''vertex_key_type''"] keys [of "''azure_responses_version''"]
    keys [of "''openrouter_enterprise''"] keys [of "''aws_key_type''"] keys [of "''allow_service_tier''"]
    keys [of "''disable_store''"] keys [of "''allow_safety_identifier''"]
    keys [of "''allow_include_obfuscation''"] keys [of "''allow_inference_geo''"]
    keys [of "''allow_speed''"] keys [of "''claude_beta_query''"]
  note vals = sk [unfolded typeKeys_get typeKeys_azure, unfolded owner_types_def, simplified]
  have g: "obj_get g (js ''is_enterprise_account'') = Some (JBool (is_true (obj_get s (js ''openrouter_enterprise''))))"
    "obj_get g (js ''vertex_key_type'') = Some (js_or (obj_get s (js ''vertex_key_type'')) (JStr (js ''json'')))"
    "obj_get g (js ''azure_responses_version'') = Some (js_or (obj_get s (js ''azure_responses_version'')) jempty)"
    "obj_get g (js ''aws_key_type'') = Some (js_or (obj_get s (js ''aws_key_type'')) (JStr (js ''ak_sk'')))"
    "obj_get g (js ''allow_service_tier'') = Some (JBool (is_true (obj_get s (js ''allow_service_tier''))))"
    "obj_get g (js ''disable_store'') = Some (JBool (is_true (obj_get s (js ''disable_store''))))"
    "obj_get g (js ''allow_include_obfuscation'') = Some (JBool (is_true (obj_get s (js ''allow_include_obfuscation''))))"
    "obj_get g (js ''allow_inference_geo'') = Some (JBool (is_true (obj_get s (js ''allow_inference_geo''))))"
    "obj_get g (js ''allow_speed'') = Some (JBool (is_true (obj_get s (js ''allow_speed''))))"
    "obj_get g (js ''claude_beta_query'') = Some (JBool (is_true (obj_get s (js ''claude_beta_query''))))"
    "obj_get g (js ''allow_safety_identifier'') = Some (JBool (is_true (obj_get s (js ''allow_safety_identifier''))))"
    using x(2) by (simp_all add: typeSettings_def Let_def x(1) opt_prop_def)
  have flag: "Some (JBool (is_true (Some (JBool (is_true x))))) = Some (JBool (is_true x))" for x
    by (simp add: is_true_def)
  have e: "obj_get s (js ''vertex_key_type'') = (if type_in f [41] then Some (js_or (obj_get g (js ''vertex_key_type'')) (JStr (js ''json''))) else None)"
    "obj_get s (js ''aws_key_type'') = (if type_in f [33] then Some (js_or (obj_get g (js ''aws_key_type'')) (JStr (js ''ak_sk''))) else None)"
    "obj_get s (js ''openrouter_enterprise'') = (if type_in f [20] then Some (JBool (is_true (obj_get g (js ''is_enterprise_account'')))) else None)"
    "obj_get s (js ''allow_service_tier'') = (if type_in f [1, 14] then Some (JBool (is_true (obj_get g (js ''allow_service_tier'')))) else None)"
    "obj_get s (js ''disable_store'') = (if type_in f [1] then Some (JBool (is_true (obj_get g (js ''disable_store'')))) else None)"
    "obj_get s (js ''allow_safety_identifier'') = (if type_in f [1] then Some (JBool (is_true (obj_get g (js ''allow_safety_identifier'')))) else None)"
    "obj_get s (js ''allow_include_obfuscation'') = (if type_in f [1] then Some (JBool (is_true (obj_get g (js ''allow_include_obfuscation'')))) else None)"
    "obj_get s (js ''allow_inference_geo'') = (if type_in f [1, 14] then Some (JBool (is_true (obj_get g (js ''allow_inference_geo'')))) else None)"
    "obj_get s (js ''allow_speed'') = (if type_in f [14] then Some (JBool (is_true (obj_get g (js ''allow_speed'')))) else None)"
    "obj_get s (js ''claude_beta_query'') = (if type_in f [14] then Some (JBool (is_true (obj_get g (js ''claude_beta_query'')))) else None)"
    by (simp_all add: vals g flag)
  have az: "obj_get s (js ''azure_responses_version'') =
      (if type_in f [3] \<and> truthy_opt (obj_get g (js ''azure_responses_version''))
       then Some (the (obj_get g (js ''azure_responses_version''))) else None)"
    by (auto simp: vals g js_or_def truthy_opt_def split: option.splits)
  show ?thesis
    by (rule typeKeys_id) (simp add: typeSteps_def Let_def t e az type_in_or)
qed

abbreviation ignored_models :: "obj \<Rightarrow> js_string list" where
  "ignored_models f \<equiv>
     js_set (parse_list 44 (json_to_string (js_or (obj_get f (js ''upstream_model_update_ignored_models'')) jempty)))"

lemma upstreamKeys_get:
  assumes "type_in f MODEL_FETCHABLE_TYPES"
  shows "obj_get (upstreamKeys f s) (js ''upstream_model_update_check_enabled'') =
      Some (JBool (is_true (obj_get f (js ''upstream_model_update_check_enabled''))))"
    and "obj_get (upstreamKeys f s) (js ''upstream_model_update_auto_sync_enabled'') =
      Some (JBool (is_true (obj_get f (js ''upstream_model_update_check_enabled''))
        \<and> is_true (obj_get f (js ''upstream_model_update_auto_sync_enabled''))))"
    and "obj_get (upstreamKeys f s) (js ''upstream_model_update_ignored_models'') =
      Some (JArr (map JStr (ignored_models f)))"
    and "\<exists>xs. obj_get (upstreamKeys f s) (js ''upstream_model_update_last_detected_models'') = Some (JArr xs)
      \<and> (is_true (obj_get f (js ''upstream_model_update_check_enabled'')) \<or> xs = [])"
    and "number_or_undefined (obj_get (upstreamKeys f s) (js ''upstream_model_update_last_check_time'')) \<noteq> None"
  using assms
  by (auto simp: upstreamKeys_def Let_def ignored_eq number_or_undefined_def is_true_def
      split: option.splits json.splits)

lemma join_map_json_to_string: "map (\<lambda>x. if x = JNull then [] else json_to_string x) (map JStr xs) = xs"
  by (induction xs) auto

lemma upstreamKeys_reload:
  assumes "reads_settings g f s" and "s = upstreamKeys f s0"
  shows "upstreamKeys g s = s"
proof (cases "type_in f MODEL_FETCHABLE_TYPES")
  case True
  note get = upstreamKeys_get [OF True, of s0, folded assms(2)]
  obtain xs where xs: "obj_get s (js ''upstream_model_update_last_detected_models'') = Some (JArr xs)"
    "is_true (obj_get f (js ''upstream_model_update_check_enabled'')) \<or> xs = []" using get(4) by blast
  have t: "type_in g MODEL_FETCHABLE_TYPES"
    using True assms(1) by (simp add: reads_settings_def type_in_def)
  obtain x where x: "parse_field x = Some (JObj s)" "list_all (\<lambda>(k, v). obj_get g k = v) (typeSettings x)"
    using assms(1) by (auto simp: reads_settings_def)
  have g: "obj_get g (js ''upstream_model_update_check_enabled'') =
      Some (JBool (is_true (obj_get s (js ''upstream_model_update_check_enabled''))))"
    "obj_get g (js ''upstream_model_update_auto_sync_enabled'') =
      Some (JBool (is_true (obj_get s (js ''upstream_model_update_auto_sync_enabled''))))"
    "obj_get g (js ''upstream_model_update_ignored_models'') = Some (JStr (join [44] (ignored_models f)))"
    using x(2) join_map_json_to_string [of "ignored_models f"]
    by (simp_all add: typeSettings_def Let_def x(1) opt_prop_def get(3) del: map_map)
  have ign: "ignored_models g = ignored_models f"
  proof -
    have "json_to_string (js_or (Some (JStr y)) jempty) = y" for y
      by (simp add: js_or_def truthy_opt_def)
    then show ?thesis
      by (simp add: g parse_list_join [OF parse_list_js_set])
  qed
  have flag: "is_true (Some (JBool b)) = b" for b by (simp add: is_true_def)
  have "obj_get s (js ''upstream_model_update_check_enabled'') =
      Some (JBool (is_true (obj_get g (js ''upstream_model_update_check_enabled''))))"
    by (simp add: g get(1) flag)
  then have 1: "obj_set s (js ''upstream_model_update_check_enabled'')
      (JBool (is_true (obj_get g (js ''upstream_model_update_check_enabled'')))) = s"
    by (rule obj_set_same)
  have 2: "obj_set s (js ''upstream_model_update_auto_sync_enabled'')
      (JBool (is_true (obj_get s (js ''upstream_model_update_check_enabled''))
        \<and> is_true (obj_get g (js ''upstream_model_update_auto_sync_enabled'')))) = s"
    by (rule obj_set_same) (simp add: g get flag)
  have 3: "obj_set s (js ''upstream_model_update_ignored_models'') (JArr (map JStr (ignored_models g))) = s"
    by (rule obj_set_same) (simp only: get(3) ign)
  have 4: "xs = [] \<Longrightarrow> obj_set s (js ''upstream_model_update_last_detected_models'') (JArr []) = s"
    by (rule obj_set_same) (simp add: xs)
  show ?thesis
    unfolding upstreamKeys_def Let_def ignored_eq 1 2 3
    using xs(2) 4 get(5) by (auto simp: t xs(1) get(1) flag)
next
  case False
  moreover have "type_in g ts = type_in f ts" for ts
    using assms(1) by (simp add: reads_settings_def type_in_def)
  ultimately show ?thesis by (simp add: upstreamKeys_def)
qed

lemma stringify_obj_ne: "json_stringify (JObj ps) \<noteq> []"
  by simp

lemma parsedSettings_stringify:
  assumes "json_ok (JObj ps)"
  shows "parsedSettings (Some (JStr (json_stringify (JObj ps)))) = JObj ps"
proof (cases "json_stringify (JObj ps) = js ''{}''")
  case True
  then have "json_stringify (JObj ps) = json_stringify (JObj [])" by (simp add: js_def)
  then have "Some (JObj ps) = Some (JObj [])"
    using json_parse_stringify [OF assms] json_parse_stringify [of "JObj []"] by (simp del: json_stringify.simps)
  with True show ?thesis by (simp add: parsedSettings_def del: json_stringify.simps)
next
  case False
  then show ?thesis
    using json_parse_stringify [OF assms] stringify_obj_ne [of ps]
    by (simp add: parsedSettings_def truthy_opt_def del: json_stringify.simps)
qed

lemma parse_field_stringify:
  "json_ok (JObj ps) \<Longrightarrow> parse_field (Some (JStr (json_stringify (JObj ps)))) = Some (JObj ps)"
  using json_parse_stringify [of "JObj ps"] stringify_obj_ne [of ps]
  by (simp add: parse_field_def truthy_opt_def del: json_stringify.simps json_ok.simps)

lemma json_ok_parsedSettings: "values_ok f \<Longrightarrow> json_ok (parsedSettings (obj_get f k))"
  by (auto simp: parsedSettings_def truthy_opt_def json_to_string_ok values_ok_get
      split: option.splits intro: json_parse_ok)

lemma obj_lit_reads: "distinct (map fst ps) \<Longrightarrow> list_all (\<lambda>(k, v). obj_get (obj_lit ps) k = v) ps"
proof -
  assume d: "distinct (map fst ps)"
  then have "(k, v) \<in> set ps \<Longrightarrow> obj_get ps k = Some v" for k v
    by (induction ps) (auto simp: rev_image_eqI)
  then show ?thesis by (auto simp: list_all_iff obj_get_obj_lit [OF d])
qed

lemma form_reads:
  assumes "transformChannelToFormDefaults chan = Some g"
  shows "list_all (\<lambda>(k, v). obj_get g k = v) (extraSettings (obj_get chan (js ''setting'')))"
    and "list_all (\<lambda>(k, v). obj_get g k = v) (typeSettings (obj_get chan (js ''settings'')))"
proof -
  have "g = obj_lit (formFields chan)"
    using assms by (simp add: transformChannelToFormDefaults_def split: if_splits)
  then have "list_all (\<lambda>(k, v). obj_get g k = v) (formFields chan)"
    using obj_lit_reads [OF distinct_formFields [of chan]] by simp
  then show "list_all (\<lambda>(k, v). obj_get g k = v) (extraSettings (obj_get chan (js ''setting'')))"
    and "list_all (\<lambda>(k, v). obj_get g k = v) (typeSettings (obj_get chan (js ''settings'')))"
    unfolding formFields_def Let_def by (simp_all only: list_all_append)
qed

lemma form_reads_settings:
  assumes "transformChannelToFormDefaults chan = Some g" and "parse_field (obj_get chan (js ''settings'')) = Some (JObj s)"
    and "obj_get chan (js ''type'') = obj_get f (js ''type'')"
  shows "reads_settings g f s"
proof -
  have "list_all (\<lambda>(k, v). obj_get g k = v) (typeSettings (obj_get chan (js ''settings'')))"
    by (rule form_reads [OF assms(1)])
  moreover have "obj_get g (js ''type'') = obj_get f (js ''type'')"
    using assms(3) by (simp add: form_get [OF assms(1)] formFields_def Let_def)
  ultimately show ?thesis using assms(2) by (auto simp: reads_settings_def)
qed

lemma settings_reload:
  assumes "values_ok f" and "buildSettingsJSON f = Some s"
    and "obj_get chan (js ''settings'') = Some (JStr s)"
    and "obj_get chan (js ''type'') = obj_get f (js ''type'')"
    and "transformChannelToFormDefaults chan = Some g"
  shows "buildSettingsJSON g = Some s"
proof -
  have gs: "obj_get g (js ''settings'') = Some (js_or (Some (JStr s)) (JStr (js ''{}'')))"
    using assms(3) by (simp add: form_get [OF assms(5)] formFields_def Let_def)
  have ok: "json_ok (parsedSettings (obj_get f (js ''settings'')))" by (rule json_ok_parsedSettings [OF assms(1)])
  consider (obj) ps where "parsedSettings (obj_get f (js ''settings'')) = JObj ps"
    | (arr) xs where "parsedSettings (obj_get f (js ''settings'')) = JArr xs"
    using assms(2) by (auto simp: buildSettingsJSON_def split: json.splits)
  then show ?thesis
  proof cases
    case obj
    let ?s1 = "upstreamKeys f (typeKeys f ps)"
    have s: "s = json_stringify (JObj ?s1)" using assms(2) obj by (simp add: buildSettingsJSON_def)
    have ok1: "json_ok (JObj ?s1)" using ok unfolding obj by (intro upstreamKeys_ok typeKeys_ok assms(1))
    have "reads_settings g f ?s1"
      by (rule form_reads_settings [OF assms(5) _ assms(4)])
        (simp only: assms(3) s parse_field_stringify [OF ok1])
    then have "upstreamKeys g (typeKeys g ?s1) = ?s1"
      by (simp add: typeKeys_reload upstreamKeys_reload)
    moreover have "obj_get g (js ''settings'') = Some (JStr s)"
      using gs stringify_obj_ne [of ?s1] by (simp add: js_or_def truthy_opt_def s del: json_stringify.simps)
    ultimately show ?thesis
      by (simp add: buildSettingsJSON_def s parsedSettings_stringify [OF ok1] del: json_stringify.simps)
  next
    case arr
    have s: "s = json_stringify (JArr xs)" using assms(2) arr by (simp add: buildSettingsJSON_def)
    have okx: "json_ok (JArr xs)" using ok arr by simp
    have "s \<noteq> []" "s \<noteq> js ''{}''" by (simp_all add: s js_def)
    moreover from this have "obj_get g (js ''settings'') = Some (JStr s)"
      using gs by (simp add: js_or_def truthy_opt_def)
    ultimately show ?thesis
      using json_parse_stringify [OF okx]
      by (simp add: buildSettingsJSON_def parsedSettings_def truthy_opt_def s del: json_stringify.simps)
  qed
qed

definition timeout_keys :: "string list" where
  "timeout_keys =
     [''non_stream_timeout_seconds'', ''stream_first_byte_timeout_seconds'', ''aws_invoke_timeout_seconds'',
      ''aws_sdk_max_attempts'']"

definition timeouts_numeric :: "obj \<Rightarrow> bool" where
  "timeouts_numeric f \<longleftrightarrow>
     list_all (\<lambda>k. number_or_undefined (obj_get f (js k)) = obj_get f (js k)) timeout_keys"

lemma values_ok_pred: "values_ok f \<Longrightarrow> pred_option json_ok (obj_get f k)"
  by (cases "obj_get f k") (auto simp: values_ok_get)

lemma json_ok_settingObj: "values_ok f \<Longrightarrow> json_ok (JObj (settingObj f))"
  unfolding settingObj_def Let_def
  by (rule json_ok_obj_lit) (simp_all add: json_ok_js_or is_digit_def values_ok_pred)

lemma settingObj_get:
  "obj_get (settingObj f) (js ''force_format'') = Some (js_or (obj_get f (js ''force_format'')) jfalse)"
  "obj_get (settingObj f) (js ''thinking_to_content'') = Some (js_or (obj_get f (js ''thinking_to_content'')) jfalse)"
  "obj_get (settingObj f) (js ''proxy'') = Some (js_or (obj_get f (js ''proxy'')) jempty)"
  "obj_get (settingObj f) (js ''pass_through_body_enabled'') =
     Some (js_or (obj_get f (js ''pass_through_body_enabled'')) jfalse)"
  "obj_get (settingObj f) (js ''system_prompt'') = Some (js_or (obj_get f (js ''system_prompt'')) jempty)"
  "obj_get (settingObj f) (js ''system_prompt_override'') =
     Some (js_or (obj_get f (js ''system_prompt_override'')) jfalse)"
  "obj_get (settingObj f) (js ''non_stream_timeout_seconds'') = obj_get f (js ''non_stream_timeout_seconds'')"
  "obj_get (settingObj f) (js ''stream_first_byte_timeout_seconds'') =
     obj_get f (js ''stream_first_byte_timeout_seconds'')"
  "obj_get (settingObj f) (js ''aws_invoke_timeout_seconds'') = obj_get f (js ''aws_invoke_timeout_seconds'')"
  "obj_get (settingObj f) (js ''aws_sdk_max_attempts'') = obj_get f (js ''aws_sdk_max_attempts'')"
  by (simp_all add: settingObj_def Let_def obj_get_obj_lit del: obj_lit_Some)

lemma setting_reload:
  assumes "values_ok f" and "timeouts_numeric f"
    and "obj_get chan (js ''setting'') = Some (JStr (buildSettingJSON f))"
    and "transformChannelToFormDefaults chan = Some g"
  shows "settingObj g = settingObj f"
proof -
  have "parse_field (obj_get chan (js ''setting'')) = Some (JObj (settingObj f))"
    using parse_field_stringify [OF json_ok_settingObj [OF assms(1)]] assms(3)
    by (simp add: buildSettingJSON_def del: json_stringify.simps)
  then have p: "opt_prop (parse_field (obj_get chan (js ''setting''))) = obj_get (settingObj f)"
    by (simp add: opt_prop_def fun_eq_iff)
  have g: "list_all (\<lambda>(k, v). obj_get g k = v) (extraSettings (obj_get chan (js ''setting'')))"
    by (rule form_reads [OF assms(4)])
  show ?thesis
    using g assms(2) unfolding extraSettings_eq Let_def p
    by (simp add: settingObj_get timeouts_numeric_def timeout_keys_def settingObj_def [of g]) (simp add: settingObj_def)
qed

end
