(* ===== verification/ChannelFormProps.thy ===== *)
theory ChannelFormProps
  imports ChannelFormReload
begin

text \<open>
  The payloads of the channel form, and the properties of the form.
\<close>

section \<open>Payloads\<close>

lemma obj_get_clean: "obj_get (clean_empty o') k = map_option (\<lambda>v. if v = jempty then JNull else v) (obj_get o' k)"
  by (induction o') (auto simp: clean_empty_def)

lemma buildSettingsJSON_object:
  "isOptionalJsonObject (Some s) \<Longrightarrow> obj_get f (js ''settings'') = Some (JStr s) \<Longrightarrow> buildSettingsJSON f \<noteq> None"
proof -
  assume s: "isOptionalJsonObject (Some s)" "obj_get f (js ''settings'') = Some (JStr s)"
  show ?thesis
  proof (cases "json_parse s")
    case None
    then show ?thesis using s(2) by (simp add: buildSettingsJSON_def parsedSettings_def truthy_opt_def)
  next
    case (Some v)
    have "\<exists>ps. v = JObj ps" if "trim s \<noteq> []"
      using s(1) Some that
      by (cases v) (auto simp: isOptionalJsonObject_def parseOptionalJson_def opt_str_def isJsonObjectValue_def)
    moreover have False if "trim s = []"
      using that Some json_parse_blank by simp
    ultimately obtain ps where "v = JObj ps" by blast
    then show ?thesis
      using s(2) Some by (auto simp: buildSettingsJSON_def parsedSettings_def truthy_opt_def)
  qed
qed

text \<open>The fields an update always sends as text, so that an emptied field is cleared.\<close>

definition text_fields :: "string list" where
  "text_fields =
     [''openai_organization'', ''test_model'', ''tag'', ''remark'', ''model_mapping'', ''status_code_mapping'',
      ''param_override'', ''header_override'']"

lemma distinct_updateFields: "distinct (map fst (updateFields f s n))"
  by (simp add: updateFields_def Let_def)

lemma distinct_explicitFields: "distinct (map fst (explicitFields f))"
  by (simp add: explicitFields_def Let_def)

text \<open>Reading the update payload.\<close>

lemma update_get:
  assumes "transformFormDataToUpdatePayload f n = Some p" and "buildSettingsJSON f = Some settings"
  shows "obj_get p k =
    (case obj_get (explicitFields f) k of
       Some v \<Rightarrow> Some v
     | None \<Rightarrow>
         map_option (\<lambda>v. if v = jempty then JNull else v)
           (if k = js ''key'' \<and> trim (str_of (obj_get f (js ''key''))) \<noteq> [] then obj_get f (js ''key'')
            else (case obj_get (updateFields f settings n) k of None \<Rightarrow> None | Some v \<Rightarrow> v)))"
proof -
  let ?key = "obj_get f (js ''key'')"
  have some: "trim (str_of ?key) \<noteq> [] \<Longrightarrow> Some (the ?key) = ?key"
    by (cases ?key) (auto simp: str_of_def)
  have "obj_get (explicitFields f) (js ''key'') = None" by (simp add: explicitFields_def Let_def)
  moreover have "p = obj_spread (clean_empty (if trim (str_of ?key) \<noteq> []
      then obj_set (obj_lit (updateFields f settings n)) (js ''key'') (the ?key)
      else obj_lit (updateFields f settings n))) (explicitFields f)"
    using assms by (simp add: transformFormDataToUpdatePayload_def Let_def)
  ultimately show ?thesis
    using some
    by (auto simp: obj_get_spread [OF distinct_explicitFields] obj_get_clean
        obj_get_obj_lit [OF distinct_updateFields] split: option.split)
qed

lemma update_settings:
  "transformFormDataToUpdatePayload f n = Some p \<Longrightarrow> \<exists>s. buildSettingsJSON f = Some s"
  by (auto simp: transformFormDataToUpdatePayload_def split: option.splits)

section \<open>Properties\<close>

text \<open>C3 Saving and loading again: when a channel holds the two JSON columns that saving a form \<open>f\<close> of
  the same type produced, the form \<open>g\<close> loaded from it produces the same two columns, so that opening
  and saving a channel without an edit changes neither.\<close>

theorem save_stable:
  assumes "values_ok f" and "timeouts_numeric f"
    and "buildSettingsJSON f = Some s"
    and "obj_get chan (js ''setting'') = Some (JStr (buildSettingJSON f))"
    and "obj_get chan (js ''settings'') = Some (JStr s)"
    and "obj_get chan (js ''type'') = obj_get f (js ''type'')"
    and "transformChannelToFormDefaults chan = Some g"
  shows "buildSettingJSON g = buildSettingJSON f \<and> buildSettingsJSON g = buildSettingsJSON f"
  using settings_reload [OF assms(1,3,5,6,7)] setting_reload [OF assms(1,2,4,7)] assms(3)
  by (simp add: buildSettingJSON_def)

definition demo_saved :: obj where
  "demo_saved =
     [(js ''type'', jint 1), (js ''channel_info'', JObj []),
      (js ''setting'', JStr (buildSettingJSON CHANNEL_FORM_DEFAULT_VALUES)),
      (js ''settings'', JStr (the (buildSettingsJSON CHANNEL_FORM_DEFAULT_VALUES)))]"

theorem save_stable_witness:
  "\<exists>g. transformChannelToFormDefaults demo_saved = Some g
     \<and> buildSettingJSON g = buildSettingJSON CHANNEL_FORM_DEFAULT_VALUES
     \<and> buildSettingsJSON g = buildSettingsJSON CHANNEL_FORM_DEFAULT_VALUES"
proof -
  let ?f = "CHANNEL_FORM_DEFAULT_VALUES"
  obtain g where g: "transformChannelToFormDefaults demo_saved = Some g"
    by (simp add: transformChannelToFormDefaults_def demo_saved_def)
  have "values_ok ?f"
    by (simp add: values_ok_def CHANNEL_FORM_DEFAULT_VALUES_def num_of_int_def num_ok_normalise)
  moreover have "timeouts_numeric ?f"
    by (simp add: timeouts_numeric_def timeout_keys_def CHANNEL_FORM_DEFAULT_VALUES_def number_or_undefined_def)
  moreover have "obj_get ?f (js ''settings'') = Some (JStr (js ''{}''))"
    and ty: "obj_get demo_saved (js ''type'') = obj_get ?f (js ''type'')"
    by (simp_all add: CHANNEL_FORM_DEFAULT_VALUES_def demo_saved_def)
  then obtain s where "buildSettingsJSON ?f = Some s"
    by (simp add: buildSettingsJSON_def parsedSettings_def del: json_stringify.simps)
  ultimately show ?thesis
    using save_stable [OF _ _ _ _ _ ty g] g by (simp add: demo_saved_def)
qed

text \<open>C26 Settings of a type: the printed settings of a form with an object in its settings are a JSON
  object in which a type-specific key is present exactly for the types it belongs to
  (\<open>azure_responses_version\<close>: for Azure with a version), and every key the form does not manage has the value it had before.\<close>

theorem settings_keys_by_type:
  assumes "values_ok f" and "parsedSettings (obj_get f (js ''settings'')) = JObj ps"
  shows "\<exists>s qs. buildSettingsJSON f = Some s \<and> json_parse s = Some (JObj qs)
    \<and> list_all (\<lambda>(k, ts). obj_has qs (js k) = type_in f ts) owner_types
    \<and> obj_has qs (js ''azure_responses_version'') =
        (type_in f [3] \<and> truthy_opt (obj_get f (js ''azure_responses_version'')))
    \<and> (\<forall>k. k \<in> js ` set (''azure_responses_version'' # map fst owner_types @ upstream_keys)
          \<or> obj_get qs k = obj_get ps k)"
proof -
  let ?q = "upstreamKeys f (typeKeys f ps)"
  have "json_ok (JObj ps)" using json_ok_parsedSettings [OF assms(1)] by (simp only: assms(2) [symmetric])
  then have ok: "json_ok (JObj ?q)" by (intro upstreamKeys_ok typeKeys_ok assms(1))
  have up: "obj_get ?q (js k) = obj_get (typeKeys f ps) (js k)"
    if "k \<in> set (''azure_responses_version'' # map fst owner_types)" for k
    using that by (intro upstreamKeys_other) (auto simp: owner_types_def upstream_keys_def)
  have own: "list_all (\<lambda>(k, ts). obj_has ?q (js k) = type_in f ts) owner_types"
    unfolding list_all_iff
  proof (clarify)
    fix k ts assume k: "(k, ts) \<in> set owner_types"
    then have "k \<in> set (''azure_responses_version'' # map fst owner_types)" by (auto simp: rev_image_eqI)
    moreover have "obj_has (typeKeys f ps) (js k) = type_in f ts"
      using typeKeys_owner [of f ps] k unfolding list_all_iff by blast
    ultimately show "obj_has ?q (js k) = type_in f ts" by (simp only: obj_has_def up)
  qed
  have az: "obj_has ?q (js ''azure_responses_version'') =
      (type_in f [3] \<and> truthy_opt (obj_get f (js ''azure_responses_version'')))"
    using up [of "''azure_responses_version''"]
    by (auto simp: obj_has_def typeKeys_azure truthy_opt_def split: option.splits)
  have rest: "k \<in> js ` set (''azure_responses_version'' # map fst owner_types @ upstream_keys)
      \<or> obj_get ?q k = obj_get ps k" for k
  proof (cases "k \<in> js ` set upstream_keys \<or> k \<in> js ` fst ` set owner_types \<or> k = js ''azure_responses_version''")
    case True
    then show ?thesis unfolding set_append list.set set_map image_insert image_Un by (elim disjE) simp_all
  next
    case False
    then show ?thesis using upstreamKeys_other [of k f "typeKeys f ps"] typeKeys_other [of k f ps] by simp
  qed
  have "buildSettingsJSON f = Some (json_stringify (JObj ?q))"
    by (simp only: buildSettingsJSON_def assms(2) json.case)
  then show ?thesis using json_parse_stringify [OF ok] own az rest by blast
qed

theorem settings_keys_by_type_witness:
  "values_ok CHANNEL_FORM_DEFAULT_VALUES
   \<and> parsedSettings (obj_get CHANNEL_FORM_DEFAULT_VALUES (js ''settings'')) = JObj []
   \<and> (\<exists>s qs. buildSettingsJSON CHANNEL_FORM_DEFAULT_VALUES = Some s \<and> json_parse s = Some (JObj qs)
        \<and> obj_has qs (js ''disable_store'') \<and> \<not> obj_has qs (js ''vertex_key_type''))"
proof -
  let ?f = "CHANNEL_FORM_DEFAULT_VALUES"
  have v: "values_ok ?f"
    by (simp add: values_ok_def CHANNEL_FORM_DEFAULT_VALUES_def num_of_int_def num_ok_normalise)
  have p: "parsedSettings (obj_get ?f (js ''settings'')) = JObj []"
    by (simp add: CHANNEL_FORM_DEFAULT_VALUES_def parsedSettings_def)
  have t: "type_in ?f [1]" "\<not> type_in ?f [41]"
    by (simp_all add: type_in_def CHANNEL_FORM_DEFAULT_VALUES_def num_of_int_def normalise.simps)
  show ?thesis using settings_keys_by_type [OF v p] v p t by (auto simp: owner_types_def)
qed

text \<open>C27 The key of a channel: the form never holds the stored key, so the update payload of an unedited
  channel has no key; an update contains a key only when the entered one is not blank, and then the entered one.
  Emptied text fields are sent as empty strings.\<close>

theorem update_key_only_when_entered:
  assumes "transformFormDataToUpdatePayload f n = Some p"
  shows "obj_get p (js ''key'') =
      (if trim (str_of (obj_get f (js ''key''))) = [] then None else obj_get f (js ''key''))
    \<and> list_all (\<lambda>k. obj_get p (js k) = Some (js_or (obj_get f (js k)) jempty)) text_fields
    \<and> (\<forall>chan. transformChannelToFormDefaults chan = Some f \<longrightarrow> obj_get p (js ''key'') = None)"
proof -
  obtain s where s: "buildSettingsJSON f = Some s" using update_settings [OF assms] by blast
  note get = update_get [OF assms s]
  let ?key = "obj_get f (js ''key'')"
  have "?key \<noteq> Some jempty" if "trim (str_of ?key) \<noteq> []" using that by (auto simp: str_of_def)
  then have key: "obj_get p (js ''key'') = (if trim (str_of ?key) = [] then None else ?key)"
    by (cases ?key) (auto simp: get explicitFields_def updateFields_def Let_def str_of_def)
  moreover have "list_all (\<lambda>k. obj_get p (js k) = Some (js_or (obj_get f (js k)) jempty)) text_fields"
    by (simp add: text_fields_def get explicitFields_def Let_def)
  moreover have "obj_get p (js ''key'') = None" if "transformChannelToFormDefaults chan = Some f" for chan
    using key by (simp add: form_get [OF that] formFields_def Let_def str_of_def)
  ultimately show ?thesis by blast
qed

lemma default_settings: "obj_get CHANNEL_FORM_DEFAULT_VALUES (js ''settings'') = Some (JStr (js ''{}''))"
  by (simp add: CHANNEL_FORM_DEFAULT_VALUES_def)

lemma empty_object_text: "isOptionalJsonObject (Some (js ''{}''))"
proof -
  have "json_parse (js ''{}'') = Some (JObj [])"
    using json_parse_stringify [of "JObj []"] by (simp add: js_def)
  then show ?thesis
    by (simp add: isOptionalJsonObject_def parseOptionalJson_def opt_str_def isJsonObjectValue_def)
qed

lemma default_submits: "transformFormDataToUpdatePayload CHANNEL_FORM_DEFAULT_VALUES n \<noteq> None"
  using buildSettingsJSON_object [OF empty_object_text default_settings]
  by (auto simp: transformFormDataToUpdatePayload_def Let_def)

theorem update_key_only_when_entered_witness:
  "\<exists>p. transformFormDataToUpdatePayload CHANNEL_FORM_DEFAULT_VALUES 7 = Some p
     \<and> obj_get p (js ''key'') = None \<and> obj_get p (js ''tag'') = Some jempty"
proof -
  obtain p where p: "transformFormDataToUpdatePayload CHANNEL_FORM_DEFAULT_VALUES 7 = Some p"
    using default_submits [of 7] by blast
  have "obj_get CHANNEL_FORM_DEFAULT_VALUES (js ''key'') = Some jempty"
    "obj_get CHANNEL_FORM_DEFAULT_VALUES (js ''tag'') = Some jempty"
    by (simp_all add: CHANNEL_FORM_DEFAULT_VALUES_def)
  with update_key_only_when_entered [OF p] p show ?thesis
    by (simp add: str_of_def text_fields_def js_or_def truthy_opt_def)
qed

text \<open>C28 Validated settings: a form whose settings text the schema accepts (blank or a JSON object)
  can be submitted, so neither payload transformation throws, and the channel of the create payload has no
  property that is an empty string.\<close>

theorem validated_form_submits:
  assumes "obj_get f (js ''settings'') = Some (JStr s)" and "isOptionalJsonObject (Some s)"
  shows "transformFormDataToUpdatePayload f n \<noteq> None
    \<and> (\<exists>p. transformFormDataToCreatePayload f = Some p
          \<and> list_all (\<lambda>(k, v). v \<noteq> jempty) (pl_channel p))"
proof -
  obtain t where t: "buildSettingsJSON f = Some t" using buildSettingsJSON_object [OF assms(2,1)] by blast
  have "list_all (\<lambda>(k, v). v \<noteq> jempty) (clean_empty o')" for o'
    by (auto simp: clean_empty_def list_all_iff split: if_splits)
  then show ?thesis
    by (simp add: transformFormDataToUpdatePayload_def transformFormDataToCreatePayload_def Let_def t)
qed

theorem validated_form_submits_witness:
  "obj_get CHANNEL_FORM_DEFAULT_VALUES (js ''settings'') = Some (JStr (js ''{}''))
   \<and> isOptionalJsonObject (Some (js ''{}''))
   \<and> transformFormDataToUpdatePayload CHANNEL_FORM_DEFAULT_VALUES 7 \<noteq> None
   \<and> (\<exists>p. transformFormDataToCreatePayload CHANNEL_FORM_DEFAULT_VALUES = Some p)"
  using validated_form_submits [OF default_settings empty_object_text, of 7]
    default_settings empty_object_text by auto

text \<open>C29 The two validators of a model mapping, the one of the form schema and the one of the mapping
  editor, accept the same texts; \<open>validateModelMapping\<close> accepts every one of them.\<close>

theorem mapping_validators_agree:
  "(validateModelMappingJson s = Valid) = isOptionalModelMapping (Some s)
   \<and> (isOptionalModelMapping (Some s) \<longrightarrow> validateModelMapping s)"
proof -
  have str: "(case v of JStr _ \<Rightarrow> True | _ \<Rightarrow> False) = (string_value v \<noteq> None)" for v
    by (cases v) (auto simp: string_value_def)
  have all: "list_all (\<lambda>p. \<exists>y. string_value (snd p) = Some y) ps = (\<not> list_ex (\<lambda>p. string_value (snd p) = None) ps)"
    for ps :: obj by (auto simp: list_all_iff list_ex_iff)
  show ?thesis
  proof (cases "trim s = []")
    case True
    then show ?thesis
      by (simp add: validateModelMappingJson_def isOptionalModelMapping_def parseOptionalJson_def opt_str_def
          validateModelMapping_def)
  next
    case False
    then have ne: "s \<noteq> []" by auto
    show ?thesis
    proof (cases "json_parse s")
      case (Some v)
      then show ?thesis using False ne
        by (cases v)
          (simp_all add: validateModelMappingJson_def isOptionalModelMapping_def parseOptionalJson_def opt_str_def
            validateModelMapping_def validateJSON_def as_object_def str all)
    qed (use False ne in \<open>simp add: validateModelMappingJson_def isOptionalModelMapping_def
        parseOptionalJson_def opt_str_def\<close>)
  qed
qed

theorem mapping_validators_agree_witness:
  "isOptionalModelMapping (Some []) \<and> validateModelMapping [] \<and> validateModelMappingJson [] = Valid"
proof -
  have "isOptionalModelMapping (Some [])"
    by (simp add: isOptionalModelMapping_def parseOptionalJson_def opt_str_def)
  with mapping_validators_agree [of "[]"] show ?thesis by simp
qed

end
