(* ===== verification/ChannelGuards.thy ===== *)
theory ChannelGuards
  imports ChannelForm
begin

text \<open>
  The smaller libraries of \<open>features/channels/lib\<close>: the guard against risky status code redirects
  (\<open>status-code-risk-guard.ts\<close>), the pending upstream models of a channel
  (\<open>upstream-update-utils.ts\<close>), the configuration per channel type (\<open>channel-type-config.ts\<close>), the
  fields of the advanced section (\<open>channel-form-errors.ts\<close>) and the confirmations of the multi-key
  dialog (\<open>multi-key-utils.ts\<close>).
\<close>

section \<open>Status code redirects\<close>

definition NON_REDIRECTABLE_STATUS_CODES :: "nat list" where
  "NON_REDIRECTABLE_STATUS_CODES = [504, 524]"

text \<open>\<open>/^[1-5]\d{2}$/\<close>\<close>

definition isThreeDigitCode :: "js_string \<Rightarrow> bool" where
  "isThreeDigitCode s =
     (case s of [a, b, c] \<Rightarrow> 49 \<le> a \<and> a \<le> 53 \<and> is_digit b \<and> is_digit c | _ \<Rightarrow> False)"

definition parseStatusCodeKey :: "js_string \<Rightarrow> nat option" where
  "parseStatusCodeKey rawKey =
     (let normalized = trim rawKey in
      if \<not> isThreeDigitCode normalized then None else Some (digits_value normalized))"

definition parseStatusCodeMappingTarget :: "json \<Rightarrow> nat option" where
  "parseStatusCodeMappingTarget rawValue =
     (case rawValue of
        JNum x \<Rightarrow>
          (case num_int x of
             None \<Rightarrow> None | Some i \<Rightarrow> if 100 \<le> i \<and> i \<le> 599 then Some (nat i) else None)
      | JStr s \<Rightarrow>
          (let normalized = trim s in
           if \<not> isThreeDigitCode normalized then None
           else (let code = digits_value normalized in if 100 \<le> code \<and> code \<le> 599 then Some code else None))
      | _ \<Rightarrow> None)"

text \<open>The early returns both collectors share: the entries of a JSON object, none otherwise.\<close>

definition mappingEntries :: "js_string \<Rightarrow> obj" where
  "mappingEntries s =
     (if trim s = [] then []
      else (case json_parse s of Some (JObj ps) \<Rightarrow> ps | _ \<Rightarrow> []))"

definition invalidEntry :: "js_string \<times> json \<Rightarrow> js_string" where
  "invalidEntry e = fst e @ [32, 8594, 32] @ json_to_string (snd e)"

definition collectInvalidStatusCodeEntries :: "js_string \<Rightarrow> js_string list" where
  "collectInvalidStatusCodeEntries s =
     map invalidEntry
       (filter (\<lambda>(k, v). parseStatusCodeKey k = None \<or> parseStatusCodeMappingTarget v = None) (mappingEntries s))"

definition riskyMapping :: "js_string \<times> json \<Rightarrow> js_string option" where
  "riskyMapping e =
     (case (parseStatusCodeKey (fst e), parseStatusCodeMappingTarget (snd e)) of
        (Some fromCode, Some toCode) \<Rightarrow>
          if fromCode \<notin> set NON_REDIRECTABLE_STATUS_CODES then None
          else if fromCode = toCode then None
          else Some (digits fromCode @ js '' -> '' @ digits toCode)
      | _ \<Rightarrow> None)"

text \<open>The default order of \<open>sort\<close>: by code units.\<close>

fun unitCompare :: "js_string \<Rightarrow> js_string \<Rightarrow> int" where
  "unitCompare [] [] = 0"
| "unitCompare [] (y # ys) = - 1"
| "unitCompare (x # xs) [] = 1"
| "unitCompare (x # xs) (y # ys) = (if x < y then - 1 else if y < x then 1 else unitCompare xs ys)"

definition collectDisallowedStatusCodeRedirects :: "js_string \<Rightarrow> js_string list" where
  "collectDisallowedStatusCodeRedirects s =
     js_sort unitCompare (js_set (List.map_filter riskyMapping (mappingEntries s)))"

definition collectNewDisallowedStatusCodeRedirects :: "js_string \<Rightarrow> js_string \<Rightarrow> js_string list" where
  "collectNewDisallowedStatusCodeRedirects originalStr currentStr =
     (let currentRisky = collectDisallowedStatusCodeRedirects currentStr in
      if length currentRisky = 0 then []
      else
        (let originalRiskySet = js_set (collectDisallowedStatusCodeRedirects originalStr) in
         filter (\<lambda>m. m \<notin> set originalRiskySet) currentRisky))"

section \<open>Pending upstream models\<close>

definition normalizeModelList :: "json list \<Rightarrow> js_string list" where
  "normalizeModelList models =
     js_set (filter_truthy (map (\<lambda>m. trim (json_to_string (js_or (Some m) jempty))) models))"

text \<open>\<open>normalizeModelList(x || [])\<close> for an unknown \<open>x\<close>: \<open>None\<close> is the \<open>TypeError\<close> for a truthy value
  without a \<open>map\<close> method.\<close>

definition normalizeUnknown :: "json option \<Rightarrow> js_string list option" where
  "normalizeUnknown x =
     (case js_or x (JArr []) of JArr xs \<Rightarrow> Some (normalizeModelList xs) | _ \<Rightarrow> None)"

record upstream_meta =
  um_enabled :: bool
  um_pendingAddModels :: "js_string list"
  um_pendingRemoveModels :: "js_string list"

definition upstreamParsed :: "json option \<Rightarrow> json option" where
  "upstreamParsed settings =
     (case settings of Some (JObj ps) \<Rightarrow> Some (JObj ps) | Some (JStr s) \<Rightarrow> json_parse s | _ \<Rightarrow> None)"

definition parseUpstreamUpdateMeta :: "json option \<Rightarrow> upstream_meta option" where
  "parseUpstreamUpdateMeta settings =
     (case upstreamParsed settings of
        Some parsed \<Rightarrow>
          if (case parsed of JObj _ \<Rightarrow> True | JArr _ \<Rightarrow> True | _ \<Rightarrow> False)
          then
            (case (normalizeUnknown (json_prop parsed (js ''upstream_model_update_last_detected_models'')),
                   normalizeUnknown (json_prop parsed (js ''upstream_model_update_last_removed_models''))) of
               (Some add, Some remove) \<Rightarrow>
                 Some \<lparr>um_enabled = is_true (json_prop parsed (js ''upstream_model_update_check_enabled'')),
                       um_pendingAddModels = add, um_pendingRemoveModels = remove\<rparr>
             | _ \<Rightarrow> None)
          else Some \<lparr>um_enabled = False, um_pendingAddModels = [], um_pendingRemoveModels = []\<rparr>
      | None \<Rightarrow> Some \<lparr>um_enabled = False, um_pendingAddModels = [], um_pendingRemoveModels = []\<rparr>)"

section \<open>Configuration per channel type\<close>

record type_hints =
  hint_baseUrl :: "js_string option"
  hint_key :: "js_string option"
  hint_models :: "js_string option"
  hint_other :: "js_string option"

text \<open>The one regular expression of the table, \<open>/^sk-/\<close>, is given by its prefix.\<close>

record key_validation =
  keyFormat :: "js_string option"
  keyMinLength :: "nat option"

record type_config =
  tc_id :: nat
  tc_name :: js_string
  tc_icon :: js_string
  tc_defaultBaseUrl :: "js_string option"
  tc_requiresOrganization :: "bool option"
  tc_requiresRegion :: "bool option"
  tc_hints :: "type_hints option"
  tc_validation :: "key_validation option"

definition type_name :: "nat \<Rightarrow> js_string" where
  "type_name t = (case obj_get CHANNEL_TYPES t of None \<Rightarrow> [] | Some l \<Rightarrow> l)"

definition CHANNEL_TYPE_CONFIGS :: "(nat \<times> type_config) list" where
  "CHANNEL_TYPE_CONFIGS =
     [(1, \<lparr>tc_id = 1, tc_name = type_name 1, tc_icon = js ''openai'',
           tc_defaultBaseUrl = Some (js ''https://api.openai.com''),
           tc_requiresOrganization = Some True, tc_requiresRegion = None,
           tc_hints = Some \<lparr>hint_baseUrl = Some (js ''Default: https://api.openai.com''),
             hint_key = Some (js ''Format: sk-...''),
             hint_models = Some (js ''gpt-4,gpt-4-turbo,gpt-3.5-turbo''), hint_other = None\<rparr>,
           tc_validation = Some \<lparr>keyFormat = Some (js ''sk-''), keyMinLength = Some 20\<rparr>\<rparr>),
      (3, \<lparr>tc_id = 3, tc_name = type_name 3, tc_icon = js ''azure'', tc_defaultBaseUrl = None,
           tc_requiresOrganization = None, tc_requiresRegion = Some True,
           tc_hints = Some \<lparr>hint_baseUrl = Some (js ''Azure OpenAI Endpoint''),
             hint_key = Some (js ''Azure API Key''), hint_models = Some (js ''Deployment names''),
             hint_other = None\<rparr>,
           tc_validation = None\<rparr>),
      (14, \<lparr>tc_id = 14, tc_name = type_name 14, tc_icon = js ''anthropic'',
           tc_defaultBaseUrl = Some (js ''https://api.anthropic.com''),
           tc_requiresOrganization = None, tc_requiresRegion = None,
           tc_hints = Some \<lparr>hint_baseUrl = None, hint_key = Some (js ''Format: sk-ant-...''),
             hint_models = Some (js ''claude-3-opus,claude-3-sonnet,claude-3-haiku''), hint_other = None\<rparr>,
           tc_validation = None\<rparr>),
      (24, \<lparr>tc_id = 24, tc_name = type_name 24, tc_icon = js ''google'', tc_defaultBaseUrl = None,
           tc_requiresOrganization = None, tc_requiresRegion = None,
           tc_hints = Some \<lparr>hint_baseUrl = None, hint_key = Some (js ''Google API Key''),
             hint_models = Some (js ''gemini-pro,gemini-pro-vision''), hint_other = None\<rparr>,
           tc_validation = None\<rparr>),
      (41, \<lparr>tc_id = 41, tc_name = type_name 41, tc_icon = js ''google'', tc_defaultBaseUrl = None,
           tc_requiresOrganization = None, tc_requiresRegion = Some True,
           tc_hints = Some \<lparr>hint_baseUrl = None, hint_key = Some (js ''Service account JSON or API key''),
             hint_models = Some (js ''gemini-pro,gemini-1.5-pro''),
             hint_other = Some (js ''Region config: {\"default\": \"us-central1\"}'')\<rparr>,
           tc_validation = None\<rparr>),
      (43, \<lparr>tc_id = 43, tc_name = type_name 43, tc_icon = js ''deepseek'',
           tc_defaultBaseUrl = Some (js ''https://api.deepseek.com''),
           tc_requiresOrganization = None, tc_requiresRegion = None,
           tc_hints = Some \<lparr>hint_baseUrl = None, hint_key = Some (js ''DeepSeek API Key''),
             hint_models = Some (js ''deepseek-chat,deepseek-coder''), hint_other = None\<rparr>,
           tc_validation = None\<rparr>),
      (20, \<lparr>tc_id = 20, tc_name = type_name 20, tc_icon = js ''openrouter'',
           tc_defaultBaseUrl = Some (js ''https://openrouter.ai/api''),
           tc_requiresOrganization = None, tc_requiresRegion = None,
           tc_hints = Some \<lparr>hint_baseUrl = None, hint_key = Some (js ''OpenRouter API Key''),
             hint_models = Some (js ''Use model IDs from OpenRouter''), hint_other = None\<rparr>,
           tc_validation = None\<rparr>),
      (56, \<lparr>tc_id = 56, tc_name = type_name 56, tc_icon = js ''replicate'',
           tc_defaultBaseUrl = Some (js ''https://api.replicate.com''),
           tc_requiresOrganization = None, tc_requiresRegion = None,
           tc_hints = Some \<lparr>hint_baseUrl = Some (js ''Default: https://api.replicate.com''),
             hint_key = Some (js ''Replicate API Token''), hint_models = Some (js ''Replicate model IDs''),
             hint_other = None\<rparr>,
           tc_validation = None\<rparr>)]"

definition getChannelTypeConfig :: "nat \<Rightarrow> type_config" where
  "getChannelTypeConfig t =
     (case obj_get CHANNEL_TYPE_CONFIGS t of
        Some c \<Rightarrow> c
      | None \<Rightarrow>
          \<lparr>tc_id = t, tc_name = table_or CHANNEL_TYPES t (js ''Unknown''), tc_icon = js ''openai'',
           tc_defaultBaseUrl = None, tc_requiresOrganization = None, tc_requiresRegion = None,
           tc_hints = None, tc_validation = None\<rparr>)"

definition requiresOrganization :: "nat \<Rightarrow> bool" where
  "requiresOrganization t =
     (case obj_get CHANNEL_TYPE_CONFIGS t of None \<Rightarrow> False | Some c \<Rightarrow> tc_requiresOrganization c = Some True)"

definition requiresRegion :: "nat \<Rightarrow> bool" where
  "requiresRegion t =
     (case obj_get CHANNEL_TYPE_CONFIGS t of None \<Rightarrow> False | Some c \<Rightarrow> tc_requiresRegion c = Some True)"

definition getDefaultBaseUrl :: "nat \<Rightarrow> js_string" where
  "getDefaultBaseUrl t =
     (case obj_get CHANNEL_TYPE_CONFIGS t of None \<Rightarrow> [] | Some c \<Rightarrow> opt_str (tc_defaultBaseUrl c))"

definition getChannelTypeHints :: "nat \<Rightarrow> type_hints" where
  "getChannelTypeHints t =
     (case Option.bind (obj_get CHANNEL_TYPE_CONFIGS t) tc_hints of
        None \<Rightarrow> \<lparr>hint_baseUrl = None, hint_key = None, hint_models = None, hint_other = None\<rparr>
      | Some h \<Rightarrow> h)"

definition validateKeyFormat :: "nat \<Rightarrow> js_string \<Rightarrow> bool" where
  "validateKeyFormat t key =
     (case Option.bind (obj_get CHANNEL_TYPE_CONFIGS t) tc_validation of
        None \<Rightarrow> True
      | Some v \<Rightarrow>
          if (case keyMinLength v of None \<Rightarrow> False | Some n \<Rightarrow> n \<noteq> 0 \<and> length key < n) then False
          else if (case keyFormat v of None \<Rightarrow> False | Some p \<Rightarrow> \<not> starts_with key p) then False
          else True)"

section \<open>Advanced fields and multi-key confirmations\<close>

definition ADVANCED_SETTINGS_FIELDS :: "js_string list" where
  "ADVANCED_SETTINGS_FIELDS =
     [js ''priority'', js ''weight'', js ''test_model'', js ''auto_ban'', js ''tag'', js ''remark'',
      js ''param_override'', js ''header_override'', js ''status_code_mapping'', js ''force_format'',
      js ''thinking_to_content'', js ''pass_through_body_enabled'', js ''proxy'', js ''system_prompt'',
      js ''system_prompt_override'', js ''non_stream_timeout_seconds'',
      js ''stream_first_byte_timeout_seconds'', js ''aws_invoke_timeout_seconds'',
      js ''aws_sdk_max_attempts'', js ''allow_service_tier'', js ''disable_store'',
      js ''allow_safety_identifier'', js ''allow_include_obfuscation'', js ''allow_inference_geo'',
      js ''allow_speed'', js ''claude_beta_query'', js ''upstream_model_update_check_enabled'',
      js ''upstream_model_update_auto_sync_enabled'', js ''upstream_model_update_ignored_models'']"

definition isAdvancedSettingsField :: "js_string \<Rightarrow> bool" where
  "isAdvancedSettingsField fieldName \<longleftrightarrow> fieldName \<in> set ADVANCED_SETTINGS_FIELDS"

definition hasAdvancedSettingsErrors :: "(js_string \<times> 'e) list \<Rightarrow> bool" where
  "hasAdvancedSettingsErrors errors \<longleftrightarrow> list_ex isAdvancedSettingsField (map fst errors)"

datatype confirm_type = Enable | Disable | Delete | EnableAll | DisableAll | DeleteDisabled

record confirm_action =
  action_type :: confirm_type
  action_keyIndex :: "int option"

definition MULTI_KEY_CONFIRM_MESSAGES :: "confirm_type \<Rightarrow> js_string" where
  "MULTI_KEY_CONFIRM_MESSAGES t =
     (case t of
        Delete \<Rightarrow> js ''Are you sure you want to delete this key? This action cannot be undone.''
      | Enable \<Rightarrow> js ''Enable this key?''
      | Disable \<Rightarrow> js ''Disable this key?''
      | EnableAll \<Rightarrow> js ''Are you sure you want to enable all keys?''
      | DisableAll \<Rightarrow> js ''Are you sure you want to disable all enabled keys?''
      | DeleteDisabled \<Rightarrow>
          js ''Are you sure you want to delete all auto-disabled keys? This action cannot be undone.'')"

definition getMultiKeyConfirmMessage :: "confirm_action option \<Rightarrow> js_string" where
  "getMultiKeyConfirmMessage action =
     (case action of None \<Rightarrow> [] | Some a \<Rightarrow> MULTI_KEY_CONFIRM_MESSAGES (action_type a))"

definition isDestructiveAction :: "confirm_action option \<Rightarrow> bool" where
  "isDestructiveAction action =
     (case action of
        None \<Rightarrow> False
      | Some a \<Rightarrow> action_type a = Delete \<or> action_type a = DeleteDisabled \<or> action_type a = DisableAll)"

section \<open>Lemmas\<close>

lemma unitCompare_le_trans: "unitCompare x y \<le> 0 \<Longrightarrow> unitCompare y z \<le> 0 \<Longrightarrow> unitCompare x z \<le> 0"
proof (induction x arbitrary: y z)
  case Nil
  then show ?case by (cases z) auto
next
  case (Cons a x)
  obtain b y' where y: "y = b # y'" using Cons.prems(1) by (cases y) auto
  obtain c z' where "z = c # z'" using Cons.prems(2) y by (cases z) auto
  with Cons y show ?case by (fastforce split: if_splits)
qed

lemma unitCompare_total: "unitCompare x y \<le> 0 \<or> unitCompare y x \<le> 0"
  by (induction x y rule: unitCompare.induct) auto

interpretation unit_order: comparator unitCompare
  by unfold_locales (fact unitCompare_total, fact unitCompare_le_trans)

lemma three_digits:
  assumes "isThreeDigitCode s"
  shows "digits (digits_value s) = s" and "100 \<le> digits_value s" and "digits_value s \<le> 599"
proof -
  obtain a b c where s: "s = [a, b, c]" "49 \<le> a" "a \<le> 53" "48 \<le> b" "b \<le> 57" "48 \<le> c" "c \<le> 57"
    using assms by (auto simp: isThreeDigitCode_def is_digit_def split: list.splits)
  define x y z where "x = a - 48" and "y = b - 48" and "z = c - 48"
  then have xyz: "a = 48 + x" "b = 48 + y" "c = 48 + z" using s by auto
  have v: "digits_value s = 10 * (10 * x + y) + z"
    by (simp add: s(1) xyz digits_value_def)
  have b: "1 \<le> x" "x \<le> 5" "y \<le> 9" "z \<le> 9" using s xyz by auto
  then show "100 \<le> digits_value s" "digits_value s \<le> 599" by (auto simp: v)
  have dm: "w \<le> 9 \<Longrightarrow> (10 * n + w) div 10 = n" "w \<le> 9 \<Longrightarrow> (10 * n + w) mod 10 = w" for n w :: nat
    by auto
  have "digits (10 * n + w) = digits n @ [48 + w]" if "w \<le> 9" "1 \<le> n" for n w
    using that by (subst digits.simps) (simp only: dm, simp)
  moreover have "digits x = [48 + x]" using b by (subst digits.simps) simp
  ultimately show "digits (digits_value s) = s" using b by (simp only: v) (simp add: s(1) xyz)
qed

lemma set_map_filter_risky:
  "set (List.map_filter riskyMapping ps) =
     {digits a @ js '' -> '' @ digits b | a b k v. (k, v) \<in> set ps \<and> parseStatusCodeKey k = Some a
        \<and> parseStatusCodeMappingTarget v = Some b \<and> a \<in> {504, 524} \<and> a \<noteq> b}"
proof (intro set_eqI iffI)
  fix m assume "m \<in> set (List.map_filter riskyMapping ps)"
  then obtain k v where kv: "(k, v) \<in> set ps" "riskyMapping (k, v) = Some m"
    by (auto simp: set_map_filter_Some)
  then obtain a b where "parseStatusCodeKey k = Some a" "parseStatusCodeMappingTarget v = Some b"
    "a \<in> {504, 524}" "a \<noteq> b" "m = digits a @ js '' -> '' @ digits b"
    by (auto simp: riskyMapping_def NON_REDIRECTABLE_STATUS_CODES_def split: option.splits if_splits)
  with kv(1) show "m \<in> {digits a @ js '' -> '' @ digits b | a b k v. (k, v) \<in> set ps
      \<and> parseStatusCodeKey k = Some a \<and> parseStatusCodeMappingTarget v = Some b \<and> a \<in> {504, 524} \<and> a \<noteq> b}"
    by blast
next
  fix m assume "m \<in> {digits a @ js '' -> '' @ digits b | a b k v. (k, v) \<in> set ps
      \<and> parseStatusCodeKey k = Some a \<and> parseStatusCodeMappingTarget v = Some b \<and> a \<in> {504, 524} \<and> a \<noteq> b}"
  then obtain a b k v where "(k, v) \<in> set ps" "riskyMapping (k, v) = Some m"
    by (auto simp: riskyMapping_def NON_REDIRECTABLE_STATUS_CODES_def)
  then show "m \<in> set (List.map_filter riskyMapping ps)" by (auto simp: set_map_filter_Some)
qed

lemma status_code_agrees:
  "parseStatusCodeKey k = Some a \<Longrightarrow> isStatusCode (string_to_number k)"
proof -
  assume "parseStatusCodeKey k = Some a"
  then have d: "isThreeDigitCode (trim k)" by (auto simp: parseStatusCodeKey_def Let_def split: if_splits)
  have "string_to_number k = string_to_number (trim k)" by (simp add: string_to_number_def)
  also have "\<dots> = string_to_number (digits (digits_value (trim k)))" by (simp add: three_digits [OF d])
  finally show ?thesis
    using three_digits(2,3) [OF d] by (simp add: isStatusCode_def string_to_number_digits num_int_of_int)
qed

lemma status_target_agrees:
  "parseStatusCodeMappingTarget v = Some b \<Longrightarrow> isStatusCode (json_to_number v)"
proof (cases v)
  case (JStr s)
  assume "parseStatusCodeMappingTarget v = Some b"
  with JStr have "parseStatusCodeKey s = Some b"
    by (auto simp: parseStatusCodeMappingTarget_def parseStatusCodeKey_def Let_def split: if_splits)
  then show ?thesis using status_code_agrees JStr by simp
qed (auto simp: parseStatusCodeMappingTarget_def isStatusCode_def split: option.splits if_splits)

lemma parsed_code_bounds:
  "parseStatusCodeKey k = Some a \<Longrightarrow> 100 \<le> a \<and> a \<le> 599"
  "parseStatusCodeMappingTarget v = Some a \<Longrightarrow> 100 \<le> a \<and> a \<le> 599"
  using three_digits(2,3) [of "trim k"]
  by (auto simp: parseStatusCodeKey_def parseStatusCodeMappingTarget_def Let_def
      split: json.splits option.splits if_splits)

section \<open>Properties\<close>


text \<open>C35 (bounds): a JSON object in which the guard reports no invalid entry is accepted by the schema of the
  form, and each of its codes lies between 100 and 599.\<close>

theorem valid_entries_accepted:
  assumes "json_parse s = Some (JObj ps)" and "collectInvalidStatusCodeEntries s = []"
  shows "isOptionalStatusCodeMapping (Some s)
    \<and> list_all (\<lambda>(k, v). \<exists>a b. parseStatusCodeKey k = Some a \<and> parseStatusCodeMappingTarget v = Some b
         \<and> 100 \<le> a \<and> a \<le> 599 \<and> 100 \<le> b \<and> b \<le> 599) ps"
proof -
  have ne: "trim s \<noteq> []"
    using assms(1) json_parse_blank [of s] by auto
  then have e: "mappingEntries s = ps" using assms(1) by (simp add: mappingEntries_def)
  have codes: "\<exists>a b. parseStatusCodeKey k = Some a \<and> parseStatusCodeMappingTarget v = Some b"
    if "(k, v) \<in> set ps" for k v
    using assms(2) that by (auto simp: collectInvalidStatusCodeEntries_def e filter_empty_conv)
  have "list_all (\<lambda>(k, v). isStatusCode (string_to_number k) \<and> isStatusCode (json_to_number v)) ps"
    using codes status_code_agrees status_target_agrees by (fastforce simp: list_all_iff)
  then have "isOptionalStatusCodeMapping (Some s)"
    using assms(1) ne by (simp add: isOptionalStatusCodeMapping_def parseOptionalJson_def opt_str_def)
  moreover have "list_all (\<lambda>(k, v). \<exists>a b. parseStatusCodeKey k = Some a \<and> parseStatusCodeMappingTarget v = Some b
         \<and> 100 \<le> a \<and> a \<le> 599 \<and> 100 \<le> b \<and> b \<le> 599) ps"
    using codes parsed_code_bounds by (fastforce simp: list_all_iff)
  ultimately show ?thesis by simp
qed

definition demo_mapping :: json where
  "demo_mapping = JObj [(js ''504'', jint 503)]"

theorem valid_entries_accepted_witness:
  "json_parse (json_stringify demo_mapping) = Some demo_mapping
   \<and> collectInvalidStatusCodeEntries (json_stringify demo_mapping) = []
   \<and> isOptionalStatusCodeMapping (Some (json_stringify demo_mapping))"
proof -
  have p: "json_parse (json_stringify demo_mapping) = Some demo_mapping"
    by (rule json_parse_stringify)
      (simp add: demo_mapping_def num_of_int_def num_ok_normalise own_order_def array_index_def js_def
        is_digit_def digits_value_def)
  then have ne: "trim (json_stringify demo_mapping) \<noteq> []"
    using json_parse_blank [of "json_stringify demo_mapping"] by auto
  have "trim (js ''504'') = js ''504''" by (intro trim_id) (simp add: trimmed_def js_def is_ws_def)
  then have i: "collectInvalidStatusCodeEntries (json_stringify demo_mapping) = []"
    using ne p
    by (simp add: collectInvalidStatusCodeEntries_def mappingEntries_def demo_mapping_def parseStatusCodeKey_def
        parseStatusCodeMappingTarget_def isThreeDigitCode_def js_def is_digit_def)
  have "json_parse (json_stringify demo_mapping) = Some (JObj [(js ''504'', jint 503)])"
    using p unfolding demo_mapping_def .
  from valid_entries_accepted [OF this i] p i show ?thesis by blast
qed

end
