(* ===== verification/Notifications.thy ===== *)
theory Notifications
  imports JsObject "HOL-Library.Word"
begin

text \<open>
  \<open>stores/notification-store.ts\<close> and \<open>hooks/use-notifications.ts\<close>: which notices and announcements a
  user has read. The notice and the announcements come from the server and are inputs. The
  properties of an announcement that are declared as strings are read as such (\<open>str_of\<close>). The
  persistence of the store is done by zustand; \<open>partialize\<close> is the part the code gives it.
\<close>

section \<open>The store\<close>

record notification_state =
  lastReadNotice :: js_string
  readAnnouncementKeys :: "js_string list"
  closedUntilDate :: "js_string option"

definition initial_notifications :: notification_state where
  "initial_notifications =
     \<lparr>lastReadNotice = [], readAnnouncementKeys = [], closedUntilDate = None\<rparr>"

definition markNoticeRead :: "js_string \<Rightarrow> notification_state \<Rightarrow> notification_state" where
  "markNoticeRead noticeContent st = st\<lparr>lastReadNotice := trim noticeContent\<rparr>"

definition markAnnouncementsRead :: "js_string list \<Rightarrow> notification_state \<Rightarrow> notification_state" where
  "markAnnouncementsRead keys st =
     st\<lparr>readAnnouncementKeys := js_set (readAnnouncementKeys st @ keys)\<rparr>"

definition setClosedUntilDate :: "js_string option \<Rightarrow> notification_state \<Rightarrow> notification_state" where
  "setClosedUntilDate date st = st\<lparr>closedUntilDate := date\<rparr>"

definition isAnnouncementRead :: "notification_state \<Rightarrow> js_string \<Rightarrow> bool" where
  "isAnnouncementRead st key \<longleftrightarrow> key \<in> set (readAnnouncementKeys st)"

text \<open>\<open>today\<close> is \<open>new Date().toDateString()\<close>.\<close>

definition isNoticeClosed :: "js_string \<Rightarrow> notification_state \<Rightarrow> bool" where
  "isNoticeClosed today st =
     (if opt_str (closedUntilDate st) = [] then False else closedUntilDate st = Some today)"

definition partialize :: "notification_state \<Rightarrow> json" where
  "partialize st =
     JObj [(js ''lastReadNotice'', JStr (lastReadNotice st)),
           (js ''readAnnouncementKeys'', JArr (map JStr (readAnnouncementKeys st))),
           (js ''closedUntilDate'', (case closedUntilDate st of None \<Rightarrow> JNull | Some d \<Rightarrow> JStr d))]"

section \<open>Announcement keys\<close>

text \<open>\<open>hash << 5\<close> and \<open>hash |= 0\<close> work on 32 bits; the sum in between is an exact double, so the loop
  is arithmetic modulo \<open>2 ^ 32\<close>.\<close>

fun hashLoop :: "32 word \<Rightarrow> js_string \<Rightarrow> 32 word" where
  "hashLoop hash [] = hash"
| "hashLoop hash (chr # input) = hashLoop (push_bit 5 hash - hash + of_nat chr) input"

text \<open>\<open>toString(36)\<close>\<close>

definition digit36 :: "nat \<Rightarrow> code_unit" where
  "digit36 d = (if d < 10 then 48 + d else 87 + d)"

fun digits36 :: "nat \<Rightarrow> js_string" where
  "digits36 n = (if n < 36 then [digit36 n] else digits36 (n div 36) @ [digit36 (n mod 36)])"

declare digits36.simps [simp del]

definition int_to_string36 :: "int \<Rightarrow> js_string" where
  "int_to_string36 i = (if i < 0 then [45] else []) @ digits36 (nat \<bar>i\<bar>)"

definition hashString :: "js_string \<Rightarrow> js_string" where
  "hashString input = (if input = [] then js ''0'' else int_to_string36 (sint (hashLoop 0 input)))"

definition fingerprint :: "json \<Rightarrow> js_string" where
  "fingerprint item =
     (let p = (\<lambda>k. json_prop item (js k)) in
      json_stringify (JObj
        [(js ''publishDate'', js_or (p ''publishDate'') (JStr [])),
         (js ''content'', JStr (trim (str_of (p ''content'')))),
         (js ''extra'', JStr (trim (str_of (p ''extra'')))),
         (js ''type'', js_or (p ''type'') (JStr [])),
         (js ''title'', JStr (trim (str_of (p ''title'')))),
         (js ''link'', JStr (trim (str_of (p ''link''))))]))"

definition getAnnouncementKey :: "json \<Rightarrow> js_string" where
  "getAnnouncementKey item =
     (if \<not> truthy item then []
      else
        (case json_prop item (js ''id'') of
           Some i \<Rightarrow> if i = JNull then js ''hash:'' @ hashString (fingerprint item)
                     else js ''id:'' @ json_to_string i
         | None \<Rightarrow> js ''hash:'' @ hashString (fingerprint item)))"

section \<open>The hook\<close>

datatype notification_tab = NoticeTab | AnnouncementsTab

text \<open>The responses of the server.\<close>

record server_data =
  notice_success :: bool
  notice_data :: "js_string option"
  announcements_enabled :: bool
  announcements_list :: "json list"

record notifications =
  store :: notification_state
  popoverOpen :: bool
  activeTab :: notification_tab
  server :: server_data

definition noticeContent :: "server_data \<Rightarrow> js_string" where
  "noticeContent sd = (if notice_success sd then trim (opt_str (notice_data sd)) else [])"

definition announcements :: "server_data \<Rightarrow> json list" where
  "announcements sd = (if announcements_enabled sd then take 20 (announcements_list sd) else [])"

definition unreadNotice :: "notifications \<Rightarrow> nat" where
  "unreadNotice s =
     (if noticeContent (server s) \<noteq> [] \<and> noticeContent (server s) \<noteq> lastReadNotice (store s) then 1 else 0)"

definition unreadAnnouncements :: "notifications \<Rightarrow> nat" where
  "unreadAnnouncements s =
     length (filter (\<lambda>item. \<not> isAnnouncementRead (store s) (getAnnouncementKey item)) (announcements (server s)))"

definition unreadCount :: "notifications \<Rightarrow> nat" where
  "unreadCount s = unreadNotice s + unreadAnnouncements s"

definition markAnnouncementsAsRead :: "notifications \<Rightarrow> notifications" where
  "markAnnouncementsAsRead s =
     (if 0 < length (announcements (server s))
      then s\<lparr>store := markAnnouncementsRead (map getAnnouncementKey (announcements (server s))) (store s)\<rparr>
      else s)"

definition handleOpenPopover :: "notification_tab option \<Rightarrow> notifications \<Rightarrow> notifications" where
  "handleOpenPopover tab s =
     (let nextTab = (case tab of None \<Rightarrow> activeTab s | Some t \<Rightarrow> t);
          s1 = (if noticeContent (server s) \<noteq> []
                then s\<lparr>store := markNoticeRead (noticeContent (server s)) (store s)\<rparr> else s);
          s2 = (if nextTab = AnnouncementsTab then markAnnouncementsAsRead s1 else s1) in
      s2\<lparr>activeTab := nextTab, popoverOpen := True\<rparr>)"

definition handlePopoverOpenChange :: "bool \<Rightarrow> notifications \<Rightarrow> notifications" where
  "handlePopoverOpenChange open s =
     (if open then handleOpenPopover (Some (activeTab s)) s else s\<lparr>popoverOpen := False\<rparr>)"

definition handleTabChange :: "notification_tab \<Rightarrow> notifications \<Rightarrow> notifications" where
  "handleTabChange tab s =
     (let s1 = s\<lparr>activeTab := tab\<rparr> in
      if tab = AnnouncementsTab then markAnnouncementsAsRead s1 else s1)"

definition useNotifications :: "notification_state \<Rightarrow> server_data \<Rightarrow> notifications" where
  "useNotifications st sd = \<lparr>store = st, popoverOpen = False, activeTab = NoticeTab, server = sd\<rparr>"

text \<open>A step: an action of the hook or of the store, or new data from the server.\<close>

inductive notification_step :: "notifications \<Rightarrow> notifications \<Rightarrow> bool" where
  open_popover: "notification_step s (handleOpenPopover tab s)"
| open_change: "notification_step s (handlePopoverOpenChange b s)"
| tab_change: "notification_step s (handleTabChange tab s)"
| close_popover: "notification_step s (s\<lparr>popoverOpen := False\<rparr>)"
| close_today: "notification_step s (s\<lparr>store := setClosedUntilDate d (store s)\<rparr>)"
| refetch: "notification_step s (s\<lparr>server := sd\<rparr>)"

inductive_cases notification_stepE: "notification_step s s'"

section \<open>Lemmas\<close>

lemma digit36_range: "d < 36 \<Longrightarrow> digit36 d \<in> {48..57} \<union> {97..122}"
  by (auto simp: digit36_def)

lemma digits36_range: "set (digits36 n) \<subseteq> {48..57} \<union> {97..122}"
proof (induction n rule: digits36.induct)
  case (1 n)
  have "digit36 (n mod 36) \<in> {48..57} \<union> {97..122}" by (rule digit36_range) simp
  with 1 show ?case using digit36_range [of n]
    by (subst digits36.simps) (cases "n < 36", auto simp del: Un_iff)
qed

lemma length_digits36: "n < 36 ^ k \<Longrightarrow> 0 < k \<Longrightarrow> length (digits36 n) \<le> k"
proof (induction k arbitrary: n)
  case (Suc k)
  show ?case
  proof (cases "n < 36")
    case False
    then have "n div 36 < 36 ^ k" using Suc.prems by (simp add: less_mult_imp_div_less mult.commute)
    moreover have "0 < k" using False Suc.prems by (cases k) auto
    ultimately have "length (digits36 (n div 36)) \<le> k" using Suc.IH by blast
    with False show ?thesis by (subst digits36.simps) simp
  qed (subst digits36.simps, simp)
qed simp

lemma hashLoop_append: "hashLoop h (xs @ ys) = hashLoop (hashLoop h xs) ys"
  by (induction xs arbitrary: h) auto

text \<open>Distinct contents can have the same hash: \<open>Aa\<close> and \<open>BB\<close> do, in every context.\<close>

lemma hash_collision: "hashString (p @ js ''Aa'' @ q) = hashString (p @ js ''BB'' @ q)"
proof -
  have "hashLoop h (js ''Aa'') = hashLoop h (js ''BB'')" for h
    by (simp add: js_def push_bit_eq_mult algebra_simps)
  then show ?thesis by (simp add: hashString_def hashLoop_append)
qed

lemma store_simps [simp]:
  "readAnnouncementKeys (markNoticeRead c st) = readAnnouncementKeys st"
  "lastReadNotice (markNoticeRead c st) = trim c"
  "readAnnouncementKeys (markAnnouncementsRead ks st) = js_set (readAnnouncementKeys st @ ks)"
  "lastReadNotice (markAnnouncementsRead ks st) = lastReadNotice st"
  "readAnnouncementKeys (setClosedUntilDate d st) = readAnnouncementKeys st"
  by (simp_all add: markNoticeRead_def markAnnouncementsRead_def setClosedUntilDate_def)

lemma marked_simps [simp]:
  "server (markAnnouncementsAsRead s) = server s"
  "lastReadNotice (store (markAnnouncementsAsRead s)) = lastReadNotice (store s)"
  "set (readAnnouncementKeys (store (markAnnouncementsAsRead s))) =
     set (readAnnouncementKeys (store s)) \<union> getAnnouncementKey ` set (announcements (server s))"
  by (auto simp: markAnnouncementsAsRead_def)

lemma marked_distinct:
  "distinct (readAnnouncementKeys (store s)) \<Longrightarrow> distinct (readAnnouncementKeys (store (markAnnouncementsAsRead s)))"
  by (simp add: markAnnouncementsAsRead_def)

lemma trim_noticeContent [simp]: "trim (noticeContent sd) = noticeContent sd"
  by (simp add: noticeContent_def)

lemma read_mono: "notification_step s s' \<Longrightarrow>
  set (readAnnouncementKeys (store s)) \<subseteq> set (readAnnouncementKeys (store s'))"
  by (erule notification_stepE)
    (auto simp: handleOpenPopover_def handlePopoverOpenChange_def handleTabChange_def Let_def)

lemma distinct_step: "notification_step s s' \<Longrightarrow> distinct (readAnnouncementKeys (store s)) \<Longrightarrow>
  distinct (readAnnouncementKeys (store s'))"
  by (erule notification_stepE)
    (auto simp: handleOpenPopover_def handlePopoverOpenChange_def handleTabChange_def Let_def
      intro!: marked_distinct)

section \<open>Properties\<close>

text \<open>The hash of a fingerprint is a 32-bit signed number in base 36: at most seven characters,
  a sign, digits and lower-case letters.\<close>

theorem hash_bounds:
  "length (hashString s) \<le> 7 \<and> set (hashString s) \<subseteq> {45} \<union> {48..57} \<union> {97..122}"
proof -
  let ?h = "sint (hashLoop 0 s)"
  have "- (2 ^ 31) \<le> ?h" "?h < 2 ^ 31"
    using sint_greater_eq [of "hashLoop 0 s"] sint_less [of "hashLoop 0 s"] by simp_all
  then have "nat \<bar>?h\<bar> < 36 ^ 6" by auto
  then have "length (digits36 (nat \<bar>?h\<bar>)) \<le> 6" by (rule length_digits36) simp
  then show ?thesis
    using digits36_range [of "nat \<bar>?h\<bar>"]
    by (auto simp: hashString_def int_to_string36_def js_def)
qed

text \<open>C36 (invariant): in every state reached from a store without repetitions the read keys have none, and an
  announcement once read stays read.\<close>

theorem read_keys_invariant:
  assumes "notification_step\<^sup>*\<^sup>* s s'" and "distinct (readAnnouncementKeys (store s))"
  shows "distinct (readAnnouncementKeys (store s'))
    \<and> (\<forall>key. isAnnouncementRead (store s) key \<longrightarrow> isAnnouncementRead (store s') key)"
  using assms
proof (induction rule: rtranclp_induct)
  case (step t u)
  then show ?case using read_mono [of t u] distinct_step [of t u] by (auto simp: isAnnouncementRead_def)
qed simp

definition demo_server :: server_data where
  "demo_server =
     \<lparr>notice_success = True, notice_data = Some (js ''hello''), announcements_enabled = True,
      announcements_list = [JObj [(js ''id'', jint 1)]]\<rparr>"

theorem read_keys_invariant_witness:
  "distinct (readAnnouncementKeys (store
     (handleTabChange AnnouncementsTab (useNotifications initial_notifications demo_server))))"
proof -
  let ?s = "useNotifications initial_notifications demo_server"
  have "notification_step\<^sup>*\<^sup>* ?s (handleTabChange AnnouncementsTab ?s)"
    by (rule r_into_rtranclp) (rule notification_step.tab_change)
  moreover have "distinct (readAnnouncementKeys (store ?s))"
    by (simp add: useNotifications_def initial_notifications_def)
  ultimately show ?thesis by (rule read_keys_invariant [THEN conjunct1])
qed

text \<open>Opening the centre reads the notice, and with the announcements tab everything: nothing
  is left unread until new data arrives. Changing to the announcements tab reads all announcements.\<close>

theorem opening_reads:
  "unreadNotice (handleOpenPopover tab s) = 0
   \<and> unreadCount (handleOpenPopover (Some AnnouncementsTab) s) = 0
   \<and> unreadAnnouncements (handleTabChange AnnouncementsTab s) = 0
   \<and> unreadAnnouncements (handleOpenPopover (Some NoticeTab) s) = unreadAnnouncements s"
  by (auto simp: unreadNotice_def unreadCount_def unreadAnnouncements_def handleOpenPopover_def
      handleTabChange_def Let_def isAnnouncementRead_def filter_empty_conv)

end
