(* ===== verification/Navigation.thy ===== *)
theory Navigation
  imports JsObject
begin

text \<open>
  The navigation switches. An administrator edits them with
  \<open>features/system-settings/maintenance/config.ts\<close>; the header reads them with \<open>lib/nav-modules.ts\<close>
  and shows them with \<open>hooks/use-top-nav-links.ts\<close>. Configurations are JSON objects. The two
  functions named \<open>parseHeaderNavModules\<close> are \<open>adminHeaderNavModules\<close> (of the editor) and
  \<open>parseHeaderNavModules\<close> (of the header). Translations and the authentication store are inputs.
  \<open>toLowerCase\<close> is given on the letters A to Z; no other code unit is lowered to a letter of
  \<open>true\<close> or \<open>false\<close>.
\<close>

section \<open>Booleans and access values\<close>

definition lower_unit :: "code_unit \<Rightarrow> code_unit" where
  "lower_unit c = (if 65 \<le> c \<and> c \<le> 90 then c + 32 else c)"

definition toLowerCase :: "js_string \<Rightarrow> js_string" where
  "toLowerCase s = map lower_unit s"

definition string_boolean :: "js_string \<Rightarrow> bool option" where
  "string_boolean s =
     (let normalized = toLowerCase (trim s) in
      if normalized = js ''true'' \<or> normalized = js ''1'' then Some True
      else if normalized = js ''false'' \<or> normalized = js ''0'' then Some False else None)"

definition parseHeaderNavBoolean :: "json option \<Rightarrow> bool \<Rightarrow> bool" where
  "parseHeaderNavBoolean raw fallback =
     (case raw of
        Some (JBool b) \<Rightarrow> b
      | Some (JNum x) \<Rightarrow> if x = num_of_int 1 then True else if x = num_of_int 0 then False else fallback
      | Some (JStr s) \<Rightarrow> (case string_boolean s of Some b \<Rightarrow> b | None \<Rightarrow> fallback)
      | _ \<Rightarrow> fallback)"

definition toBoolean :: "json option \<Rightarrow> bool \<Rightarrow> bool" where
  "toBoolean value fallback =
     (case value of
        Some (JBool b) \<Rightarrow> b
      | Some (JNum x) \<Rightarrow> x = num_of_int 1
      | Some (JStr s) \<Rightarrow> (case string_boolean s of Some b \<Rightarrow> b | None \<Rightarrow> fallback)
      | _ \<Rightarrow> fallback)"

record module_access =
  ma_enabled :: bool
  ma_requireAuth :: bool

definition parseAccess :: "json \<Rightarrow> module_access \<Rightarrow> module_access" where
  "parseAccess raw fallback =
     (if is_scalar raw
      then \<lparr>ma_enabled = parseHeaderNavBoolean (Some raw) (ma_enabled fallback),
            ma_requireAuth = ma_requireAuth fallback\<rparr>
      else if is_object raw
      then \<lparr>ma_enabled = parseHeaderNavBoolean (json_prop raw (js ''enabled'')) (ma_enabled fallback),
            ma_requireAuth = parseHeaderNavBoolean (json_prop raw (js ''requireAuth'')) (ma_requireAuth fallback)\<rparr>
      else fallback)"

definition parseAccessModule :: "json \<Rightarrow> module_access \<Rightarrow> module_access" where
  "parseAccessModule raw fallback =
     (if is_scalar raw
      then \<lparr>ma_enabled = toBoolean (Some raw) (ma_enabled fallback), ma_requireAuth = ma_requireAuth fallback\<rparr>
      else if is_object raw
      then \<lparr>ma_enabled = toBoolean (json_prop raw (js ''enabled'')) (ma_enabled fallback),
            ma_requireAuth = toBoolean (json_prop raw (js ''requireAuth'')) (ma_requireAuth fallback)\<rparr>
      else fallback)"

section \<open>Header modules\<close>

text \<open>\<open>HeaderNavModules\<close>: the two access values, and the switches of all other keys in order.\<close>

record header_modules =
  hm_pricing :: module_access
  hm_rankings :: module_access
  hm_switches :: "(js_string \<times> bool) list"

definition DEFAULT_HEADER_NAV_MODULES :: header_modules where
  "DEFAULT_HEADER_NAV_MODULES =
     \<lparr>hm_pricing = \<lparr>ma_enabled = True, ma_requireAuth = False\<rparr>,
      hm_rankings = \<lparr>ma_enabled = True, ma_requireAuth = False\<rparr>,
      hm_switches = [(js ''home'', True), (js ''console'', True), (js ''docs'', True), (js ''about'', True)]\<rparr>"

definition HEADER_NAV_DEFAULT :: header_modules where
  "HEADER_NAV_DEFAULT =
     \<lparr>hm_pricing = \<lparr>ma_enabled = True, ma_requireAuth = False\<rparr>,
      hm_rankings = \<lparr>ma_enabled = True, ma_requireAuth = False\<rparr>,
      hm_switches = [(js ''home'', True), (js ''console'', True), (js ''docs'', True), (js ''about'', True)]\<rparr>"

definition parseHeaderNavRecord :: "json option \<Rightarrow> json option" where
  "parseHeaderNavRecord raw =
     (case raw of
        None \<Rightarrow> None
      | Some v \<Rightarrow>
          if \<not> truthy v \<or> trim (json_to_string v) = [] then None
          else if is_object v then Some v
          else json_parse (json_to_string v))"

definition headerEntry :: "header_modules \<Rightarrow> js_string \<times> json \<Rightarrow> header_modules" where
  "headerEntry result e =
     (let key = fst e; value = snd e in
      if key = js ''pricing'' then result\<lparr>hm_pricing := parseAccess value (hm_pricing result)\<rparr>
      else if key = js ''rankings'' then result\<lparr>hm_rankings := parseAccess value (hm_rankings result)\<rparr>
      else
        (let fallback = obj_get (hm_switches result) key in
         if fallback \<noteq> None \<or> is_scalar value
         then result\<lparr>hm_switches := obj_set (hm_switches result) key
                (parseHeaderNavBoolean (Some value) (case fallback of Some b \<Rightarrow> b | None \<Rightarrow> True))\<rparr>
         else result))"

definition parseHeaderNavModules :: "json option \<Rightarrow> header_modules" where
  "parseHeaderNavModules raw =
     (case parseHeaderNavRecord raw of
        None \<Rightarrow> DEFAULT_HEADER_NAV_MODULES
      | Some parsed \<Rightarrow>
          if \<not> truthy parsed then DEFAULT_HEADER_NAV_MODULES
          else foldl headerEntry DEFAULT_HEADER_NAV_MODULES (the (entries parsed)))"

definition parseHeaderNavModulesFromStatus :: "json option \<Rightarrow> header_modules" where
  "parseHeaderNavModulesFromStatus status =
     parseHeaderNavModules (opt_prop status (js ''HeaderNavModules''))"

definition adminEntry :: "header_modules \<Rightarrow> js_string \<times> json \<Rightarrow> header_modules" where
  "adminEntry result e =
     (let key = fst e; raw = snd e in
      if key = js ''pricing'' then result\<lparr>hm_pricing := parseAccessModule raw (hm_pricing HEADER_NAV_DEFAULT)\<rparr>
      else if key = js ''rankings''
      then result\<lparr>hm_rankings := parseAccessModule raw (hm_rankings HEADER_NAV_DEFAULT)\<rparr>
      else
        (case raw of
           JBool b \<Rightarrow> result\<lparr>hm_switches := obj_set (hm_switches result) key b\<rparr>
         | JStr _ \<Rightarrow> result\<lparr>hm_switches := obj_set (hm_switches result) key
             (toBoolean (Some raw) (obj_get (hm_switches HEADER_NAV_DEFAULT) key = Some True))\<rparr>
         | JNum _ \<Rightarrow> result\<lparr>hm_switches := obj_set (hm_switches result) key
             (toBoolean (Some raw) (obj_get (hm_switches HEADER_NAV_DEFAULT) key = Some True))\<rparr>
         | _ \<Rightarrow> result))"

definition adminHeaderNavModules :: "js_string option \<Rightarrow> header_modules" where
  "adminHeaderNavModules value =
     (if opt_str value = [] then HEADER_NAV_DEFAULT
      else
        (case json_parse (opt_str value) of
           None \<Rightarrow> HEADER_NAV_DEFAULT
         | Some parsed \<Rightarrow>
             (case entries parsed of
                None \<Rightarrow> HEADER_NAV_DEFAULT | Some es \<Rightarrow> foldl adminEntry HEADER_NAV_DEFAULT es)))"

definition access_json :: "module_access \<Rightarrow> json" where
  "access_json a = JObj [(js ''enabled'', JBool (ma_enabled a)), (js ''requireAuth'', JBool (ma_requireAuth a))]"

text \<open>The configuration as an object: the order of its properties is the one of the defaults, further
  switches follow.\<close>

definition modules_json :: "header_modules \<Rightarrow> json" where
  "modules_json m =
     (let s = hm_switches m in
      JObj (map (\<lambda>(k, b). (k, JBool b)) (take 2 s)
        @ [(js ''pricing'', access_json (hm_pricing m)), (js ''rankings'', access_json (hm_rankings m))]
        @ map (\<lambda>(k, b). (k, JBool b)) (drop 2 s)))"

definition serializeHeaderNavModules :: "header_modules \<Rightarrow> js_string" where
  "serializeHeaderNavModules config = json_stringify (modules_json config)"

section \<open>The cached status\<close>

text \<open>The entry \<open>status\<close> of \<open>localStorage\<close>: \<open>None\<close> when there is none. Storing fails silently when the
  quota does not allow it (\<open>writable\<close>).\<close>

definition getCachedStatus :: "js_string option \<Rightarrow> json option" where
  "getCachedStatus raw =
     (if opt_str raw = [] then None
      else (case json_parse (opt_str raw) of Some JNull \<Rightarrow> None | r \<Rightarrow> r))"

definition cacheStatus :: "bool \<Rightarrow> json option \<Rightarrow> js_string option \<Rightarrow> js_string option" where
  "cacheStatus writable status cache =
     (if truthy_opt status \<and> writable then Some (json_stringify (the status)) else cache)"

datatype header_nav_module = Rankings | Pricing

definition getModuleAccessFromStatus :: "json option \<Rightarrow> header_nav_module \<Rightarrow> module_access" where
  "getModuleAccessFromStatus status m =
     (case m of
        Pricing \<Rightarrow> hm_pricing (parseHeaderNavModulesFromStatus status)
      | Rankings \<Rightarrow> hm_rankings (parseHeaderNavModulesFromStatus status))"

definition getModuleAccess :: "js_string option \<Rightarrow> header_nav_module \<Rightarrow> module_access" where
  "getModuleAccess cache m = getModuleAccessFromStatus (getCachedStatus cache) m"

text \<open>The response of \<open>getStatus\<close> is an input: \<open>None\<close> when the request fails, else its value
  (\<open>Some None\<close> for \<open>null\<close>).\<close>

definition getFreshModuleAccess ::
  "bool \<Rightarrow> json option option \<Rightarrow> header_nav_module \<Rightarrow> js_string option \<Rightarrow> module_access \<times> js_string option" where
  "getFreshModuleAccess writable response m cache =
     (case response of
        None \<Rightarrow> (\<lparr>ma_enabled = False, ma_requireAuth = True\<rparr>, cache)
      | Some status \<Rightarrow> (getModuleAccessFromStatus status m, cacheStatus writable status cache))"

text \<open>Reading a property of \<open>null\<close> throws, which is caught.\<close>

definition isSidebarModuleEnabled :: "js_string option \<Rightarrow> js_string \<Rightarrow> js_string \<Rightarrow> bool" where
  "isSidebarModuleEnabled cache section mod' =
     (case getCachedStatus cache of
        None \<Rightarrow> True
      | Some status \<Rightarrow>
          if \<not> truthy status then True
          else
            (case json_prop status (js ''SidebarModulesAdmin'') of
               None \<Rightarrow> True
             | Some raw \<Rightarrow>
                 if \<not> truthy raw \<or> trim (json_to_string raw) = [] then True
                 else
                   (case json_parse (json_to_string raw) of
                      None \<Rightarrow> True
                    | Some parsed \<Rightarrow>
                        (case json_prop parsed section of
                           None \<Rightarrow> True
                         | Some sectionConfig \<Rightarrow>
                             if \<not> truthy sectionConfig then True
                             else if json_prop sectionConfig (js ''enabled'') = Some (JBool False) then False
                             else if json_prop sectionConfig mod' = Some (JBool False) then False
                             else True))))"

section \<open>Top navigation\<close>

record nav_link =
  link_title :: js_string
  link_href :: js_string
  link_requiresAuth :: "bool option"
  link_external :: "bool option"

definition plain_link :: "js_string \<Rightarrow> js_string \<Rightarrow> nav_link" where
  "plain_link title href =
     \<lparr>link_title = title, link_href = href, link_requiresAuth = None, link_external = None\<rparr>"

definition access_link :: "bool \<Rightarrow> module_access \<Rightarrow> js_string \<Rightarrow> js_string \<Rightarrow> nav_link list" where
  "access_link isAuthed a title href =
     (if ma_enabled a
      then [(plain_link title href)\<lparr>link_requiresAuth := Some (ma_requireAuth a \<and> \<not> isAuthed)\<rparr>] else [])"

definition shown :: "header_modules \<Rightarrow> js_string \<Rightarrow> bool" where
  "shown m k \<longleftrightarrow> obj_get (hm_switches m) k \<noteq> Some False"

definition useTopNavLinks :: "(js_string \<Rightarrow> js_string) \<Rightarrow> json option \<Rightarrow> bool \<Rightarrow> nav_link list" where
  "useTopNavLinks t status isAuthed =
     (let modules = parseHeaderNavModulesFromStatus status;
          docsLink = opt_prop status (js ''docs_link'') in
      (if shown modules (js ''home'') then [plain_link (t (js ''Home'')) (js ''/'')] else [])
      @ (if shown modules (js ''console'') then [plain_link (t (js ''Console'')) (js ''/dashboard'')] else [])
      @ access_link isAuthed (hm_pricing modules) (t (js ''Model Square'')) (js ''/pricing'')
      @ access_link isAuthed (hm_rankings modules) (t (js ''Rankings'')) (js ''/rankings'')
      @ (if shown modules (js ''docs'')
         then (if truthy_opt docsLink
               then [(plain_link (t (js ''Docs'')) (str_of docsLink))\<lparr>link_external := Some True\<rparr>]
               else [plain_link (t (js ''Docs'')) (js ''/docs'')])
         else [])
      @ (if shown modules (js ''about'') then [plain_link (t (js ''About'')) (js ''/about'')] else []))"

end
