(* ===== verification/Sidebar.thy ===== *)
theory Sidebar
  imports Navigation
begin

text \<open>
  The side bar: the administrator's editor of its modules (\<open>parseSidebarModulesAdmin\<close> and
  \<open>serializeSidebarModulesAdmin\<close> of \<open>features/system-settings/maintenance/config.ts\<close>) and the hook
  \<open>hooks/use-sidebar-config.ts\<close> that filters the navigation by the administrator's and the user's
  configuration. The hook reads whatever JSON it finds, so its configurations are property lists
  over JSON values; the editor's are switches.
\<close>

section \<open>Configurations\<close>

type_synonym switches = "(js_string \<times> bool) list"

definition SIDEBAR_MODULES_DEFAULT :: "(js_string \<times> switches) list" where
  "SIDEBAR_MODULES_DEFAULT =
     [(js ''chat'', [(js ''enabled'', True), (js ''playground'', True), (js ''chat'', True)]),
      (js ''console'', [(js ''enabled'', True), (js ''detail'', True), (js ''token'', True), (js ''log'', True),
         (js ''midjourney'', True), (js ''task'', True)]),
      (js ''personal'', [(js ''enabled'', True), (js ''topup'', True), (js ''personal'', True)]),
      (js ''admin'', [(js ''enabled'', True), (js ''channel'', True), (js ''models'', True),
         (js ''redemption'', True), (js ''user'', True), (js ''setting'', True), (js ''subscription'', True)])]"

text \<open>The hook declares the same table again.\<close>

definition switches_json :: "switches \<Rightarrow> obj" where
  "switches_json sw = map (\<lambda>(k, b). (k, JBool b)) sw"

definition DEFAULT_SIDEBAR_MODULES :: obj where
  "DEFAULT_SIDEBAR_MODULES =
     [(js ''chat'', JObj (switches_json
         [(js ''enabled'', True), (js ''playground'', True), (js ''chat'', True)])),
      (js ''console'', JObj (switches_json
         [(js ''enabled'', True), (js ''detail'', True), (js ''token'', True), (js ''log'', True),
          (js ''midjourney'', True), (js ''task'', True)])),
      (js ''personal'', JObj (switches_json
         [(js ''enabled'', True), (js ''topup'', True), (js ''personal'', True)])),
      (js ''admin'', JObj (switches_json
         [(js ''enabled'', True), (js ''channel'', True), (js ''models'', True), (js ''redemption'', True),
          (js ''user'', True), (js ''setting'', True), (js ''subscription'', True)]))]"

section \<open>The editor\<close>

definition adminModule :: "switches \<Rightarrow> switches \<Rightarrow> js_string \<times> json \<Rightarrow> switches" where
  "adminModule defaultSection sectionConfig e =
     (if fst e = js ''enabled'' then sectionConfig
      else obj_set sectionConfig (fst e)
        (toBoolean (Some (snd e)) (case obj_get defaultSection (fst e) of Some b \<Rightarrow> b | None \<Rightarrow> True)))"

definition adminSection ::
  "(js_string \<times> switches) list \<Rightarrow> js_string \<times> json \<Rightarrow> (js_string \<times> switches) list" where
  "adminSection result e =
     (let sectionKey = fst e; raw = snd e in
      if \<not> is_object raw then result
      else
        (let defaultSection =
               (case obj_get SIDEBAR_MODULES_DEFAULT sectionKey of
                  Some d \<Rightarrow> d | None \<Rightarrow> [(js ''enabled'', True)]);
             sectionConfig =
               [(js ''enabled'', toBoolean (json_prop raw (js ''enabled''))
                   (case obj_get defaultSection (js ''enabled'') of Some b \<Rightarrow> b | None \<Rightarrow> True))] in
         obj_set result sectionKey (foldl (adminModule defaultSection) sectionConfig (the (entries raw)))))"

definition addMissing :: "switches \<Rightarrow> js_string \<times> bool \<Rightarrow> switches" where
  "addMissing sec m = (if obj_has sec (fst m) then sec else obj_set sec (fst m) (snd m))"

definition mergeDefault ::
  "(js_string \<times> switches) list \<Rightarrow> js_string \<times> switches \<Rightarrow> (js_string \<times> switches) list" where
  "mergeDefault result d =
     (case obj_get result (fst d) of
        None \<Rightarrow> obj_set result (fst d) (snd d)
      | Some sec \<Rightarrow> obj_set result (fst d) (foldl addMissing sec (snd d)))"

definition parseSidebarModulesAdmin :: "js_string option \<Rightarrow> (js_string \<times> switches) list" where
  "parseSidebarModulesAdmin value =
     (if trim (opt_str value) = [] then SIDEBAR_MODULES_DEFAULT
      else
        (case json_parse (opt_str value) of
           None \<Rightarrow> SIDEBAR_MODULES_DEFAULT
         | Some parsed \<Rightarrow>
             (case entries parsed of
                None \<Rightarrow> SIDEBAR_MODULES_DEFAULT
              | Some es \<Rightarrow> foldl mergeDefault (foldl adminSection [] es) SIDEBAR_MODULES_DEFAULT)))"

definition sidebar_json :: "(js_string \<times> switches) list \<Rightarrow> json" where
  "sidebar_json config = JObj (map (\<lambda>(k, sw). (k, JObj (switches_json sw))) config)"

definition serializeSidebarModulesAdmin :: "(js_string \<times> switches) list \<Rightarrow> js_string" where
  "serializeSidebarModulesAdmin config = json_stringify (sidebar_json config)"

section \<open>The hook\<close>

text \<open>The properties a spread copies.\<close>

definition spread_of :: "json \<Rightarrow> obj" where
  "spread_of v = (case entries v of None \<Rightarrow> [] | Some ps \<Rightarrow> ps)"

definition mergeSection :: "obj \<Rightarrow> js_string \<times> json \<Rightarrow> obj" where
  "mergeSection merged d =
     (let defaultSection = spread_of (snd d) in
      if \<not> truthy_opt (obj_get merged (fst d)) then obj_set merged (fst d) (JObj defaultSection)
      else
        (let sec = obj_spread defaultSection (spread_of (the (obj_get merged (fst d)))) in
         obj_set merged (fst d)
           (JObj (foldl (\<lambda>s (k, v). if obj_get s k = None then obj_set s k v else s) sec defaultSection))))"

definition mergeWithDefaultSidebarModules :: "json \<Rightarrow> obj" where
  "mergeWithDefaultSidebarModules config = foldl mergeSection (spread_of config) DEFAULT_SIDEBAR_MODULES"

record config_keys =
  ck_section :: js_string
  ck_module :: js_string

definition keys :: "string \<Rightarrow> string \<Rightarrow> config_keys" where
  "keys s m = \<lparr>ck_section = js s, ck_module = js m\<rparr>"

definition URL_TO_CONFIG_MAP :: "(js_string \<times> config_keys) list" where
  "URL_TO_CONFIG_MAP =
     [(js ''/playground'', keys ''chat'' ''playground''),
      (js ''/dashboard'', keys ''console'' ''detail''),
      (js ''/dashboard/overview'', keys ''console'' ''detail''),
      (js ''/dashboard/models'', keys ''console'' ''detail''),
      (js ''/dashboard/users'', keys ''console'' ''detail''),
      (js ''/keys'', keys ''console'' ''token''),
      (js ''/usage-logs'', keys ''console'' ''log''),
      (js ''/usage-logs/common'', keys ''console'' ''log''),
      (js ''/usage-logs/drawing'', keys ''console'' ''midjourney''),
      (js ''/usage-logs/task'', keys ''console'' ''task''),
      (js ''/wallet'', keys ''personal'' ''topup''),
      (js ''/profile'', keys ''personal'' ''personal''),
      (js ''/channels'', keys ''admin'' ''channel''),
      (js ''/models'', keys ''admin'' ''models''),
      (js ''/models/metadata'', keys ''admin'' ''models''),
      (js ''/models/deployments'', keys ''admin'' ''models''),
      (js ''/users'', keys ''admin'' ''user''),
      (js ''/redemption-codes'', keys ''admin'' ''redemption''),
      (js ''/subscriptions'', keys ''admin'' ''subscription''),
      (js ''/system-settings'', keys ''admin'' ''setting''),
      (js ''/system-settings/site'', keys ''admin'' ''setting'')]"

definition parseSidebarConfig :: "js_string option \<Rightarrow> obj" where
  "parseSidebarConfig value =
     (if trim (opt_str value) = [] then DEFAULT_SIDEBAR_MODULES
      else
        (case json_parse (opt_str value) of
           None \<Rightarrow> DEFAULT_SIDEBAR_MODULES | Some parsed \<Rightarrow> mergeWithDefaultSidebarModules parsed))"

definition parseUserSidebarConfig :: "js_string option \<Rightarrow> json option" where
  "parseUserSidebarConfig value =
     (if trim (opt_str value) = [] then None
      else
        (case json_parse (opt_str value) of
           None \<Rightarrow> None | Some parsed \<Rightarrow> if is_object parsed then Some parsed else None))"

text \<open>The administrator's gate and the user's overlay on one module.\<close>

definition adminAllowed :: "obj \<Rightarrow> config_keys \<Rightarrow> bool" where
  "adminAllowed adminConfig m =
     (let sec = obj_get adminConfig (ck_section m) in
      truthy_opt sec \<and> truthy_opt (opt_prop sec (js ''enabled'')) \<and> is_true (opt_prop sec (ck_module m)))"

definition userAllows :: "json option \<Rightarrow> config_keys \<Rightarrow> bool" where
  "userAllows userConfig m =
     (case userConfig of
        None \<Rightarrow> True
      | Some u \<Rightarrow>
          (let sec = json_prop u (ck_section m) in
           if \<not> truthy_opt sec then True
           else if opt_prop sec (js ''enabled'') = Some (JBool False) then False
           else opt_prop sec (ck_module m) \<noteq> Some (JBool False)))"

definition isModuleEnabled :: "js_string \<Rightarrow> obj \<Rightarrow> json option \<Rightarrow> bool" where
  "isModuleEnabled url adminConfig userConfig =
     (case obj_get URL_TO_CONFIG_MAP url of
        None \<Rightarrow> True
      | Some m \<Rightarrow> if \<not> adminAllowed adminConfig m then False else userAllows userConfig m)"

text \<open>Navigation items; \<open>nb_rest\<close> stands for the title, badge, icon and active URLs.\<close>

record 'r nav_base =
  nb_configUrls :: "js_string list option"
  nb_rest :: 'r

datatype 'r nav_item =
    NavLink "'r nav_base" js_string
  | NavCollapsible "'r nav_base" "('r nav_base \<times> js_string) list"
  | NavChatPresets "'r nav_base"

record 'r nav_group =
  ng_id :: "js_string option"
  ng_title :: js_string
  ng_items :: "'r nav_item list"

definition isNavItemVisible :: "'r nav_item \<Rightarrow> obj \<Rightarrow> json option \<Rightarrow> bool" where
  "isNavItemVisible item adminConfig userConfig =
     (case item of
        NavChatPresets b \<Rightarrow>
          (let m = keys ''chat'' ''chat'' in
           if \<not> adminAllowed adminConfig m then False else userAllows userConfig m)
      | NavLink b url \<Rightarrow>
          if url \<noteq> []
          then list_ex (\<lambda>u. isModuleEnabled u adminConfig userConfig)
                 (case nb_configUrls b of None \<Rightarrow> [url] | Some us \<Rightarrow> us)
          else True
      | NavCollapsible b items \<Rightarrow> list_ex (\<lambda>s. isModuleEnabled (snd s) adminConfig userConfig) items)"

definition filterSubItems :: "obj \<Rightarrow> json option \<Rightarrow> 'r nav_item \<Rightarrow> 'r nav_item" where
  "filterSubItems adminConfig userConfig item =
     (case item of
        NavCollapsible b items \<Rightarrow>
          NavCollapsible b (filter (\<lambda>s. isModuleEnabled (snd s) adminConfig userConfig) items)
      | _ \<Rightarrow> item)"

definition filterNavItems :: "'r nav_item list \<Rightarrow> obj \<Rightarrow> json option \<Rightarrow> 'r nav_item list" where
  "filterNavItems items adminConfig userConfig =
     filter (\<lambda>item. isNavItemVisible item adminConfig userConfig)
       (map (filterSubItems adminConfig userConfig) items)"

text \<open>The status, the permission and the modules of the signed-in user are inputs.\<close>

definition useSidebarConfig ::
  "json option \<Rightarrow> json option \<Rightarrow> js_string option \<Rightarrow> 'r nav_group list \<Rightarrow> 'r nav_group list" where
  "useSidebarConfig status sidebar_settings sidebar_modules navGroups =
     (let adminConfig = parseSidebarConfig (Some (str_of (opt_prop status (js ''SidebarModulesAdmin''))));
          userConfig = (if sidebar_settings = Some (JBool False) then None
                        else parseUserSidebarConfig sidebar_modules) in
      filter (\<lambda>g. 0 < length (ng_items g))
        (map (\<lambda>g. g\<lparr>ng_items := filterNavItems (ng_items g) adminConfig userConfig\<rparr>) navGroups))"

end
