(* ===== verification/NavigationProps.thy ===== *)
theory NavigationProps
  imports Sidebar
begin

text \<open>
  What an administrator saves in the editor is what the header, the side bar and the route guard
  read; and the user's overlay of the side bar only narrows.
\<close>

section \<open>Header\<close>

definition named :: "switches \<Rightarrow> bool" where
  "named sw \<longleftrightarrow> list_all (\<lambda>p. plain_key (fst p) \<and> str_ok (fst p)) sw"

text \<open>A configuration of the editor: the switches of the defaults in their order, then others.\<close>

definition header_ok :: "header_modules \<Rightarrow> bool" where
  "header_ok m \<longleftrightarrow>
     map fst (take 4 (hm_switches m)) = [js ''home'', js ''console'', js ''docs'', js ''about'']
     \<and> distinct (map fst (hm_switches m)) \<and> named (hm_switches m)
     \<and> js ''pricing'' \<notin> fst ` set (hm_switches m) \<and> js ''rankings'' \<notin> fst ` set (hm_switches m)"

lemma header_ok_cases:
  assumes "header_ok m"
  obtains h c d a rest where
    "hm_switches m = (js ''home'', h) # (js ''console'', c) # (js ''docs'', d) # (js ''about'', a) # rest"
proof -
  obtain p q r t rest where sw: "hm_switches m = p # q # r # t # rest"
  proof -
    have "length (take 4 (hm_switches m)) = 4"
      using assms by (metis header_ok_def length_map list.size(3,4) numeral_2_eq_2 numeral_Bit0 add_Suc_right add_0 Suc_eq_plus1)
    then show ?thesis using that
      by (cases "hm_switches m"; cases "tl (hm_switches m)"; cases "tl (tl (hm_switches m))";
          cases "tl (tl (tl (hm_switches m)))") auto
  qed
  then show ?thesis using assms that by (cases p; cases q; cases r; cases t) (auto simp: header_ok_def)
qed

lemma obj_set_new: "obj_get ps k = None \<Longrightarrow> obj_set ps k v = ps @ [(k, v)]"
  by (induction ps) (auto split: if_splits)

lemma foldl_headerEntry:
  "distinct (map fst (hm_switches acc @ rest)) \<Longrightarrow> js ''pricing'' \<notin> fst ` set rest \<Longrightarrow>
   js ''rankings'' \<notin> fst ` set rest \<Longrightarrow>
   foldl headerEntry acc (switches_json rest) = acc\<lparr>hm_switches := hm_switches acc @ rest\<rparr>"
proof (induction rest arbitrary: acc)
  case (Cons p rest)
  obtain k b where p: "p = (k, b)" by force
  have "obj_get (hm_switches acc) k = None"
    using Cons.prems p by (auto simp: obj_get_eq_None_iff)
  then have "headerEntry acc (k, JBool b) = acc\<lparr>hm_switches := hm_switches acc @ [(k, b)]\<rparr>"
    using Cons.prems p
    by (auto simp: headerEntry_def Let_def is_scalar_def parseHeaderNavBoolean_def obj_set_new)
  then show ?case
    using Cons.IH [of "acc\<lparr>hm_switches := hm_switches acc @ [(k, b)]\<rparr>"] Cons.prems p
    by (simp add: switches_json_def)
qed (simp add: switches_json_def)

lemma foldl_adminEntry:
  "distinct (map fst (hm_switches acc @ rest)) \<Longrightarrow> js ''pricing'' \<notin> fst ` set rest \<Longrightarrow>
   js ''rankings'' \<notin> fst ` set rest \<Longrightarrow>
   foldl adminEntry acc (switches_json rest) = acc\<lparr>hm_switches := hm_switches acc @ rest\<rparr>"
proof (induction rest arbitrary: acc)
  case (Cons p rest)
  obtain k b where p: "p = (k, b)" by force
  have "obj_get (hm_switches acc) k = None"
    using Cons.prems p by (auto simp: obj_get_eq_None_iff)
  then have "adminEntry acc (k, JBool b) = acc\<lparr>hm_switches := hm_switches acc @ [(k, b)]\<rparr>"
    using Cons.prems p by (auto simp: adminEntry_def Let_def obj_set_new)
  then show ?case
    using Cons.IH [of "acc\<lparr>hm_switches := hm_switches acc @ [(k, b)]\<rparr>"] Cons.prems p
    by (simp add: switches_json_def)
qed (simp add: switches_json_def)

lemma access_json_read [simp]:
  "parseAccess (access_json a) d = a" "parseAccessModule (access_json a) d = a"
  by (simp_all add: parseAccess_def parseAccessModule_def access_json_def is_scalar_def is_object_def
      parseHeaderNavBoolean_def toBoolean_def)

lemma modules_entries:
  assumes "hm_switches m = (js ''home'', h) # (js ''console'', c) # (js ''docs'', d) # (js ''about'', a) # rest"
  shows "modules_json m = JObj ([(js ''home'', JBool h), (js ''console'', JBool c),
      (js ''pricing'', access_json (hm_pricing m)), (js ''rankings'', access_json (hm_rankings m)),
      (js ''docs'', JBool d), (js ''about'', JBool a)] @ switches_json rest)"
  by (simp add: modules_json_def Let_def assms switches_json_def)

lemma header_entries_read:
  assumes "header_ok m" and "modules_json m = JObj es"
  shows "foldl headerEntry DEFAULT_HEADER_NAV_MODULES es = m" and "foldl adminEntry HEADER_NAV_DEFAULT es = m"
proof -
  obtain h c d a rest where
    sw: "hm_switches m = (js ''home'', h) # (js ''console'', c) # (js ''docs'', d) # (js ''about'', a) # rest"
    by (rule header_ok_cases [OF assms(1)])
  let ?m = "m\<lparr>hm_switches := [(js ''home'', h), (js ''console'', c), (js ''docs'', d), (js ''about'', a)]\<rparr>"
  let ?first = "[(js ''home'', JBool h), (js ''console'', JBool c),
      (js ''pricing'', access_json (hm_pricing m)), (js ''rankings'', access_json (hm_rankings m)),
      (js ''docs'', JBool d), (js ''about'', JBool a)]"
  have es: "es = ?first @ switches_json rest" using assms(2) modules_entries [OF sw] by simp
  have keys: "distinct (map fst (hm_switches ?m @ rest))" "js ''pricing'' \<notin> fst ` set rest"
    "js ''rankings'' \<notin> fst ` set rest"
    using assms(1) by (auto simp: header_ok_def sw)
  have m: "m = ?m\<lparr>hm_switches := hm_switches ?m @ rest\<rparr>" using sw by simp
  have "foldl headerEntry DEFAULT_HEADER_NAV_MODULES ?first = ?m"
    by (simp add: headerEntry_def Let_def DEFAULT_HEADER_NAV_MODULES_def parseHeaderNavBoolean_def is_scalar_def)
  then show "foldl headerEntry DEFAULT_HEADER_NAV_MODULES es = m"
    using foldl_headerEntry [OF keys] by (simp add: es sw)
  have "foldl adminEntry HEADER_NAV_DEFAULT ?first = ?m"
    by (simp add: adminEntry_def Let_def HEADER_NAV_DEFAULT_def)
  then show "foldl adminEntry HEADER_NAV_DEFAULT es = m"
    using foldl_adminEntry [OF keys] by (simp add: es sw)
qed

lemma json_ok_plain:
  "distinct (map fst ps) \<Longrightarrow> list_all (\<lambda>p. plain_key (fst p) \<and> str_ok (fst p) \<and> json_ok (snd p)) ps \<Longrightarrow>
   json_ok (JObj ps)"
  using own_order_plain [of ps] by (auto simp: list_all_iff)

lemma json_ok_switches: "distinct (map fst sw) \<Longrightarrow> named sw \<Longrightarrow> json_ok (JObj (switches_json sw))"
  by (rule json_ok_plain) (auto simp: switches_json_def named_def list_all_iff o_def case_prod_beta)

lemma json_ok_access: "json_ok (access_json a)"
  unfolding access_json_def by (rule json_ok_plain) (simp_all add: is_digit_def)

lemma json_ok_modules:
  assumes "header_ok m"
  shows "json_ok (modules_json m)"
proof -
  obtain h c d a rest where
    sw: "hm_switches m = (js ''home'', h) # (js ''console'', c) # (js ''docs'', d) # (js ''about'', a) # rest"
    by (rule header_ok_cases [OF assms])
  let ?es = "[(js ''home'', JBool h), (js ''console'', JBool c),
      (js ''pricing'', access_json (hm_pricing m)), (js ''rankings'', access_json (hm_rankings m)),
      (js ''docs'', JBool d), (js ''about'', JBool a)] @ switches_json rest"
  have "list_all (\<lambda>p. plain_key (fst p) \<and> str_ok (fst p) \<and> json_ok (snd p)) ?es"
    using assms json_ok_access
    by (auto simp: header_ok_def named_def sw switches_json_def list_all_iff is_digit_def)
  moreover have "distinct (map fst ?es)"
    using assms by (auto simp: header_ok_def sw switches_json_def o_def case_prod_beta image_iff)
  ultimately have "json_ok (JObj ?es)"
    by (intro json_ok_plain)
  then show ?thesis by (simp only: modules_entries [OF sw])
qed

section \<open>Side bar\<close>

definition section_ok :: "switches \<Rightarrow> bool" where
  "section_ok sw \<longleftrightarrow>
     map fst (take 1 sw) = [js ''enabled''] \<and> distinct (map fst sw) \<and> named sw"

text \<open>A configuration of the editor: it has the sections and modules of the defaults.\<close>

definition editor_ok :: "(js_string \<times> switches) list \<Rightarrow> bool" where
  "editor_ok cfg \<longleftrightarrow>
     distinct (map fst cfg)
     \<and> list_all (\<lambda>(k, sw). plain_key k \<and> str_ok k \<and> section_ok sw) cfg
     \<and> list_all (\<lambda>(k, d). \<exists>sw. obj_get cfg k = Some sw \<and> list_all (\<lambda>p. obj_has sw (fst p)) d)
         SIDEBAR_MODULES_DEFAULT"

definition switch_on :: "(js_string \<times> switches) list \<Rightarrow> config_keys \<Rightarrow> bool" where
  "switch_on cfg m =
     (case obj_get cfg (ck_section m) of
        None \<Rightarrow> False
      | Some sw \<Rightarrow> obj_get sw (js ''enabled'') = Some True \<and> obj_get sw (ck_module m) = Some True)"

lemma foldl_adminModule:
  "distinct (map fst (acc @ rest)) \<Longrightarrow> js ''enabled'' \<notin> fst ` set rest \<Longrightarrow>
   foldl (adminModule d) acc (switches_json rest) = acc @ rest"
proof (induction rest arbitrary: acc)
  case (Cons p rest)
  obtain k b where p: "p = (k, b)" by force
  have "obj_get acc k = None" using Cons.prems p by (auto simp: obj_get_eq_None_iff)
  then have "adminModule d acc (k, JBool b) = acc @ [(k, b)]"
    using Cons.prems p by (auto simp: adminModule_def toBoolean_def obj_set_new)
  then show ?case using Cons.IH [of "acc @ [(k, b)]"] Cons.prems p by (simp add: switches_json_def)
qed (simp add: switches_json_def)

lemma adminSection_read:
  assumes "section_ok sw" and "obj_get acc k = None"
  shows "adminSection acc (k, JObj (switches_json sw)) = acc @ [(k, sw)]"
proof -
  obtain b rest where sw: "sw = (js ''enabled'', b) # rest"
    using assms(1) by (cases sw) (auto simp: section_ok_def)
  have "foldl (adminModule d) [(js ''enabled'', b)] (switches_json sw) = sw" for d
  proof -
    have "foldl (adminModule d) [(js ''enabled'', b)] (switches_json sw) =
        foldl (adminModule d) [(js ''enabled'', b)] (switches_json rest)"
      by (simp add: sw switches_json_def adminModule_def)
    also have "\<dots> = [(js ''enabled'', b)] @ rest"
      by (rule foldl_adminModule) (use assms(1) in \<open>auto simp: section_ok_def sw\<close>)
    finally show ?thesis by (simp add: sw)
  qed
  moreover have "toBoolean (json_prop (JObj (switches_json sw)) (js ''enabled'')) x = b" for x
    by (simp add: sw switches_json_def toBoolean_def)
  ultimately show ?thesis
    using assms(2) by (simp add: adminSection_def Let_def is_object_def entries_def obj_set_new)
qed

lemma foldl_adminSection:
  "distinct (map fst (acc @ cfg)) \<Longrightarrow> list_all (\<lambda>(k, sw). section_ok sw) cfg \<Longrightarrow>
   foldl adminSection acc (map (\<lambda>(k, sw). (k, JObj (switches_json sw))) cfg) = acc @ cfg"
proof (induction cfg arbitrary: acc)
  case (Cons p cfg)
  obtain k sw where p: "p = (k, sw)" by force
  have "obj_get acc k = None" using Cons.prems p by (auto simp: obj_get_eq_None_iff)
  then show ?case
    using Cons.IH [of "acc @ [(k, sw)]"] Cons.prems p by (simp add: adminSection_read)
qed simp

lemma foldl_mergeDefault:
  "list_all (\<lambda>(k, d). \<exists>sw. obj_get cfg k = Some sw \<and> list_all (\<lambda>p. obj_has sw (fst p)) d) ds \<Longrightarrow>
   foldl mergeDefault cfg ds = cfg"
proof (induction ds)
  case (Cons x ds)
  obtain k d where x: "x = (k, d)" by force
  obtain sw where sw: "obj_get cfg k = Some sw" "list_all (\<lambda>p. obj_has sw (fst p)) d"
    using Cons.prems x by auto
  have "foldl addMissing sw d = sw" using sw(2) by (induction d) (auto simp: addMissing_def)
  then have "mergeDefault cfg x = cfg" by (simp add: mergeDefault_def x sw(1) obj_set_same)
  with Cons show ?case by simp
qed simp

lemma json_ok_sidebar:
  assumes "editor_ok cfg"
  shows "json_ok (sidebar_json cfg)"
proof -
  have "json_ok (JObj (switches_json sw))" if "(k, sw) \<in> set cfg" for k sw
    using that assms by (intro json_ok_switches) (auto simp: editor_ok_def section_ok_def list_all_iff)
  then show ?thesis
    unfolding sidebar_json_def using assms
    by (intro json_ok_plain)
      (auto simp: editor_ok_def list_all_iff o_def case_prod_beta simp del: json_ok.simps(6))
qed

lemma editor_roundtrip:
  assumes "editor_ok cfg"
  shows "parseSidebarModulesAdmin (Some (serializeSidebarModulesAdmin cfg)) = cfg"
proof -
  have parse: "json_parse (serializeSidebarModulesAdmin cfg) = Some (sidebar_json cfg)"
    unfolding serializeSidebarModulesAdmin_def by (rule json_parse_stringify [OF json_ok_sidebar [OF assms]])
  then have "trim (serializeSidebarModulesAdmin cfg) \<noteq> []" using json_parse_blank by fastforce
  moreover have "foldl adminSection [] (map (\<lambda>(k, sw). (k, JObj (switches_json sw))) cfg) = cfg"
    using foldl_adminSection [of "[]" cfg] assms by (auto simp: editor_ok_def list_all_iff)
  moreover have "foldl mergeDefault cfg SIDEBAR_MODULES_DEFAULT = cfg"
    using foldl_mergeDefault assms by (simp add: editor_ok_def)
  ultimately show ?thesis
    using parse by (simp add: parseSidebarModulesAdmin_def opt_str_def sidebar_json_def entries_def)
qed

text \<open>What the hook's merge makes of one section.\<close>

lemma get_mergeSection_other: "k \<noteq> fst d \<Longrightarrow> obj_get (mergeSection c d) k = obj_get c k"
  by (simp add: mergeSection_def Let_def)

lemma get_foldl_mergeSection:
  "distinct (map fst ds) \<Longrightarrow> (k, v) \<in> set ds \<Longrightarrow>
   obj_get (foldl mergeSection c ds) k = obj_get (mergeSection c (k, v)) k"
proof (induction ds arbitrary: c)
  case (Cons d ds)
  have other: "k' \<notin> fst ` set ds \<Longrightarrow> obj_get (foldl mergeSection c ds) k' = obj_get c k'" for c k'
    by (induction ds arbitrary: c) (auto simp: get_mergeSection_other)
  show ?case
  proof (cases "d = (k, v)")
    case True
    then show ?thesis using Cons.prems other [of k] by auto
  next
    case False
    then have "(k, v) \<in> set ds" "fst d \<noteq> k" using Cons.prems by (auto simp: rev_image_eqI)
    then have "obj_get (foldl mergeSection (mergeSection c d) ds) k = obj_get (mergeSection (mergeSection c d) (k, v)) k"
      using Cons.IH Cons.prems by simp
    also have "\<dots> = obj_get (mergeSection c (k, v)) k"
      using \<open>fst d \<noteq> k\<close> by (simp add: mergeSection_def [of _ "(k, v)"] Let_def get_mergeSection_other)
    finally show ?thesis by simp
  qed
qed simp

lemma get_fill: "obj_get s k = Some x \<Longrightarrow>
  obj_get (foldl (\<lambda>s (k, v). if obj_get s k = None then obj_set s k v else s) s ds) k = Some x"
proof (induction ds arbitrary: s)
  case (Cons d ds)
  then have "obj_get (if obj_get s (fst d) = None then obj_set s (fst d) (snd d) else s) k = Some x" by auto
  from Cons.IH [OF this] show ?case by (simp add: case_prod_beta)
qed simp

lemma get_switches_json [simp]: "obj_get (switches_json sw) k = map_option JBool (obj_get sw k)"
  by (induction sw) (auto simp: switches_json_def)

lemma merged_section:
  assumes "obj_get c k = Some (JObj (switches_json sw))" and "distinct (map fst sw)"
    and "obj_get sw j = Some b"
  shows "\<exists>ps. obj_get (mergeSection c (k, v)) k = Some (JObj ps) \<and> obj_get ps j = Some (JBool b)"
proof -
  have "distinct (map fst (switches_json sw))"
    using assms(2) by (simp add: switches_json_def o_def case_prod_beta)
  then have "obj_get (obj_spread d (switches_json sw)) j = Some (JBool b)" for d
    using assms(3) by (simp add: obj_get_spread)
  then show ?thesis
    using assms(1) by (simp add: mergeSection_def Let_def truthy_opt_def spread_of_def entries_def get_fill)
qed

lemma url_map_default:
  assumes "obj_get URL_TO_CONFIG_MAP url = Some m"
  shows "\<exists>d. (ck_section m, d) \<in> set SIDEBAR_MODULES_DEFAULT \<and> ck_module m \<in> fst ` set d"
proof -
  have "list_all (\<lambda>p. \<exists>x\<in>set SIDEBAR_MODULES_DEFAULT. fst x = ck_section (snd p) \<and> ck_module (snd p) \<in> set (map fst (snd x)))
      URL_TO_CONFIG_MAP"
    by (simp add: URL_TO_CONFIG_MAP_def SIDEBAR_MODULES_DEFAULT_def keys_def)
  moreover have "(url, m) \<in> set URL_TO_CONFIG_MAP" by (rule obj_get_mem [OF assms])
  ultimately show ?thesis unfolding list_all_iff by fastforce
qed

lemma default_section:
  assumes "(k, d) \<in> set SIDEBAR_MODULES_DEFAULT"
  shows "\<exists>v. (k, v) \<in> set DEFAULT_SIDEBAR_MODULES" and "js ''enabled'' \<in> fst ` set d"
  using assms by (auto simp: SIDEBAR_MODULES_DEFAULT_def DEFAULT_SIDEBAR_MODULES_def)

lemma editor_section:
  assumes "editor_ok cfg" and "obj_get URL_TO_CONFIG_MAP url = Some m"
  obtains sw e b where "obj_get cfg (ck_section m) = Some sw" and "distinct (map fst sw)"
    and "obj_get sw (js ''enabled'') = Some e" and "obj_get sw (ck_module m) = Some b"
proof -
  obtain d where d: "(ck_section m, d) \<in> set SIDEBAR_MODULES_DEFAULT" "ck_module m \<in> fst ` set d"
    using url_map_default [OF assms(2)] by blast
  obtain sw where sw: "obj_get cfg (ck_section m) = Some sw" "list_all (\<lambda>p. obj_has sw (fst p)) d"
    using assms(1) d(1) by (fastforce simp: editor_ok_def list_all_iff)
  have "section_ok sw" using assms(1) obj_get_mem [OF sw(1)] by (auto simp: editor_ok_def list_all_iff)
  moreover have "obj_has sw (js ''enabled'')" "obj_has sw (ck_module m)"
    using sw(2) d(2) default_section(2) [OF d(1)] by (auto simp: list_all_iff)
  ultimately show ?thesis using that sw(1) by (auto simp: section_ok_def obj_has_def)
qed

lemma hook_reads_editor:
  assumes "editor_ok cfg" and "obj_get URL_TO_CONFIG_MAP url = Some m"
  shows "adminAllowed (parseSidebarConfig (Some (serializeSidebarModulesAdmin cfg))) m = switch_on cfg m"
proof -
  obtain sw e b where sw: "obj_get cfg (ck_section m) = Some sw" "distinct (map fst sw)"
    "obj_get sw (js ''enabled'') = Some e" "obj_get sw (ck_module m) = Some b"
    by (rule editor_section [OF assms])
  let ?c = "map (\<lambda>(k, sw). (k, JObj (switches_json sw))) cfg"
  have parse: "json_parse (serializeSidebarModulesAdmin cfg) = Some (sidebar_json cfg)"
    unfolding serializeSidebarModulesAdmin_def by (rule json_parse_stringify [OF json_ok_sidebar [OF assms(1)]])
  then have "trim (serializeSidebarModulesAdmin cfg) \<noteq> []" using json_parse_blank by fastforce
  then have p: "parseSidebarConfig (Some (serializeSidebarModulesAdmin cfg)) = foldl mergeSection ?c DEFAULT_SIDEBAR_MODULES"
    using parse
    by (simp add: parseSidebarConfig_def opt_str_def mergeWithDefaultSidebarModules_def spread_of_def
        sidebar_json_def entries_def)
  have c: "obj_get ?c (ck_section m) = Some (JObj (switches_json sw))"
    using sw(1) by (induction cfg) (auto split: if_splits)
  obtain v where v: "(ck_section m, v) \<in> set DEFAULT_SIDEBAR_MODULES"
    using url_map_default [OF assms(2)] default_section(1) by blast
  have "distinct (map fst DEFAULT_SIDEBAR_MODULES)" by (simp add: DEFAULT_SIDEBAR_MODULES_def)
  then have "obj_get (foldl mergeSection ?c DEFAULT_SIDEBAR_MODULES) (ck_section m) =
      obj_get (mergeSection ?c (ck_section m, v)) (ck_section m)" by (rule get_foldl_mergeSection [OF _ v])
  moreover obtain ps where ps: "obj_get (mergeSection ?c (ck_section m, v)) (ck_section m) = Some (JObj ps)"
    "obj_get ps (js ''enabled'') = Some (JBool e)" using merged_section [OF c sw(2,3)] by blast
  moreover have "obj_get ps (ck_module m) = Some (JBool b)"
    using merged_section [OF c sw(2,4), of v] ps(1) by auto
  ultimately show ?thesis
    by (simp add: adminAllowed_def Let_def p truthy_opt_def opt_prop_def is_true_def switch_on_def sw)
qed

lemma guard_reads_editor:
  assumes "editor_ok cfg" and "obj_get URL_TO_CONFIG_MAP url = Some m"
    and "getCachedStatus cache = Some status" and "truthy status"
    and "json_prop status (js ''SidebarModulesAdmin'') = Some (JStr (serializeSidebarModulesAdmin cfg))"
  shows "isSidebarModuleEnabled cache (ck_section m) (ck_module m) = switch_on cfg m"
proof -
  obtain sw e b where sw: "obj_get cfg (ck_section m) = Some sw" "distinct (map fst sw)"
    "obj_get sw (js ''enabled'') = Some e" "obj_get sw (ck_module m) = Some b"
    by (rule editor_section [OF assms(1,2)])
  have parse: "json_parse (serializeSidebarModulesAdmin cfg) = Some (sidebar_json cfg)"
    unfolding serializeSidebarModulesAdmin_def by (rule json_parse_stringify [OF json_ok_sidebar [OF assms(1)]])
  then have ne: "trim (serializeSidebarModulesAdmin cfg) \<noteq> []" "serializeSidebarModulesAdmin cfg \<noteq> []"
    using json_parse_blank by fastforce+
  have "json_prop (sidebar_json cfg) (ck_section m) = Some (JObj (switches_json sw))"
    using sw(1) unfolding sidebar_json_def json_prop.simps by (induction cfg) (auto split: if_splits)
  then show ?thesis
    using assms(3,4,5) ne parse by (simp add: isSidebarModuleEnabled_def switch_on_def sw)
qed

section \<open>Properties\<close>

text \<open>C37 (roundtrip): the header configuration an administrator saves is read back unchanged by the editor, and
  the header reads the same configuration.\<close>

theorem header_config_roundtrip:
  assumes "header_ok m"
  shows "adminHeaderNavModules (Some (serializeHeaderNavModules m)) = m
    \<and> parseHeaderNavModules (Some (JStr (serializeHeaderNavModules m))) = m"
proof -
  obtain es where es: "modules_json m = JObj es" by (simp add: modules_json_def Let_def)
  have parse: "json_parse (serializeHeaderNavModules m) = Some (JObj es)"
    unfolding serializeHeaderNavModules_def es [symmetric] by (rule json_parse_stringify [OF json_ok_modules [OF assms]])
  then have ne: "trim (serializeHeaderNavModules m) \<noteq> []" "serializeHeaderNavModules m \<noteq> []"
    using json_parse_blank by fastforce+
  then show ?thesis
    using parse header_entries_read [OF assms es]
    by (simp add: adminHeaderNavModules_def parseHeaderNavModules_def parseHeaderNavRecord_def opt_str_def
        entries_def is_object_def)
qed

theorem header_config_roundtrip_witness:
  "header_ok HEADER_NAV_DEFAULT
   \<and> parseHeaderNavModules (Some (JStr (serializeHeaderNavModules HEADER_NAV_DEFAULT))) = HEADER_NAV_DEFAULT"
proof -
  have "header_ok HEADER_NAV_DEFAULT"
    by (simp add: header_ok_def HEADER_NAV_DEFAULT_def named_def is_digit_def)
  then show ?thesis using header_config_roundtrip by simp
qed

text \<open>C6 (equivalence): the side bar configuration an administrator saves is read back unchanged by the editor, and
  for every mapped page the side bar (without a user overlay) and the route guard both show it exactly when its
  section and module are switched on.\<close>

theorem sidebar_readers_agree:
  assumes "editor_ok cfg" and "obj_get URL_TO_CONFIG_MAP url = Some m"
    and "getCachedStatus cache = Some status" and "truthy status"
    and "json_prop status (js ''SidebarModulesAdmin'') = Some (JStr (serializeSidebarModulesAdmin cfg))"
  shows "parseSidebarModulesAdmin (Some (serializeSidebarModulesAdmin cfg)) = cfg
    \<and> isModuleEnabled url (parseSidebarConfig (Some (serializeSidebarModulesAdmin cfg))) None = switch_on cfg m
    \<and> isSidebarModuleEnabled cache (ck_section m) (ck_module m) = switch_on cfg m"
  using editor_roundtrip [OF assms(1)] hook_reads_editor [OF assms(1,2)] guard_reads_editor [OF assms] assms(2)
  by (simp add: isModuleEnabled_def userAllows_def)

definition demo_status :: json where
  "demo_status = JObj [(js ''SidebarModulesAdmin'', JStr (serializeSidebarModulesAdmin SIDEBAR_MODULES_DEFAULT))]"

lemma editor_ok_default: "editor_ok SIDEBAR_MODULES_DEFAULT"
  by (auto simp: editor_ok_def SIDEBAR_MODULES_DEFAULT_def section_ok_def named_def is_digit_def obj_has_def)

theorem sidebar_readers_agree_witness:
  "isModuleEnabled (js ''/keys'')
     (parseSidebarConfig (Some (serializeSidebarModulesAdmin SIDEBAR_MODULES_DEFAULT))) None
   \<and> isSidebarModuleEnabled (Some (json_stringify demo_status)) (js ''console'') (js ''token'')"
proof -
  have m: "obj_get URL_TO_CONFIG_MAP (js ''/keys'') = Some (keys ''console'' ''token'')"
    by (simp add: URL_TO_CONFIG_MAP_def)
  have ok: "json_ok demo_status"
    unfolding demo_status_def
    by (rule json_ok_plain)
      (simp_all add: is_digit_def serializeSidebarModulesAdmin_def
        json_stringify_ok [OF json_ok_sidebar [OF editor_ok_default]])
  have "json_stringify demo_status \<noteq> []" by (simp add: demo_status_def)
  then have c: "getCachedStatus (Some (json_stringify demo_status)) = Some demo_status"
    using json_parse_stringify [OF ok]
    by (simp add: getCachedStatus_def opt_str_def demo_status_def del: json_stringify.simps)
  have "switch_on SIDEBAR_MODULES_DEFAULT (keys ''console'' ''token'')"
    by (simp add: switch_on_def keys_def SIDEBAR_MODULES_DEFAULT_def)
  then show ?thesis
    using sidebar_readers_agree [OF editor_ok_default m c] by (simp add: demo_status_def keys_def)
qed

text \<open>The links of a navigation; the chat presets count as one.\<close>

definition item_links :: "'r nav_item \<Rightarrow> js_string list" where
  "item_links item =
     (case item of
        NavLink b url \<Rightarrow> [url] | NavCollapsible b items \<Rightarrow> map snd items | NavChatPresets b \<Rightarrow> [js ''chat-presets''])"

definition group_links :: "'r nav_group list \<Rightarrow> js_string set" where
  "group_links gs = (\<Union>g\<in>set gs. \<Union>i\<in>set (ng_items g). set (item_links i))"

lemma module_narrows: "isModuleEnabled url a u \<Longrightarrow> isModuleEnabled url a None"
  by (auto simp: isModuleEnabled_def userAllows_def split: option.splits if_splits)

lemma item_narrows:
  assumes "isNavItemVisible (filterSubItems a u item) a u"
  shows "isNavItemVisible (filterSubItems a None item) a None"
    and "set (item_links (filterSubItems a u item)) \<subseteq> set (item_links (filterSubItems a None item))"
  using assms module_narrows [of _ a u]
  by (cases item; auto simp: isNavItemVisible_def filterSubItems_def item_links_def list_ex_iff Let_def
      userAllows_def split: if_splits option.splits; blast)+

lemma group_links_useSidebarConfig:
  "group_links (filter (\<lambda>g. 0 < length (ng_items g))
     (map (\<lambda>g. g\<lparr>ng_items := filterNavItems (ng_items g) a u\<rparr>) gs)) =
   (\<Union>g\<in>set gs. \<Union>i\<in>{i \<in> set (ng_items g). isNavItemVisible (filterSubItems a u i) a u}.
      set (item_links (filterSubItems a u i)))" (is "?l = ?r")
proof -
  have "?l = (\<Union>g\<in>set gs. \<Union>i\<in>set (filterNavItems (ng_items g) a u). set (item_links i))"
    by (induction gs) (auto simp: group_links_def)
  also have "\<dots> = ?r"
    by (rule SUP_cong [OF refl]) (auto simp: filterNavItems_def)
  finally show ?thesis .
qed

text \<open>C38 (safety): the administrator is authoritative. Whatever the user configured, the side bar shows only
  links it shows without a user configuration, which are links of the navigation; no group is empty; and for a user without the
  permission the configuration is ignored.\<close>

theorem user_overlay_narrows:
  "group_links (useSidebarConfig status perm um gs) \<subseteq> group_links (useSidebarConfig status perm None gs)
   \<and> group_links (useSidebarConfig status perm um gs) \<subseteq> group_links gs
   \<and> list_all (\<lambda>g. ng_items g \<noteq> []) (useSidebarConfig status perm um gs)
   \<and> useSidebarConfig status (Some (JBool False)) um gs = useSidebarConfig status (Some (JBool False)) None gs"
proof (intro conjI)
  let ?a = "parseSidebarConfig (Some (str_of (opt_prop status (js ''SidebarModulesAdmin''))))"
  let ?u = "if perm = Some (JBool False) then None else parseUserSidebarConfig um"
  have none: "(if perm = Some (JBool False) then None else parseUserSidebarConfig None) = None"
    by (simp add: parseUserSidebarConfig_def opt_str_def)
  have sub: "set (item_links (filterSubItems a u i)) \<subseteq> set (item_links i)" for a u and i :: "'a nav_item"
    by (cases i) (auto simp: filterSubItems_def item_links_def)
  show "group_links (useSidebarConfig status perm um gs) \<subseteq> group_links (useSidebarConfig status perm None gs)"
    unfolding useSidebarConfig_def Let_def none group_links_useSidebarConfig
    using item_narrows [of ?a ?u] by blast
  show "group_links (useSidebarConfig status perm um gs) \<subseteq> group_links gs"
    unfolding useSidebarConfig_def Let_def group_links_useSidebarConfig
    unfolding group_links_def using sub [of ?a ?u] by blast
qed (auto simp: useSidebarConfig_def Let_def list_all_iff)

text \<open>The editor and its readers differ on values that are not booleans: the editor shows the string
  \<open>true\<close> as switched on where the side bar hides the module, and it reads the number 2 as off where
  the header keeps the default.\<close>

lemma string_switch_divergence:
  "toBoolean (Some (JStr (js ''true''))) d"
  "\<not> adminAllowed [(js ''console'', JObj [(js ''enabled'', JBool True), (js ''token'', JStr (js ''true''))])]
       (keys ''console'' ''token'')"
proof -
  have "trim (js ''true'') = js ''true''" by (rule trim_id) (simp add: trimmed_def js_def is_ws_def)
  then show "toBoolean (Some (JStr (js ''true''))) d"
    by (simp add: toBoolean_def string_boolean_def toLowerCase_def lower_unit_def js_def)
qed (simp add: adminAllowed_def Let_def keys_def is_true_def opt_prop_def)

lemma number_switch_divergence:
  "toBoolean (Some (jint 2)) True = False" "parseHeaderNavBoolean (Some (jint 2)) True = True"
  by (simp_all add: toBoolean_def parseHeaderNavBoolean_def num_of_int_def normalise.simps)

end
