(* ===== verification/JsonPretty.thy ===== *)
theory JsonPretty
  imports JsObject
begin

text \<open>
  \<open>JSON.stringify(v, null, 2)\<close>, which the editors of the system settings write, and
  \<open>features/system-settings/utils/json-parser.ts\<close> and \<open>json-validators.ts\<close>, with which they read. An indented text is read back
  like a compact one: \<open>json_parse_pretty\<close>.
\<close>

section \<open>Indented printing\<close>

definition newline :: "nat \<Rightarrow> js_string" where
  "newline d = 10 # replicate d 32"

fun json_pretty :: "nat \<Rightarrow> json \<Rightarrow> js_string" where
  "json_pretty d (JArr xs) =
     (if xs = [] then [91, 93]
      else [91] @ newline (d + 2) @ join (44 # newline (d + 2)) (map (json_pretty (d + 2)) xs) @ newline d @ [93])"
| "json_pretty d (JObj ps) =
     (if ps = [] then [123, 125]
      else [123] @ newline (d + 2)
        @ join (44 # newline (d + 2)) (map (\<lambda>(k, v). json_quote k @ [58, 32] @ json_pretty (d + 2) v) ps)
        @ newline d @ [125])"
| "json_pretty d v = json_stringify v"

section \<open>Reading settings\<close>

text \<open>\<open>json-parser.ts\<close>; the messages of the development console are left out.\<close>

definition safeJsonParse :: "js_string option \<Rightarrow> json option \<Rightarrow> json" where
  "safeJsonParse value fallback =
     (let fb = js_nullish fallback JNull in
      if trim (opt_str value) = [] then fb
      else (case json_parse (trim (opt_str value)) of None \<Rightarrow> fb | Some v \<Rightarrow> v))"

definition safeJsonParseWithValidation :: "js_string option \<Rightarrow> json \<Rightarrow> (json \<Rightarrow> bool) \<Rightarrow> json" where
  "safeJsonParseWithValidation value fallback validator =
     (let parsed = safeJsonParse value (Some fallback) in
      if \<not> validator parsed then fallback else parsed)"

text \<open>The message of a syntax error is the engine's; it is a parameter.\<close>

definition tryJsonParse :: "(js_string \<Rightarrow> js_string) \<Rightarrow> js_string option \<Rightarrow> js_string + json" where
  "tryJsonParse message value =
     (if trim (opt_str value) = [] then Inl (js ''Empty value'')
      else (case json_parse (trim (opt_str value)) of
              None \<Rightarrow> Inl (message (trim (opt_str value))) | Some v \<Rightarrow> Inr v))"

definition isObjectRecord :: "json \<Rightarrow> bool" where
  "isObjectRecord data = (case data of JObj ps \<Rightarrow> True | _ \<Rightarrow> False)"

definition isArray :: "json \<Rightarrow> bool" where
  "isArray data = (case data of JArr xs \<Rightarrow> True | _ \<Rightarrow> False)"

definition isStringArray :: "json \<Rightarrow> bool" where
  "isStringArray data = (case data of JArr xs \<Rightarrow> list_all (\<lambda>x. case x of JStr s \<Rightarrow> True | _ \<Rightarrow> False) xs | _ \<Rightarrow> False)"

definition isNumberArray :: "json \<Rightarrow> bool" where
  "isNumberArray data = (case data of JArr xs \<Rightarrow> list_all (\<lambda>x. case x of JNum n \<Rightarrow> True | _ \<Rightarrow> False) xs | _ \<Rightarrow> False)"

definition isObjectArray :: "json \<Rightarrow> bool" where
  "isObjectArray data = (case data of JArr xs \<Rightarrow> list_all isObjectRecord xs | _ \<Rightarrow> False)"

definition createObjectValidator :: "js_string list \<Rightarrow> json \<Rightarrow> bool" where
  "createObjectValidator requiredKeys data =
     (case data of JObj ps \<Rightarrow> list_all (obj_has ps) requiredKeys | _ \<Rightarrow> False)"

definition createArrayValidator :: "(json \<Rightarrow> bool) \<Rightarrow> json \<Rightarrow> bool" where
  "createArrayValidator itemValidator data = (case data of JArr xs \<Rightarrow> list_all itemValidator xs | _ \<Rightarrow> False)"

text \<open>\<open>parseFloat\<close>: the longest prefix that is a decimal literal or \<open>Infinity\<close>.\<close>

datatype js_float = NotANumber | Infinite bool | Finite jnum

definition exponent_prefix :: "js_string \<Rightarrow> int" where
  "exponent_prefix s =
     (case s of
        c # r \<Rightarrow>
          if c = 101 \<or> c = 69 then
            (case r of
               [] \<Rightarrow> 0
             | d # r1 \<Rightarrow>
                 if d = 43 then int (digits_value (takeWhile is_digit r1))
                 else if d = 45 then - int (digits_value (takeWhile is_digit r1))
                 else int (digits_value (takeWhile is_digit r)))
          else 0
      | [] \<Rightarrow> 0)"

definition unsigned_prefix :: "js_string \<Rightarrow> (nat \<times> int) option" where
  "unsigned_prefix s =
     (let ds = takeWhile is_digit s; r = dropWhile is_digit s;
          fs = (case r of c # r' \<Rightarrow> if c = 46 then takeWhile is_digit r' else [] | [] \<Rightarrow> []);
          rest = (case r of c # r' \<Rightarrow> if c = 46 then dropWhile is_digit r' else r | [] \<Rightarrow> []) in
      if ds = [] \<and> fs = [] then None
      else Some (digits_value (ds @ fs), exponent_prefix rest - int (length fs)))"

definition signed_prefix :: "bool \<Rightarrow> js_string \<Rightarrow> js_float" where
  "signed_prefix neg s =
     (if prefix (js ''Infinity'') s then Infinite neg
      else (case unsigned_prefix s of
              None \<Rightarrow> NotANumber
            | Some (m, e) \<Rightarrow> Finite (normalise ((if neg then - 1 else 1) * int m) e)))"

definition parseFloat :: "js_string \<Rightarrow> js_float" where
  "parseFloat s =
     (let t = dropWhile is_ws s in
      case t of
        [] \<Rightarrow> NotANumber
      | c # r \<Rightarrow> if c = 45 then signed_prefix True r else if c = 43 then signed_prefix False r else signed_prefix False t)"

text \<open>A number as a JSON value: what is not finite is printed as \<open>null\<close>.\<close>

definition json_of_float :: "js_float \<Rightarrow> json" where
  "json_of_float x = (case x of Finite n \<Rightarrow> JNum n | _ \<Rightarrow> JNull)"

section \<open>An indented text is read back\<close>

lemma skip_ws_newline: "skip_ws (newline d @ s) = skip_ws s"
proof -
  have "dropWhile is_json_ws (replicate d 32 @ s) = dropWhile is_json_ws s"
    by (induction d) (simp_all add: is_json_ws_def)
  then show ?thesis by (simp add: skip_ws_def newline_def is_json_ws_def)
qed

lemma skip_ws_blank: "skip_ws (32 # s) = skip_ws s"
  by (simp add: skip_ws_def is_json_ws_def)

lemma parse_value_ws: "skip_ws s = skip_ws s' \<Longrightarrow> parse_value n s = parse_value n s'"
  by (cases n) simp_all

lemma parse_members_ws: "skip_ws s = skip_ws s' \<Longrightarrow> parse_members n acc s = parse_members n acc s'"
  by (cases n) simp_all

lemma parse_elems_ws: "skip_ws s = skip_ws s' \<Longrightarrow> parse_elems n acc s = parse_elems n acc s'"
proof (cases n)
  case (Suc m)
  assume "skip_ws s = skip_ws s'"
  then have "parse_value m s = parse_value m s'" by (rule parse_value_ws)
  then show ?thesis by (simp add: Suc)
qed simp

lemma follow_ok_newline: "follow_ok (newline d @ t)"
  by (simp add: newline_def follow_ok_def is_digit_def)

lemma pretty_head: "\<exists>c r. json_pretty d v = c # r \<and> \<not> is_json_ws c \<and> c \<noteq> 93 \<and> c \<noteq> 125"
  using stringify_head [of v] by (cases v) (auto simp: is_json_ws_def)

definition reads_pretty :: "json \<Rightarrow> bool" where
  "reads_pretty v \<longleftrightarrow> (\<forall>d n t. 2 * length (json_pretty d v) + 1 \<le> n \<longrightarrow> follow_ok t \<longrightarrow>
     parse_value n (json_pretty d v @ t) = Some (v, t))"

lemma reads_prettyD:
  "reads_pretty v \<Longrightarrow> 2 * length (json_pretty d v) + 1 \<le> n \<Longrightarrow> follow_ok t \<Longrightarrow>
   parse_value n (json_pretty d v @ t) = Some (v, t)"
  by (simp add: reads_pretty_def)

lemma parse_elems_pretty:
  assumes "xs \<noteq> []" and "\<forall>v\<in>set xs. reads_pretty v"
    and "2 * length (join (44 # newline d) (map (json_pretty d) xs)) + 2 \<le> n"
  shows "parse_elems n acc (join (44 # newline d) (map (json_pretty d) xs) @ newline e @ 93 # t) =
    Some (JArr (acc @ xs), t)"
  using assms
proof (induction xs arbitrary: n acc rule: induct_list012)
  case (2 v)
  then obtain k where n: "n = Suc k" by (cases n) auto
  have "parse_value k (json_pretty d v @ newline e @ 93 # t) = Some (v, newline e @ 93 # t)"
    using 2 n by (intro reads_prettyD) (auto simp: follow_ok_newline)
  with n show ?case by (simp add: skip_ws_newline skip_ws_Cons is_json_ws_def del: json_pretty.simps)
next
  case (3 v w vs)
  then obtain k where n: "n = Suc k" by (cases n) auto
  let ?rest = "join (44 # newline d) (map (json_pretty d) (w # vs)) @ newline e @ 93 # t"
  have "parse_value k (json_pretty d v @ 44 # newline d @ ?rest) = Some (v, 44 # newline d @ ?rest)"
    using 3 n by (intro reads_prettyD) (auto simp: follow_ok_punct)
  moreover have "parse_elems k (acc @ [v]) ?rest = Some (JArr ((acc @ [v]) @ w # vs), t)"
    using 3 n by (intro "3.IH") auto
  moreover have "parse_elems k (acc @ [v]) (newline d @ ?rest) = parse_elems k (acc @ [v]) ?rest"
    by (rule parse_elems_ws) (rule skip_ws_newline)
  ultimately show ?case
    using n by (simp add: skip_ws_Cons is_json_ws_def del: json_pretty.simps)
qed simp

definition pretty_member :: "nat \<Rightarrow> js_string \<times> json \<Rightarrow> js_string" where
  "pretty_member d p = json_quote (fst p) @ [58, 32] @ json_pretty d (snd p)"

lemma parse_members_pretty:
  assumes "ps \<noteq> []" and "\<forall>p\<in>set ps. str_ok (fst p) \<and> reads_pretty (snd p)"
    and "2 * length (join (44 # newline d) (map (pretty_member d) ps)) + 2 \<le> n"
  shows "parse_members n acc (join (44 # newline d) (map (pretty_member d) ps) @ newline e @ 125 # t) =
    Some (JObj (own_order (foldl (\<lambda>o' (k, v). obj_set o' k v) acc ps)), t)"
  using assms
proof (induction ps arbitrary: n acc rule: induct_list012)
  case (2 p)
  obtain k v where p: "p = (k, v)" by force
  from 2 obtain m where n: "n = Suc m" by (cases n) auto
  let ?tail = "newline e @ 125 # t"
  have "parse_value m (32 # json_pretty d v @ ?tail) = parse_value m (json_pretty d v @ ?tail)"
    by (rule parse_value_ws) (rule skip_ws_blank)
  also have "\<dots> = Some (v, ?tail)"
    using 2 n p by (intro reads_prettyD) (auto simp: follow_ok_newline pretty_member_def json_quote_def)
  finally have "parse_value m (32 # json_pretty d v @ ?tail) = Some (v, ?tail)" .
  moreover have "parse_chars (quote_chars k @ 34 # 58 # 32 # json_pretty d v @ ?tail) =
      Some (k, 58 # 32 # json_pretty d v @ ?tail)"
    using 2 p by (intro parse_chars_quote_chars) simp
  ultimately show ?case
    using n p by (simp add: pretty_member_def json_quote_def skip_ws_newline skip_ws_Cons is_json_ws_def
        del: parse_chars.simps json_pretty.simps)
next
  case (3 p q ps)
  obtain k v where p: "p = (k, v)" by force
  from 3 obtain m where n: "n = Suc m" by (cases n) auto
  let ?rest = "join (44 # newline d) (map (pretty_member d) (q # ps)) @ newline e @ 125 # t"
  let ?tail = "44 # newline d @ ?rest"
  have "parse_value m (32 # json_pretty d v @ ?tail) = parse_value m (json_pretty d v @ ?tail)"
    by (rule parse_value_ws) (rule skip_ws_blank)
  also have "\<dots> = Some (v, ?tail)"
    using 3 n p by (intro reads_prettyD) (auto simp: follow_ok_punct pretty_member_def json_quote_def)
  finally have "parse_value m (32 # json_pretty d v @ ?tail) = Some (v, ?tail)" .
  moreover have "parse_chars (quote_chars k @ 34 # 58 # 32 # json_pretty d v @ ?tail) =
      Some (k, 58 # 32 # json_pretty d v @ ?tail)"
    using 3 p by (intro parse_chars_quote_chars) simp
  moreover have "parse_members m (obj_set acc k v) (newline d @ ?rest) = parse_members m (obj_set acc k v) ?rest"
    by (rule parse_members_ws) (rule skip_ws_newline)
  moreover have "parse_members m (obj_set acc k v) ?rest =
      Some (JObj (own_order (foldl (\<lambda>o' (k, v). obj_set o' k v) (obj_set acc k v) (q # ps))), t)"
    using 3 n by (intro "3.IH") auto
  ultimately show ?case
    using n p by (simp add: pretty_member_def [of d "(k, v)"] json_quote_def skip_ws_Cons is_json_ws_def
        del: parse_chars.simps json_pretty.simps)
qed simp

lemma pretty_JObj:
  "ps \<noteq> [] \<Longrightarrow> json_pretty d (JObj ps) =
     123 # newline (d + 2) @ join (44 # newline (d + 2)) (map (pretty_member (d + 2)) ps) @ newline d @ [125]"
  by (simp add: pretty_member_def [abs_def] case_prod_unfold)

lemma reads_prettyI:
  assumes "\<And>d m t. 2 * length (json_pretty d v) \<le> m \<Longrightarrow> follow_ok t \<Longrightarrow>
    parse_value (Suc m) (json_pretty d v @ t) = Some (v, t)"
  shows "reads_pretty v"
  unfolding reads_pretty_def
proof (intro allI impI)
  fix d n t
  assume "2 * length (json_pretty d v) + 1 \<le> n" and "follow_ok t"
  then show "parse_value n (json_pretty d v @ t) = Some (v, t)"
    using assms [of d "n - 1" t] by (cases n) auto
qed

lemma reads_pretty_JArr:
  assumes "\<forall>v\<in>set xs. reads_pretty v"
  shows "reads_pretty (JArr xs)"
proof (rule reads_prettyI)
  fix d m t
  assume m: "2 * length (json_pretty d (JArr xs)) \<le> m"
  show "parse_value (Suc m) (json_pretty d (JArr xs) @ t) = Some (JArr xs, t)"
  proof (cases xs)
    case Nil
    then show ?thesis by (simp add: skip_ws_Cons is_json_ws_def)
  next
    case (Cons v vs)
    let ?body = "join (44 # newline (d + 2)) (map (json_pretty (d + 2)) xs) @ newline d @ 93 # t"
    have "parse_elems m [] (newline (d + 2) @ ?body) = parse_elems m [] ?body"
      by (rule parse_elems_ws) (rule skip_ws_newline)
    also have "\<dots> = Some (JArr xs, t)"
      using parse_elems_pretty [of xs "d + 2" m "[]" d t] assms m Cons by simp
    finally have e: "parse_elems m [] (newline (d + 2) @ ?body) = Some (JArr xs, t)" .
    obtain c r where "?body = c # r" "\<not> is_json_ws c" "c \<noteq> 93"
      using pretty_head [of "d + 2" v] Cons by (cases vs) auto
    with e Cons show ?thesis by (simp add: skip_ws_newline skip_ws_Cons is_json_ws_def)
  qed
qed

lemma reads_pretty_JObj:
  assumes "\<forall>p\<in>set ps. str_ok (fst p) \<and> reads_pretty (snd p)"
    and "distinct (map fst ps)" and "own_order ps = ps"
  shows "reads_pretty (JObj ps)"
proof (rule reads_prettyI)
  fix d m t
  assume m: "2 * length (json_pretty d (JObj ps)) \<le> m"
  show "parse_value (Suc m) (json_pretty d (JObj ps) @ t) = Some (JObj ps, t)"
  proof (cases ps)
    case Nil
    then show ?thesis by (simp add: skip_ws_Cons is_json_ws_def)
  next
    case (Cons p qs)
    then have ne: "ps \<noteq> []" by simp
    let ?body = "join (44 # newline (d + 2)) (map (pretty_member (d + 2)) ps) @ newline d @ 125 # t"
    have "parse_members m [] (newline (d + 2) @ ?body) = parse_members m [] ?body"
      by (rule parse_members_ws) (rule skip_ws_newline)
    also have "\<dots> = Some (JObj (own_order (foldl (\<lambda>o' (k, v). obj_set o' k v) [] ps)), t)"
      using assms m [unfolded pretty_JObj [OF ne]] ne by (intro parse_members_pretty) auto
    finally have e: "parse_members m [] (newline (d + 2) @ ?body) = Some (JObj ps, t)"
      using assms foldl_obj_set_distinct [of "[]" ps] by simp
    obtain r where "?body = 34 # r"
      using Cons by (cases qs) (auto simp: pretty_member_def json_quote_def)
    with e show ?thesis
      by (simp add: pretty_JObj [OF ne] skip_ws_newline skip_ws_Cons is_json_ws_def del: json_pretty.simps)
  qed
qed

lemma reads_pretty_scalar:
  assumes "\<And>d. json_pretty d v = json_stringify v" and "json_ok v"
  shows "reads_pretty v"
  using json_ok_reads_back [OF assms(2)] by (simp only: reads_pretty_def reads_back_def assms(1)) blast

lemma json_ok_reads_pretty: "json_ok v \<Longrightarrow> reads_pretty v"
proof (induction v)
  case (JArr xs)
  then show ?case by (intro reads_pretty_JArr) (auto simp: list_all_iff)
next
  case (JObj ps)
  then show ?case by (intro reads_pretty_JObj) (force simp: list_all_iff)+
qed (auto intro!: reads_pretty_scalar)

lemma json_parse_pretty: "json_ok v \<Longrightarrow> json_parse (json_pretty 0 v) = Some v"
proof -
  assume "json_ok v"
  then have "parse_value (2 * length (json_pretty 0 v) + 1) (json_pretty 0 v @ []) = Some (v, [])"
    by (intro reads_prettyD json_ok_reads_pretty) (simp_all add: follow_ok_def)
  then show ?thesis by (simp only: json_parse_def append_Nil2) (simp add: skip_ws_def)
qed

text \<open>A printed text has no white space at its ends, so that trimming it changes nothing.\<close>

lemma num_to_string_ws: "c \<in> set (num_to_string x) \<Longrightarrow> \<not> is_ws c"
proof -
  have "\<not> is_ws c" if "c \<in> set (digits n)" for c n
    using that digits_all [of n] by (auto simp: list_all_iff is_digit_def is_ws_def)
  moreover have "\<not> is_ws c" if "c \<in> set (int_to_string i)" for c i
    using that calculation by (auto simp: int_to_string_def is_ws_def split: if_splits)
  ultimately show "c \<in> set (num_to_string x) \<Longrightarrow> \<not> is_ws c"
    by (auto simp: num_to_string_def pos_to_string_def Let_def is_ws_def split: if_splits
        dest!: in_set_takeD in_set_dropD)
qed

lemma pretty_trimmed: "trim (json_pretty d v) = json_pretty d v"
proof (rule trim_id)
  show "trimmed (json_pretty d v)"
  proof (cases v)
    case (JNum x)
    then show ?thesis
      using num_to_string_ws [of _ x] hd_num_to_string [of x] by (simp add: trimmed_def)
  qed (auto simp: trimmed_def js_def is_ws_def json_quote_def)
qed

lemma pretty_ne: "json_pretty d v \<noteq> []"
  using pretty_head [of d v] by auto

lemma safeJsonParse_pretty: "json_ok v \<Longrightarrow> safeJsonParse (Some (json_pretty 0 v)) fb = v"
  by (simp add: safeJsonParse_def opt_str_def pretty_trimmed pretty_ne json_parse_pretty Let_def)

end
