(* ===== verification/GroupRatios.thy ===== *)
theory GroupRatios
  imports JsonPretty
begin

text \<open>
  The visual editor of the group ratios, \<open>features/system-settings/models/group-ratio-visual-editor.tsx\<close>: the
  table of pricing groups, the top-up ratios, the ratio overrides between groups, the order of the
  automatic groups, and their dialogs. The form around the editor holds five texts of JSON; every handler
  reads one of them, changes the parsed value and writes it back indented. \<open>None\<close> marks a text that does not
  hold a value of the declared type (\<open>Record<string, ...>\<close> or an array): what the handlers do with such a
  value is not represented.
\<close>

section \<open>The table of pricing groups\<close>

record pricing_row =
  row_id :: js_string
  row_name :: js_string
  row_ratio :: jnum
  row_selectable :: bool
  row_description :: js_string

definition createGroupPricingId :: "nat \<Rightarrow> js_string \<times> nat" where
  "createGroupPricingId groupPricingIdCounter =
     (js ''gpr_'' @ digits (groupPricingIdCounter + 1), groupPricingIdCounter + 1)"

text \<open>\<open>Number(undefined)\<close> is \<open>NaN\<close>.\<close>

definition normalizeRatio :: "json option \<Rightarrow> jnum" where
  "normalizeRatio value =
     (case value of
        None \<Rightarrow> num_of_int 1
      | Some v \<Rightarrow> (case json_to_number v of None \<Rightarrow> num_of_int 1 | Some n \<Rightarrow> n))"

definition record_of :: "js_string \<Rightarrow> obj option" where
  "record_of s = (case safeJsonParse (Some s) (Some (JObj [])) of JObj ps \<Rightarrow> Some ps | _ \<Rightarrow> None)"

definition pricingRow :: "obj \<Rightarrow> obj \<Rightarrow> js_string \<Rightarrow> js_string \<Rightarrow> pricing_row" where
  "pricingRow ratioMap usableMap i name =
     \<lparr>row_id = i, row_name = name, row_ratio = normalizeRatio (obj_get ratioMap name),
      row_selectable = obj_has usableMap name,
      row_description = json_to_string (js_nullish (obj_get usableMap name) (JStr []))\<rparr>"

fun buildRows :: "obj \<Rightarrow> obj \<Rightarrow> nat \<Rightarrow> js_string list \<Rightarrow> pricing_row list \<times> nat" where
  "buildRows ratioMap usableMap counter [] = ([], counter)"
| "buildRows ratioMap usableMap counter (name # names) =
     (let (i, counter1) = createGroupPricingId counter;
          (rows, counter2) = buildRows ratioMap usableMap counter1 names in
      (pricingRow ratioMap usableMap i name # rows, counter2))"

definition buildGroupPricingRows ::
  "nat \<Rightarrow> js_string \<Rightarrow> js_string \<Rightarrow> (pricing_row list \<times> nat) option" where
  "buildGroupPricingRows counter groupRatio userUsableGroups =
     (case record_of groupRatio of
        None \<Rightarrow> None
      | Some ratioMap \<Rightarrow>
          (case record_of userUsableGroups of
             None \<Rightarrow> None
           | Some usableMap \<Rightarrow>
               Some (buildRows ratioMap usableMap counter (js_set (map fst ratioMap @ map fst usableMap)))))"

definition serializeRow :: "obj \<times> obj \<Rightarrow> pricing_row \<Rightarrow> obj \<times> obj" where
  "serializeRow acc row =
     (let (groupRatio, userUsableGroups) = acc; name = trim (row_name row) in
      if name = [] then acc
      else
        (obj_put groupRatio name (JNum (normalizeRatio (Some (JNum (row_ratio row))))),
         if row_selectable row then obj_put userUsableGroups name (JStr (row_description row))
         else userUsableGroups))"

definition serializeGroupPricingRows :: "pricing_row list \<Rightarrow> js_string \<times> js_string" where
  "serializeGroupPricingRows rows =
     (let (groupRatio, userUsableGroups) = foldl serializeRow ([], []) rows in
      (json_pretty 0 (JObj groupRatio), json_pretty 0 (JObj userUsableGroups)))"

definition sourceGroupPricingSignature :: "js_string \<Rightarrow> js_string \<Rightarrow> js_string" where
  "sourceGroupPricingSignature groupRatio userUsableGroups =
     json_stringify (JObj
       [(js ''groupRatio'', safeJsonParse (Some groupRatio) (Some (JObj []))),
        (js ''userUsableGroups'', safeJsonParse (Some userUsableGroups) (Some (JObj [])))])"

definition groupPricingSignature :: "pricing_row list \<Rightarrow> js_string" where
  "groupPricingSignature rows =
     (let (GroupRatio, UserUsableGroups) = serializeGroupPricingRows rows in
      json_stringify (JObj
        [(js ''groupRatio'', safeJsonParse (Some GroupRatio) (Some (JObj []))),
         (js ''userUsableGroups'', safeJsonParse (Some UserUsableGroups) (Some (JObj [])))]))"

text \<open>The effect of the table: rows whose content is the incoming one are kept.\<close>

definition syncRows ::
  "pricing_row list \<times> nat \<Rightarrow> js_string \<Rightarrow> js_string \<Rightarrow> (pricing_row list \<times> nat) option" where
  "syncRows cur groupRatio userUsableGroups =
     (if groupPricingSignature (fst cur) = sourceGroupPricingSignature groupRatio userUsableGroups
      then Some cur
      else buildGroupPricingRows (snd cur) groupRatio userUsableGroups)"

text \<open>The loop of \<open>addRow\<close> that looks for a free name. It ends when a name is free; \<open>None\<close> would be a loop
  that does not.\<close>

definition group_name :: "nat \<Rightarrow> js_string" where
  "group_name index = js ''group_'' @ digits index"

partial_function (option) freeIndex :: "js_string list \<Rightarrow> nat \<Rightarrow> nat option" where
  "freeIndex existingNames index =
     (if group_name index \<in> set existingNames then freeIndex existingNames (index + 1) else Some index)"

definition countName :: "(js_string \<times> nat) list \<Rightarrow> pricing_row \<Rightarrow> (js_string \<times> nat) list" where
  "countName counts row =
     (let name = trim (row_name row) in
      if name = [] then counts
      else obj_set counts name ((case obj_get counts name of None \<Rightarrow> 0 | Some c \<Rightarrow> c) + 1))"

definition duplicateNames :: "pricing_row list \<Rightarrow> js_string list" where
  "duplicateNames rows = map fst (filter (\<lambda>(n, c). 1 < c) (foldl countName [] rows))"

section \<open>The state of the editor\<close>

datatype simple_type = GroupRatioType | TopupGroupRatioType

record simple_group =
  sg_name :: js_string
  sg_value :: js_string

record group_override =
  go_targetGroup :: js_string
  go_ratio :: json

text \<open>The five texts of the form, the rows of the table with the counter of their ids, the state of the
  editor and, last, the inputs of the two dialogs that are components of their own.\<close>

record group_editor =
  GroupRatio :: js_string
  UserUsableGroups :: js_string
  TopupGroupRatio :: js_string
  GroupGroupRatio :: js_string
  AutoGroups :: js_string
  rows :: "pricing_row list"
  idCounter :: nat
  simpleDialogOpen :: bool
  simpleDialogType :: "simple_type option"
  simpleEditData :: "simple_group option"
  autoGroupDialogOpen :: bool
  autoGroupInput :: js_string
  groupOverrideDialogOpen :: bool
  groupOverrideUserGroup :: "js_string option"
  groupOverrideEditData :: "group_override option"
  userGroupDialogOpen :: bool
  userGroupInput :: js_string
  simpleName :: js_string
  simpleValue :: js_string
  overrideTarget :: js_string
  overrideRatio :: js_string

text \<open>The effects React runs after a handler, for what the handler changed: the table takes over changed
  texts, the two dialogs fill or clear their inputs when they are opened, closed or given another entry.\<close>

definition tableEffect :: "group_editor \<Rightarrow> group_editor \<Rightarrow> group_editor option" where
  "tableEffect old ed =
     (if GroupRatio old = GroupRatio ed \<and> UserUsableGroups old = UserUsableGroups ed then Some ed
      else
        (case syncRows (rows ed, idCounter ed) (GroupRatio ed) (UserUsableGroups ed) of
           None \<Rightarrow> None
         | Some (rs, n) \<Rightarrow> Some (ed\<lparr>rows := rs, idCounter := n\<rparr>)))"

definition simpleDialogEffect :: "group_editor \<Rightarrow> group_editor \<Rightarrow> group_editor" where
  "simpleDialogEffect old ed =
     (if simpleDialogOpen old = simpleDialogOpen ed \<and> simpleEditData old = simpleEditData ed then ed
      else if \<not> simpleDialogOpen ed then ed\<lparr>simpleName := [], simpleValue := []\<rparr>
      else
        (case simpleEditData ed of
           None \<Rightarrow> ed\<lparr>simpleName := [], simpleValue := []\<rparr>
         | Some g \<Rightarrow> ed\<lparr>simpleName := sg_name g, simpleValue := sg_value g\<rparr>))"

definition overrideDialogEffect :: "group_editor \<Rightarrow> group_editor \<Rightarrow> group_editor" where
  "overrideDialogEffect old ed =
     (if groupOverrideDialogOpen old = groupOverrideDialogOpen ed
         \<and> groupOverrideEditData old = groupOverrideEditData ed then ed
      else if \<not> groupOverrideDialogOpen ed then ed\<lparr>overrideTarget := [], overrideRatio := []\<rparr>
      else
        (case groupOverrideEditData ed of
           None \<Rightarrow> ed\<lparr>overrideTarget := [], overrideRatio := []\<rparr>
         | Some g \<Rightarrow>
             ed\<lparr>overrideTarget := go_targetGroup g, overrideRatio := json_to_string (go_ratio g)\<rparr>))"

definition runEffects :: "group_editor \<Rightarrow> group_editor \<Rightarrow> group_editor option" where
  "runEffects old ed = tableEffect old (overrideDialogEffect old (simpleDialogEffect old ed))"

section \<open>Handlers of the table\<close>

definition emitRows :: "pricing_row list \<Rightarrow> group_editor \<Rightarrow> group_editor" where
  "emitRows nextRows ed =
     (let (gr, uu) = serializeGroupPricingRows nextRows in
      ed\<lparr>rows := nextRows, GroupRatio := gr, UserUsableGroups := uu\<rparr>)"

text \<open>The value the table passes to \<open>updateRow\<close> belongs to the field.\<close>

datatype row_update = Name js_string | Ratio jnum | Selectable bool | Description js_string

definition update_row :: "row_update \<Rightarrow> pricing_row \<Rightarrow> pricing_row" where
  "update_row u row =
     (case u of
        Name s \<Rightarrow> row\<lparr>row_name := s\<rparr>
      | Ratio r \<Rightarrow> row\<lparr>row_ratio := r\<rparr>
      | Selectable b \<Rightarrow> row\<lparr>row_selectable := b\<rparr>
      | Description s \<Rightarrow> row\<lparr>row_description := s\<rparr>)"

definition updateRow :: "js_string \<Rightarrow> row_update \<Rightarrow> group_editor \<Rightarrow> group_editor" where
  "updateRow i u ed = emitRows (map (\<lambda>row. if row_id row = i then update_row u row else row) (rows ed)) ed"

definition addRow :: "group_editor \<Rightarrow> group_editor option" where
  "addRow ed =
     (case freeIndex (map row_name (rows ed)) 1 of
        None \<Rightarrow> None
      | Some index \<Rightarrow>
          (let (i, n) = createGroupPricingId (idCounter ed) in
           Some (emitRows
             (rows ed @ [\<lparr>row_id = i, row_name = group_name index, row_ratio = num_of_int 1,
                row_selectable = True, row_description = []\<rparr>])
             (ed\<lparr>idCounter := n\<rparr>))))"

definition removeRow :: "js_string \<Rightarrow> group_editor \<Rightarrow> group_editor" where
  "removeRow i ed = emitRows (filter (\<lambda>row. row_id row \<noteq> i) (rows ed)) ed"

section \<open>Handlers of the ratios by name\<close>

text \<open>What the page lists.\<close>

definition topupRatioList :: "group_editor \<Rightarrow> simple_group list option" where
  "topupRatioList ed =
     map_option (map (\<lambda>(k, v). \<lparr>sg_name = k, sg_value = json_to_string v\<rparr>)) (record_of (TopupGroupRatio ed))"

definition autoGroupsList :: "group_editor \<Rightarrow> json list option" where
  "autoGroupsList ed =
     (case safeJsonParse (Some (AutoGroups ed)) (Some (JArr [])) of JArr xs \<Rightarrow> Some xs | _ \<Rightarrow> None)"

definition groupGroupRatioList :: "group_editor \<Rightarrow> (js_string \<times> group_override list option) list option" where
  "groupGroupRatioList ed =
     map_option
       (map (\<lambda>(userGroup, overrides).
          (userGroup, map_option (map (\<lambda>(t, r). \<lparr>go_targetGroup = t, go_ratio = r\<rparr>)) (entries overrides))))
       (record_of (GroupGroupRatio ed))"

definition handleSimpleAdd :: "simple_type \<Rightarrow> group_editor \<Rightarrow> group_editor" where
  "handleSimpleAdd t ed = ed\<lparr>simpleDialogType := Some t, simpleEditData := None, simpleDialogOpen := True\<rparr>"

definition handleSimpleEdit :: "simple_type \<Rightarrow> simple_group \<Rightarrow> group_editor \<Rightarrow> group_editor" where
  "handleSimpleEdit t g ed =
     ed\<lparr>simpleDialogType := Some t, simpleEditData := Some g, simpleDialogOpen := True\<rparr>"

definition simpleText :: "simple_type \<Rightarrow> group_editor \<Rightarrow> js_string" where
  "simpleText t ed = (case t of GroupRatioType \<Rightarrow> GroupRatio ed | TopupGroupRatioType \<Rightarrow> TopupGroupRatio ed)"

definition changeSimple :: "simple_type \<Rightarrow> js_string \<Rightarrow> group_editor \<Rightarrow> group_editor" where
  "changeSimple t s ed =
     (case t of GroupRatioType \<Rightarrow> ed\<lparr>GroupRatio := s\<rparr> | TopupGroupRatioType \<Rightarrow> ed\<lparr>TopupGroupRatio := s\<rparr>)"

definition handleSimpleSave :: "js_string \<Rightarrow> js_string \<Rightarrow> group_editor \<Rightarrow> group_editor option" where
  "handleSimpleSave name value ed =
     (case simpleDialogType ed of
        None \<Rightarrow> Some ed
      | Some t \<Rightarrow>
          (case record_of (simpleText t ed) of
             None \<Rightarrow> None
           | Some m \<Rightarrow>
               let m1 = (case simpleEditData ed of
                           None \<Rightarrow> m | Some g \<Rightarrow> if sg_name g \<noteq> name then obj_delete m (sg_name g) else m);
                   m2 = obj_put m1 name (json_of_float (parseFloat value)) in
               Some ((changeSimple t (json_pretty 0 (JObj m2)) ed)\<lparr>simpleDialogOpen := False\<rparr>)))"

definition handleSimpleDelete :: "simple_type \<Rightarrow> js_string \<Rightarrow> group_editor \<Rightarrow> group_editor option" where
  "handleSimpleDelete t name ed =
     (case record_of (simpleText t ed) of
        None \<Rightarrow> None
      | Some m \<Rightarrow> Some (changeSimple t (json_pretty 0 (JObj (obj_delete m name))) ed))"

section \<open>Handlers of the automatic groups\<close>

definition handleAutoGroupAdd :: "group_editor \<Rightarrow> group_editor" where
  "handleAutoGroupAdd ed = ed\<lparr>autoGroupInput := [], autoGroupDialogOpen := True\<rparr>"

definition handleAutoGroupSave :: "group_editor \<Rightarrow> group_editor option" where
  "handleAutoGroupSave ed =
     (if trim (autoGroupInput ed) = [] then Some ed
      else
        map_option (\<lambda>xs. ed\<lparr>AutoGroups := json_pretty 0 (JArr (xs @ [JStr (trim (autoGroupInput ed))])),
                       autoGroupDialogOpen := False\<rparr>)
          (autoGroupsList ed))"

definition handleAutoGroupDelete :: "nat \<Rightarrow> group_editor \<Rightarrow> group_editor option" where
  "handleAutoGroupDelete index ed =
     map_option (\<lambda>xs. ed\<lparr>AutoGroups := json_pretty 0 (JArr (take index xs @ drop (index + 1) xs))\<rparr>)
       (autoGroupsList ed)"

datatype direction = Up | Down

text \<open>One past the end, reading gives \<open>undefined\<close> (printed as \<open>null\<close>) and writing extends the list.\<close>

definition swapped :: "json list \<Rightarrow> nat \<Rightarrow> nat \<Rightarrow> json list" where
  "swapped xs i j = (if i < length xs then xs[i := xs ! j, j := xs ! i] else xs[j := JNull] @ [xs ! j])"

definition handleAutoGroupMove :: "nat \<Rightarrow> direction \<Rightarrow> group_editor \<Rightarrow> group_editor option" where
  "handleAutoGroupMove index direction ed =
     (case autoGroupsList ed of
        None \<Rightarrow> None
      | Some xs \<Rightarrow>
          let newIndex = (case direction of Up \<Rightarrow> int index - 1 | Down \<Rightarrow> int index + 1) in
          if newIndex < 0 \<or> int (length xs) \<le> newIndex then Some ed
          else Some (ed\<lparr>AutoGroups := json_pretty 0 (JArr (swapped xs index (nat newIndex)))\<rparr>))"

section \<open>Handlers of the overrides\<close>

definition overrides_of :: "json \<Rightarrow> obj option" where
  "overrides_of v = (case v of JObj os \<Rightarrow> Some os | _ \<Rightarrow> None)"

definition handleUserGroupAdd :: "group_editor \<Rightarrow> group_editor" where
  "handleUserGroupAdd ed = ed\<lparr>userGroupInput := [], userGroupDialogOpen := True\<rparr>"

definition handleUserGroupSave :: "group_editor \<Rightarrow> group_editor option" where
  "handleUserGroupSave ed =
     (let g = trim (userGroupInput ed) in
      if g = [] then Some ed
      else
        map_option (\<lambda>m. ed\<lparr>GroupGroupRatio :=
              json_pretty 0 (JObj (if truthy_opt (obj_get m g) then m else obj_put m g (JObj []))),
              userGroupDialogOpen := False\<rparr>)
          (record_of (GroupGroupRatio ed)))"

definition handleUserGroupDelete :: "js_string \<Rightarrow> group_editor \<Rightarrow> group_editor option" where
  "handleUserGroupDelete userGroup ed =
     map_option (\<lambda>m. ed\<lparr>GroupGroupRatio := json_pretty 0 (JObj (obj_delete m userGroup))\<rparr>)
       (record_of (GroupGroupRatio ed))"

definition handleOverrideAdd :: "js_string \<Rightarrow> group_editor \<Rightarrow> group_editor" where
  "handleOverrideAdd userGroup ed =
     ed\<lparr>groupOverrideUserGroup := Some userGroup, groupOverrideEditData := None, groupOverrideDialogOpen := True\<rparr>"

definition handleOverrideEdit :: "js_string \<Rightarrow> group_override \<Rightarrow> group_editor \<Rightarrow> group_editor" where
  "handleOverrideEdit userGroup ov ed =
     ed\<lparr>groupOverrideUserGroup := Some userGroup, groupOverrideEditData := Some ov,
        groupOverrideDialogOpen := True\<rparr>"

definition handleOverrideSave ::
  "js_string \<Rightarrow> js_float \<Rightarrow> js_string option \<Rightarrow> group_editor \<Rightarrow> group_editor option" where
  "handleOverrideSave targetGroup ratio oldTargetGroup ed =
     (let ug = opt_str (groupOverrideUserGroup ed); old = opt_str oldTargetGroup in
      if ug = [] then Some ed
      else
        (case record_of (GroupGroupRatio ed) of
           None \<Rightarrow> None
         | Some m \<Rightarrow>
             let m1 = (if truthy_opt (obj_get m ug) then m else obj_put m ug (JObj [])) in
             (case overrides_of (the (obj_get m1 ug)) of
                None \<Rightarrow> None
              | Some os \<Rightarrow>
                  let os1 = (if old \<noteq> [] \<and> old \<noteq> targetGroup then obj_delete os old else os);
                      os2 = obj_put os1 targetGroup (json_of_float ratio) in
                  Some (ed\<lparr>GroupGroupRatio := json_pretty 0 (JObj (obj_put m1 ug (JObj os2))),
                           groupOverrideDialogOpen := False\<rparr>))))"

definition handleOverrideDelete :: "js_string \<Rightarrow> js_string \<Rightarrow> group_editor \<Rightarrow> group_editor option" where
  "handleOverrideDelete userGroup targetGroup ed =
     (case record_of (GroupGroupRatio ed) of
        None \<Rightarrow> None
      | Some m \<Rightarrow>
          if \<not> truthy_opt (obj_get m userGroup)
          then Some (ed\<lparr>GroupGroupRatio := json_pretty 0 (JObj m)\<rparr>)
          else
            (case overrides_of (the (obj_get m userGroup)) of
               None \<Rightarrow> None
             | Some os \<Rightarrow>
                 let os1 = obj_delete os targetGroup;
                     m1 = (if os1 = [] then obj_delete m userGroup else obj_put m userGroup (JObj os1)) in
                 Some (ed\<lparr>GroupGroupRatio := json_pretty 0 (JObj m1)\<rparr>)))"

section \<open>The dialogs\<close>

text \<open>The ratio inputs accept the empty text and texts that start with a number.\<close>

definition setSimpleValue :: "js_string \<Rightarrow> group_editor \<Rightarrow> group_editor" where
  "setSimpleValue val ed = (if val = [] \<or> parseFloat val \<noteq> NotANumber then ed\<lparr>simpleValue := val\<rparr> else ed)"

definition setOverrideRatio :: "js_string \<Rightarrow> group_editor \<Rightarrow> group_editor" where
  "setOverrideRatio val ed = (if val = [] \<or> parseFloat val \<noteq> NotANumber then ed\<lparr>overrideRatio := val\<rparr> else ed)"

definition simpleHandleSave :: "group_editor \<Rightarrow> group_editor option" where
  "simpleHandleSave ed =
     (if trim (simpleName ed) = [] \<or> trim (simpleValue ed) = [] then Some ed
      else map_option (\<lambda>ed. ed\<lparr>simpleName := [], simpleValue := []\<rparr>)
        (handleSimpleSave (trim (simpleName ed)) (trim (simpleValue ed)) ed))"

definition overrideHandleSave :: "group_editor \<Rightarrow> group_editor option" where
  "overrideHandleSave ed =
     (if trim (overrideTarget ed) = [] \<or> trim (overrideRatio ed) = [] then Some ed
      else if parseFloat (overrideRatio ed) = NotANumber then Some ed
      else map_option (\<lambda>ed. ed\<lparr>overrideTarget := [], overrideRatio := []\<rparr>)
        (handleOverrideSave (trim (overrideTarget ed)) (parseFloat (overrideRatio ed))
           (map_option go_targetGroup (groupOverrideEditData ed)) ed))"

section \<open>Events\<close>

text \<open>What the user does on the page. The table passes \<open>normalizeRatio\<close> of the text of its number input.\<close>

datatype editor_event =
    UpdateRow js_string row_update | UpdateRatio js_string js_string | AddRow | RemoveRow js_string
  | SimpleAdd simple_type | SimpleEdit simple_type simple_group | SimpleName js_string | SimpleValue js_string
  | SimpleSave | SimpleClose | SimpleDelete simple_type js_string
  | AutoAdd | AutoInput js_string | AutoSave | AutoClose | AutoDelete nat | AutoMove nat direction
  | UserGroupAdd | UserGroupInput js_string | UserGroupSave | UserGroupClose | UserGroupDelete js_string
  | OverrideAdd js_string | OverrideEdit js_string group_override | OverrideTarget js_string
  | OverrideRatio js_string | OverrideSave | OverrideClose | OverrideDelete js_string js_string

definition handler :: "editor_event \<Rightarrow> group_editor \<Rightarrow> group_editor option" where
  "handler ev ed =
     (case ev of
        UpdateRow i u \<Rightarrow> Some (updateRow i u ed)
      | UpdateRatio i s \<Rightarrow> Some (updateRow i (Ratio (normalizeRatio (Some (JStr s)))) ed)
      | AddRow \<Rightarrow> addRow ed
      | RemoveRow i \<Rightarrow> Some (removeRow i ed)
      | SimpleAdd t \<Rightarrow> Some (handleSimpleAdd t ed)
      | SimpleEdit t g \<Rightarrow> Some (handleSimpleEdit t g ed)
      | SimpleName s \<Rightarrow> Some (ed\<lparr>simpleName := s\<rparr>)
      | SimpleValue s \<Rightarrow> Some (setSimpleValue s ed)
      | SimpleSave \<Rightarrow> simpleHandleSave ed
      | SimpleClose \<Rightarrow> Some (ed\<lparr>simpleDialogOpen := False\<rparr>)
      | SimpleDelete t n \<Rightarrow> handleSimpleDelete t n ed
      | AutoAdd \<Rightarrow> Some (handleAutoGroupAdd ed)
      | AutoInput s \<Rightarrow> Some (ed\<lparr>autoGroupInput := s\<rparr>)
      | AutoSave \<Rightarrow> handleAutoGroupSave ed
      | AutoClose \<Rightarrow> Some (ed\<lparr>autoGroupDialogOpen := False\<rparr>)
      | AutoDelete i \<Rightarrow> handleAutoGroupDelete i ed
      | AutoMove i d \<Rightarrow> handleAutoGroupMove i d ed
      | UserGroupAdd \<Rightarrow> Some (handleUserGroupAdd ed)
      | UserGroupInput s \<Rightarrow> Some (ed\<lparr>userGroupInput := s\<rparr>)
      | UserGroupSave \<Rightarrow> handleUserGroupSave ed
      | UserGroupClose \<Rightarrow> Some (ed\<lparr>userGroupDialogOpen := False\<rparr>)
      | UserGroupDelete g \<Rightarrow> handleUserGroupDelete g ed
      | OverrideAdd g \<Rightarrow> Some (handleOverrideAdd g ed)
      | OverrideEdit g ov \<Rightarrow> Some (handleOverrideEdit g ov ed)
      | OverrideTarget s \<Rightarrow> Some (ed\<lparr>overrideTarget := s\<rparr>)
      | OverrideRatio s \<Rightarrow> Some (setOverrideRatio s ed)
      | OverrideSave \<Rightarrow> overrideHandleSave ed
      | OverrideClose \<Rightarrow> Some (ed\<lparr>groupOverrideDialogOpen := False\<rparr>)
      | OverrideDelete g t \<Rightarrow> handleOverrideDelete g t ed)"

definition react :: "editor_event \<Rightarrow> group_editor \<Rightarrow> group_editor option" where
  "react ev ed = (case handler ev ed of None \<Rightarrow> None | Some ed' \<Rightarrow> runEffects ed ed')"

text \<open>The editor when it is first shown for the texts of the form.\<close>

definition openEditor ::
  "nat \<Rightarrow> js_string \<Rightarrow> js_string \<Rightarrow> js_string \<Rightarrow> js_string \<Rightarrow> js_string \<Rightarrow> group_editor option" where
  "openEditor counter gr uu tg gg ag =
     map_option (\<lambda>(rs, n).
        \<lparr>GroupRatio = gr, UserUsableGroups = uu, TopupGroupRatio = tg, GroupGroupRatio = gg, AutoGroups = ag,
         rows = rs, idCounter = n, simpleDialogOpen = False, simpleDialogType = None, simpleEditData = None,
         autoGroupDialogOpen = False, autoGroupInput = [], groupOverrideDialogOpen = False,
         groupOverrideUserGroup = None, groupOverrideEditData = None, userGroupDialogOpen = False,
         userGroupInput = [], simpleName = [], simpleValue = [], overrideTarget = [], overrideRatio = []\<rparr>)
       (buildGroupPricingRows counter gr uu)"

end
