(* ===== verification/GroupRatioProps.thy ===== *)
theory GroupRatioProps
  imports GroupRatios
begin

text \<open>
  Facts about the table of pricing groups: the search for a free name ends, and a table is read back from the
  two texts it is written to.
\<close>

section \<open>Assigned properties\<close>

lemma obj_get_map_of: "obj_get ps = map_of ps"
proof
  fix k show "obj_get ps k = map_of ps k" by (induction ps k rule: obj_get.induct) auto
qed

lemma obj_get_own_order: "distinct (map fst ps) \<Longrightarrow> obj_get (own_order ps) = obj_get ps"
  by (simp add: obj_get_map_of map_of_inject_set distinct_own_order)

lemma obj_get_put: "distinct (map fst ps) \<Longrightarrow> obj_get (obj_put ps k v) = (obj_get ps)(k \<mapsto> v)"
  by (rule ext) (simp add: obj_put_def obj_get_own_order distinct_obj_set)

lemma obj_get_delete_upd: "obj_get (obj_delete ps k) = (obj_get ps)(k := None)"
  by (rule ext) simp

lemma distinct_obj_put: "distinct (map fst ps) \<Longrightarrow> distinct (map fst (obj_put ps k v))"
  by (simp add: obj_put_def distinct_own_order distinct_obj_set)

lemma set_obj_put: "set (obj_put ps k v) \<subseteq> insert (k, v) (set ps)"
  using set_obj_set [of ps k v] by (simp add: obj_put_def)

lemma json_ok_put: "json_ok (JObj ps) \<Longrightarrow> str_ok k \<Longrightarrow> json_ok v \<Longrightarrow> json_ok (JObj (obj_put ps k v))"
proof -
  assume "json_ok (JObj ps)" "str_ok k" "json_ok v"
  then have "members_ok (obj_set ps k v)"
    by (intro members_ok_set) (auto simp: members_ok_def list_all_iff)
  then show ?thesis unfolding obj_put_def by (rule members_ok_own_order)
qed

lemma json_ok_distinct: "json_ok (JObj ps) \<Longrightarrow> distinct (map fst ps)"
  by simp

lemma record_of_pretty: "json_ok (JObj m) \<Longrightarrow> record_of (json_pretty 0 (JObj m)) = Some m"
  by (simp add: record_of_def safeJsonParse_pretty del: json_ok.simps json_pretty.simps)

text \<open>The order of the keys does not depend on the values.\<close>

lemma own_order_map: "own_order (map (\<lambda>p. (fst p, g p)) ps) = map (\<lambda>p. (fst p, g p)) (own_order ps)"
proof -
  let ?f = "\<lambda>p. (fst p, g p)" and ?key = "\<lambda>p. the (array_index (fst p))"
  have ins: "insort_key ?key (?f x) (map ?f xs) = map ?f (insort_key ?key x xs)" for x xs
    by (induction xs) auto
  have "sort_key ?key (map ?f xs) = map ?f (sort_key ?key xs)" for xs
    by (induction xs) (simp_all add: ins)
  then show ?thesis by (simp add: own_order_def filter_map o_def)
qed

section \<open>The search for a free name\<close>

lemma inj_group_name: "inj group_name"
proof (rule injI)
  fix i j assume "group_name i = group_name j"
  then have "digits_value (digits i) = digits_value (digits j)" by (simp add: group_name_def)
  then show "i = j" by simp
qed

lemma freeIndex_reaches:
  "i \<le> k \<Longrightarrow> group_name k \<notin> set names \<Longrightarrow> group_name ` {i..<k} \<subseteq> set names \<Longrightarrow> freeIndex names i = Some k"
proof (induction "k - i" arbitrary: i)
  case 0
  then show ?case by (subst freeIndex.simps) simp
next
  case (Suc n)
  then have "group_name i \<in> set names" by auto
  moreover have "freeIndex names (i + 1) = Some k"
    using Suc.hyps(2) Suc.prems by (intro Suc.hyps(1)) auto
  ultimately show ?case by (subst freeIndex.simps) simp
qed

lemma freeIndex_total:
  obtains k where "freeIndex names i = Some k" and "i \<le> k" and "k \<le> i + length names"
    and "group_name k \<notin> set names" and "group_name ` {i..<k} \<subseteq> set names"
proof -
  have "\<exists>k. i \<le> k \<and> k \<le> i + length names \<and> group_name k \<notin> set names"
  proof (rule ccontr)
    assume "\<not> ?thesis"
    then have "group_name ` {i..i + length names} \<subseteq> set names" by (intro image_subsetI) simp
    then have "card (group_name ` {i..i + length names}) \<le> length names"
      by (meson List.finite_set card_length card_mono le_trans)
    moreover have "card (group_name ` {i..i + length names}) = Suc (length names)"
      by (simp add: card_image inj_on_subset [OF inj_group_name])
    ultimately show False by simp
  qed
  then obtain m where m: "i \<le> m" "m \<le> i + length names" "group_name m \<notin> set names" by blast
  define k where "k = (LEAST k. i \<le> k \<and> group_name k \<notin> set names)"
  have k: "i \<le> k \<and> group_name k \<notin> set names" unfolding k_def by (rule LeastI [of _ m]) (use m in simp)
  have "k \<le> m" unfolding k_def by (rule Least_le) (use m in simp)
  moreover have taken: "group_name ` {i..<k} \<subseteq> set names"
  proof (intro image_subsetI)
    fix j assume j: "j \<in> {i..<k}"
    then have "\<not> (i \<le> j \<and> group_name j \<notin> set names)"
      unfolding k_def by (intro not_less_Least) simp
    with j show "group_name j \<in> set names" by simp
  qed
  ultimately show ?thesis using that [of k] k m(2) freeIndex_reaches [of i k names] by simp
qed

section \<open>Reading a written table\<close>

definition row_ok :: "pricing_row \<Rightarrow> bool" where
  "row_ok r \<longleftrightarrow> str_ok (row_name r) \<and> str_ok (row_description r) \<and> num_ok (row_ratio r)"

abbreviation row_key :: "pricing_row \<Rightarrow> js_string" where
  "row_key r \<equiv> trim (row_name r)"

lemma normalizeRatio_num [simp]: "normalizeRatio (Some (JNum x)) = x"
  by (simp add: normalizeRatio_def)

lemma serialize_ok:
  assumes "list_all row_ok rs" and "json_ok (JObj gr)" and "json_ok (JObj uu)"
  shows "json_ok (JObj (fst (foldl serializeRow (gr, uu) rs)))
    \<and> json_ok (JObj (snd (foldl serializeRow (gr, uu) rs)))"
  using assms
proof (induction rs arbitrary: gr uu)
  case (Cons r rs)
  obtain gr1 uu1 where s: "serializeRow (gr, uu) r = (gr1, uu1)" by force
  have "str_ok (row_key r)" "json_ok (JNum (row_ratio r))" "json_ok (JStr (row_description r))"
    using Cons.prems(1) by (auto simp: row_ok_def str_ok_trim)
  then have "json_ok (JObj gr1)" "json_ok (JObj uu1)"
    using s Cons.prems(2,3)
    by (auto simp: serializeRow_def Let_def json_ok_put simp del: json_ok.simps split: if_splits)
  then show ?case using Cons.IH [of gr1 uu1] Cons.prems(1) s by (simp del: json_ok.simps)
qed simp

text \<open>What a table says of a name: its last row with that name.\<close>

definition ratios_of :: "pricing_row list \<Rightarrow> js_string \<rightharpoonup> json" where
  "ratios_of rs = foldl (\<lambda>m r. if row_key r = [] then m else m(row_key r \<mapsto> JNum (row_ratio r))) Map.empty rs"

definition usable_of :: "pricing_row list \<Rightarrow> js_string \<rightharpoonup> json" where
  "usable_of rs =
     foldl (\<lambda>m r. if row_key r = [] \<or> \<not> row_selectable r then m else m(row_key r \<mapsto> JStr (row_description r)))
       Map.empty rs"

lemma get_serialize:
  assumes "distinct (map fst gr)" and "distinct (map fst uu)"
  shows "obj_get (fst (foldl serializeRow (gr, uu) rs)) =
      foldl (\<lambda>m r. if row_key r = [] then m else m(row_key r \<mapsto> JNum (row_ratio r))) (obj_get gr) rs
    \<and> obj_get (snd (foldl serializeRow (gr, uu) rs)) =
      foldl (\<lambda>m r. if row_key r = [] \<or> \<not> row_selectable r then m
        else m(row_key r \<mapsto> JStr (row_description r))) (obj_get uu) rs"
  using assms
proof (induction rs arbitrary: gr uu)
  case (Cons r rs)
  obtain gr1 uu1 where s: "serializeRow (gr, uu) r = (gr1, uu1)" by force
  then have d: "distinct (map fst gr1)" "distinct (map fst uu1)"
    using Cons.prems by (auto simp: serializeRow_def Let_def distinct_obj_put split: if_splits)
  have "obj_get gr1 = (if row_key r = [] then obj_get gr else (obj_get gr)(row_key r \<mapsto> JNum (row_ratio r)))"
    "obj_get uu1 = (if row_key r = [] \<or> \<not> row_selectable r then obj_get uu
       else (obj_get uu)(row_key r \<mapsto> JStr (row_description r)))"
    using s Cons.prems by (auto simp: serializeRow_def Let_def obj_get_put split: if_splits)
  then show ?case using Cons.IH [OF d] s by simp
qed simp

lemma written_ratios:
  assumes "list_all row_ok rs"
  shows "\<exists>gr uu. record_of (fst (serializeGroupPricingRows rs)) = Some gr
    \<and> record_of (snd (serializeGroupPricingRows rs)) = Some uu \<and> json_ok (JObj gr) \<and> json_ok (JObj uu)
    \<and> obj_get gr = ratios_of rs \<and> obj_get uu = usable_of rs"
proof -
  obtain gr uu where f: "foldl serializeRow ([], []) rs = (gr, uu)" by force
  have ok: "json_ok (JObj gr)" "json_ok (JObj uu)" using serialize_ok [OF assms, of "[]" "[]"] f by simp_all
  have e: "obj_get [] = Map.empty" by (rule ext) simp
  have "obj_get gr = ratios_of rs" "obj_get uu = usable_of rs"
    using get_serialize [of "[]" "[]" rs] f unfolding e ratios_of_def usable_of_def by simp_all
  then show ?thesis
    using ok by (auto simp: serializeGroupPricingRows_def f record_of_pretty simp del: json_ok.simps json_pretty.simps)
qed

lemma foldl_upd_other:
  "x \<notin> k ` set rs \<Longrightarrow> foldl (\<lambda>m r. if P r then m else m(k r \<mapsto> f r)) m rs x = m x"
  by (induction rs arbitrary: m) auto

lemma foldl_upd_distinct:
  "distinct (map k rs) \<Longrightarrow> r \<in> set rs \<Longrightarrow>
   foldl (\<lambda>m r. if P r then m else m(k r \<mapsto> f r)) m rs (k r) = (if P r then m (k r) else Some (f r))"
proof (induction rs arbitrary: m)
  case (Cons a rs)
  then show ?case by (cases "r = a") (auto simp: foldl_upd_other rev_image_eqI)
qed simp

lemma table_reads:
  assumes "distinct (map row_key rs)" and "r \<in> set rs" and "row_key r \<noteq> []"
  shows "ratios_of rs (row_key r) = Some (JNum (row_ratio r))"
    and "usable_of rs (row_key r) = (if row_selectable r then Some (JStr (row_description r)) else None)"
  using foldl_upd_distinct [OF assms(1,2), of "\<lambda>r. row_key r = []" "\<lambda>r. JNum (row_ratio r)" Map.empty]
    foldl_upd_distinct [OF assms(1,2), of "\<lambda>r. row_key r = [] \<or> \<not> row_selectable r"
      "\<lambda>r. JStr (row_description r)" Map.empty] assms(3)
  by (simp_all add: ratios_of_def usable_of_def)

lemma foldl_upd_dom:
  "dom (foldl (\<lambda>m r. if P r then m else m(k r \<mapsto> f r)) m rs) = dom m \<union> k ` {r \<in> set rs. \<not> P r}"
  by (induction rs arbitrary: m) auto

lemma table_dom:
  shows "dom (ratios_of rs) = row_key ` set rs - {[]}" and "dom (usable_of rs) \<subseteq> row_key ` set rs - {[]}"
  unfolding ratios_of_def usable_of_def foldl_upd_dom by auto

lemma duplicateNames_counts:
  "obj_get (foldl countName c rs) n =
     (let k = length (filter (\<lambda>r. row_key r = n) rs) in
      if n = [] \<or> k = 0 then obj_get c n else Some ((case obj_get c n of None \<Rightarrow> 0 | Some i \<Rightarrow> i) + k))"
  by (induction rs arbitrary: c) (auto simp: countName_def Let_def split: option.splits)

lemma no_duplicates:
  assumes "duplicateNames rs = []" and "list_all (\<lambda>r. row_key r \<noteq> []) rs"
  shows "distinct (map row_key rs)"
proof (rule ccontr)
  assume "\<not> ?thesis"
  then obtain xs ys zs n where "map row_key rs = xs @ [n] @ ys @ [n] @ zs"
    using not_distinct_decomp by metis
  then have "length (filter (\<lambda>m. m = n) (map row_key rs)) \<ge> 2" "n \<in> set (map row_key rs)"
    by simp_all
  then have k: "length (filter (\<lambda>r. row_key r = n) rs) \<ge> 2" "n \<noteq> []"
    using assms(2) by (auto simp: filter_map o_def list_all_iff)
  then have "obj_get (foldl countName [] rs) n = Some (length (filter (\<lambda>r. row_key r = n) rs))"
    unfolding duplicateNames_counts by (auto simp: Let_def)
  from obj_get_mem [OF this] k(1) assms(1) show False
    by (auto simp: duplicateNames_def filter_empty_conv)
qed

type_synonym row_content = "js_string \<times> jnum \<times> bool \<times> js_string"

definition row_content :: "pricing_row \<Rightarrow> row_content" where
  "row_content r = (row_name r, row_ratio r, row_selectable r, row_description r)"

text \<open>What is stored of a row: the trimmed name, and the description only if the group is selectable.\<close>

definition stored_content :: "pricing_row \<Rightarrow> row_content" where
  "stored_content r =
     (row_key r, row_ratio r, row_selectable r, if row_selectable r then row_description r else [])"

lemma buildRows_content:
  "map row_content (fst (buildRows gr uu c ns)) = map (\<lambda>n. row_content (pricingRow gr uu [] n)) ns"
proof (induction ns arbitrary: c)
  case (Cons n ns)
  then show ?case
    by (simp add: createGroupPricingId_def Let_def case_prod_beta row_content_def pricingRow_def)
qed simp

lemma row_reads:
  assumes "obj_get gr = ratios_of rs" and "obj_get uu = usable_of rs" and "distinct (map row_key rs)"
    and "r \<in> set rs" and "row_key r \<noteq> []"
  shows "row_content (pricingRow gr uu i (row_key r)) = stored_content r"
  using table_reads [OF assms(3-5)] assms(1,2)
  by (simp add: row_content_def pricingRow_def stored_content_def normalizeRatio_def obj_has_def js_nullish_def)

lemma row_names_read:
  assumes "obj_get gr = ratios_of rs" and "obj_get uu = usable_of rs"
  shows "set (js_set (map fst gr @ map fst uu)) = row_key ` set rs - {[]}"
proof -
  have d: "dom (obj_get ps) = fst ` set ps" for ps :: obj by (auto simp: dom_def obj_get_eq_None_iff)
  have "fst ` set gr = row_key ` set rs - {[]}" "fst ` set uu \<subseteq> row_key ` set rs - {[]}"
    using d [of gr] d [of uu] assms table_dom [of rs] by simp_all
  then show ?thesis by auto
qed

section \<open>Properties\<close>

text \<open>C7 (termination): adding a row always ends, with the first free name \<open>group_1\<close>, \<open>group_2\<close>, ... among at
  most one more than there are rows; the rows before it are kept.\<close>

theorem add_row_terminates:
  "\<exists>ed' index. addRow ed = Some ed' \<and> 1 \<le> index \<and> index \<le> length (rows ed) + 1
     \<and> group_name index \<notin> row_name ` set (rows ed)
     \<and> group_name ` {1..<index} \<subseteq> row_name ` set (rows ed)
     \<and> map row_name (rows ed') = map row_name (rows ed) @ [group_name index]
     \<and> take (length (rows ed)) (rows ed') = rows ed"
proof -
  obtain k where k: "freeIndex (map row_name (rows ed)) 1 = Some k" "1 \<le> k" "k \<le> 1 + length (map row_name (rows ed))"
    "group_name k \<notin> set (map row_name (rows ed))" "group_name ` {1..<k} \<subseteq> set (map row_name (rows ed))"
    by (rule freeIndex_total)
  then show ?thesis
    by (intro exI [of _ k] exI [of _ "the (addRow ed)"])
      (simp add: addRow_def createGroupPricingId_def emitRows_def case_prod_beta Let_def)
qed

text \<open>C39 (roundtrip): a table without blank and duplicate names, as the page reports them, is read back from the
  two texts it is written to: the same groups with the same ratios, selectable with the same descriptions.\<close>

theorem pricing_table_roundtrip:
  assumes "list_all row_ok rs" and "list_all (\<lambda>r. row_key r \<noteq> []) rs" and "duplicateNames rs = []"
  shows "\<exists>rs' n. buildGroupPricingRows c (fst (serializeGroupPricingRows rs)) (snd (serializeGroupPricingRows rs)) =
      Some (rs', n)
    \<and> row_content ` set rs' = stored_content ` set rs \<and> length rs' = length rs"
proof -
  obtain gr uu where w: "record_of (fst (serializeGroupPricingRows rs)) = Some gr"
    "record_of (snd (serializeGroupPricingRows rs)) = Some uu"
    "obj_get gr = ratios_of rs" "obj_get uu = usable_of rs"
    using written_ratios [OF assms(1)] by blast
  let ?ns = "js_set (map fst gr @ map fst uu)"
  let ?rs = "fst (buildRows gr uu c ?ns)"
  have d: "distinct (map row_key rs)" by (rule no_duplicates [OF assms(3,2)])
  have ns: "set ?ns = row_key ` set rs"
    using row_names_read [OF w(3,4)] assms(2) by (auto simp: list_all_iff)
  have "row_content ` set ?rs = (\<lambda>n. row_content (pricingRow gr uu [] n)) ` set ?ns"
    using arg_cong [OF buildRows_content [of gr uu c ?ns], of set] by simp
  also have "\<dots> = stored_content ` set rs"
    unfolding ns image_image using row_reads [OF w(3,4) d] assms(2)
    by (intro image_cong refl) (auto simp: list_all_iff)
  finally have "row_content ` set ?rs = stored_content ` set rs" .
  moreover have "length ?rs = length rs"
  proof -
    have "length ?rs = length ?ns" using arg_cong [OF buildRows_content [of gr uu c ?ns], of length] by simp
    also have "\<dots> = card (set ?ns)" by (simp only: distinct_card [OF distinct_js_set])
    also have "\<dots> = length rs" unfolding ns using distinct_card [OF d] by simp
    finally show ?thesis .
  qed
  ultimately show ?thesis
    using w by (intro exI [of _ ?rs] exI [of _ "snd (buildRows gr uu c ?ns)"])
      (simp add: buildGroupPricingRows_def)
qed

definition demo_rows :: "pricing_row list" where
  "demo_rows =
     [\<lparr>row_id = js ''gpr_1'', row_name = js ''vip '', row_ratio = num_of_int 2, row_selectable = True,
       row_description = js ''for members''\<rparr>,
      \<lparr>row_id = js ''gpr_2'', row_name = js ''default'', row_ratio = num_of_int 1, row_selectable = False,
       row_description = js ''unused''\<rparr>]"

theorem pricing_table_roundtrip_witness:
  "\<exists>rs' n. buildGroupPricingRows 0 (fst (serializeGroupPricingRows demo_rows))
        (snd (serializeGroupPricingRows demo_rows)) = Some (rs', n)
    \<and> (js ''vip'', num_of_int 2, True, js ''for members'') \<in> row_content ` set rs' \<and> length rs' = 2"
proof -
  have t: "trim (js ''vip '') = js ''vip''" "trim (js ''default'') = js ''default''"
    by (simp_all add: trim_def js_def is_ws_def)
  have ok: "list_all row_ok demo_rows" by (simp add: demo_rows_def row_ok_def)
  have ne: "list_all (\<lambda>r. row_key r \<noteq> []) demo_rows" by (simp add: demo_rows_def t)
  have nd: "duplicateNames demo_rows = []" by (simp add: demo_rows_def duplicateNames_def countName_def t)
  have "stored_content ` set demo_rows =
      {(js ''vip'', num_of_int 2, True, js ''for members''), (js ''default'', num_of_int 1, False, [])}"
    by (simp add: demo_rows_def stored_content_def t)
  then show ?thesis
    using pricing_table_roundtrip [OF ok ne nd, of 0] by (auto simp: demo_rows_def)
qed

end
