(* ===== verification/EventRefinement.thy ===== *)
theory EventRefinement
  imports Prelude
begin

text \<open>
  Components that react to events, refined by machines that perform actions: an event of the component performs a
  list of actions of the abstract machine. The locale states the contract for one event; the lemma lifts it to
  every sequence of events. \<open>None\<close> as the result of a step is a reaction that fails.
\<close>

fun run_events :: "('e \<Rightarrow> 'c \<Rightarrow> 'c option) \<Rightarrow> 'e list \<Rightarrow> 'c \<Rightarrow> 'c option" where
  "run_events step [] c = Some c"
| "run_events step (e # es) c = (case step e c of None \<Rightarrow> None | Some c' \<Rightarrow> run_events step es c')"

text \<open>Each event is one that is allowed in the state it meets.\<close>

fun allowed_run :: "('e \<Rightarrow> 'c \<Rightarrow> 'c option) \<Rightarrow> ('e \<Rightarrow> 'c \<Rightarrow> bool) \<Rightarrow> 'e list \<Rightarrow> 'c \<Rightarrow> bool" where
  "allowed_run step allowed [] c = True"
| "allowed_run step allowed (e # es) c =
     (allowed e c \<and> (case step e c of None \<Rightarrow> True | Some c' \<Rightarrow> allowed_run step allowed es c'))"

fun run_actions :: "('e \<Rightarrow> 'c \<Rightarrow> 'c option) \<Rightarrow> ('e \<Rightarrow> 'c \<Rightarrow> 'l list) \<Rightarrow> 'e list \<Rightarrow> 'c \<Rightarrow> 'l list" where
  "run_actions step actions [] c = []"
| "run_actions step actions (e # es) c =
     actions e c @ (case step e c of None \<Rightarrow> [] | Some c' \<Rightarrow> run_actions step actions es c')"

locale event_refinement =
  fixes step :: "'e \<Rightarrow> 'c \<Rightarrow> 'c option" and allowed :: "'e \<Rightarrow> 'c \<Rightarrow> bool" and inv :: "'c \<Rightarrow> bool"
    and abs :: "'c \<Rightarrow> 'a" and actions :: "'e \<Rightarrow> 'c \<Rightarrow> 'l list" and spec :: "'l \<Rightarrow> 'a \<Rightarrow> 'a"
  assumes step_refines: "inv c \<Longrightarrow> allowed e c \<Longrightarrow>
    \<exists>c'. step e c = Some c' \<and> inv c' \<and> abs c' = fold spec (actions e c) (abs c)"
begin

lemma run_refines:
  "inv c \<Longrightarrow> allowed_run step allowed es c \<Longrightarrow>
   \<exists>c'. run_events step es c = Some c' \<and> inv c' \<and> abs c' = fold spec (run_actions step actions es c) (abs c)"
proof (induction es arbitrary: c)
  case (Cons e es)
  obtain c1 where c1: "step e c = Some c1" "inv c1" "abs c1 = fold spec (actions e c) (abs c)"
    using step_refines [of c e] Cons.prems by auto
  then obtain c2 where "run_events step es c1 = Some c2" "inv c2"
    "abs c2 = fold spec (run_actions step actions es c1) (abs c1)"
    using Cons.IH [of c1] Cons.prems by auto
  with c1 show ?case by simp
qed simp

end

end
