(* ===== verification/GroupRefinement.thy ===== *)
theory GroupRefinement
  imports GroupRatioProps EventRefinement
begin

text \<open>
  What the editor of the group ratios promises, as an abstract machine over finite maps: ratios by group,
  descriptions of the selectable groups, top-up ratios, overrides by pair of groups and the list of the automatic groups.
  Every event of the page performs one abstract action or none; the texts of JSON, the table, the dialogs and
  the effects of React are the implementation.
\<close>

section \<open>The abstract machine\<close>

record group_spec =
  sp_ratios :: "js_string \<rightharpoonup> json"
  sp_usable :: "js_string \<rightharpoonup> json"
  sp_topup :: "js_string \<rightharpoonup> json"
  sp_overrides :: "js_string \<rightharpoonup> (js_string \<rightharpoonup> json)"
  sp_auto :: "json list"

datatype group_action =
    WriteTable "pricing_row list"
  | SetEntry simple_type "js_string option" js_string json
  | DeleteEntry simple_type js_string
  | AppendAuto js_string | RemoveAuto nat | SwapAuto nat
  | CreateGroup js_string | DeleteGroup js_string
  | SetOverride js_string "js_string option" js_string json
  | DeleteOverride js_string js_string

definition put_entry :: "js_string option \<Rightarrow> js_string \<Rightarrow> json \<Rightarrow> (js_string \<rightharpoonup> json) \<Rightarrow> js_string \<rightharpoonup> json" where
  "put_entry old name v m = (case old of None \<Rightarrow> m | Some k \<Rightarrow> m(k := None))(name \<mapsto> v)"

definition drop_override :: "(js_string \<rightharpoonup> json) \<Rightarrow> js_string \<Rightarrow> (js_string \<rightharpoonup> json) option" where
  "drop_override ov t = (if ov(t := None) = Map.empty then None else Some (ov(t := None)))"

fun spec_action :: "group_action \<Rightarrow> group_spec \<Rightarrow> group_spec" where
  "spec_action (WriteTable rs) a = a\<lparr>sp_ratios := ratios_of rs, sp_usable := usable_of rs\<rparr>"
| "spec_action (SetEntry GroupRatioType old n v) a = a\<lparr>sp_ratios := put_entry old n v (sp_ratios a)\<rparr>"
| "spec_action (SetEntry TopupGroupRatioType old n v) a = a\<lparr>sp_topup := put_entry old n v (sp_topup a)\<rparr>"
| "spec_action (DeleteEntry GroupRatioType n) a = a\<lparr>sp_ratios := (sp_ratios a)(n := None)\<rparr>"
| "spec_action (DeleteEntry TopupGroupRatioType n) a = a\<lparr>sp_topup := (sp_topup a)(n := None)\<rparr>"
| "spec_action (AppendAuto g) a = a\<lparr>sp_auto := sp_auto a @ [JStr g]\<rparr>"
| "spec_action (RemoveAuto i) a = a\<lparr>sp_auto := take i (sp_auto a) @ drop (i + 1) (sp_auto a)\<rparr>"
| "spec_action (SwapAuto i) a =
     (if i + 1 < length (sp_auto a)
      then a\<lparr>sp_auto := (sp_auto a)[i := sp_auto a ! (i + 1), i + 1 := sp_auto a ! i]\<rparr> else a)"
| "spec_action (CreateGroup g) a =
     (if g \<in> dom (sp_overrides a) then a else a\<lparr>sp_overrides := (sp_overrides a)(g \<mapsto> Map.empty)\<rparr>)"
| "spec_action (DeleteGroup g) a = a\<lparr>sp_overrides := (sp_overrides a)(g := None)\<rparr>"
| "spec_action (SetOverride g old t v) a =
     a\<lparr>sp_overrides := (sp_overrides a)
        (g \<mapsto> put_entry old t v (case sp_overrides a g of None \<Rightarrow> Map.empty | Some ov \<Rightarrow> ov))\<rparr>"
| "spec_action (DeleteOverride g t) a =
     (case sp_overrides a g of
        None \<Rightarrow> a
      | Some ov \<Rightarrow> a\<lparr>sp_overrides := (sp_overrides a)(g := drop_override ov t)\<rparr>)"

section \<open>Abstraction\<close>

definition text_map :: "js_string \<Rightarrow> js_string \<rightharpoonup> json" where
  "text_map s k = (case record_of s of None \<Rightarrow> None | Some m \<Rightarrow> obj_get m k)"

definition overrides_map :: "js_string \<Rightarrow> js_string \<rightharpoonup> (js_string \<rightharpoonup> json)" where
  "overrides_map s g = (case text_map s g of Some (JObj os) \<Rightarrow> Some (obj_get os) | _ \<Rightarrow> None)"

definition abs_editor :: "group_editor \<Rightarrow> group_spec" where
  "abs_editor ed =
     \<lparr>sp_ratios = text_map (GroupRatio ed), sp_usable = text_map (UserUsableGroups ed),
      sp_topup = text_map (TopupGroupRatio ed), sp_overrides = overrides_map (GroupGroupRatio ed),
      sp_auto = (case autoGroupsList ed of None \<Rightarrow> [] | Some xs \<Rightarrow> xs)\<rparr>"

text \<open>The action an event performs, from the event and the inputs of the dialogs.\<close>

definition new_row :: "group_editor \<Rightarrow> pricing_row" where
  "new_row ed =
     \<lparr>row_id = fst (createGroupPricingId (idCounter ed)),
      row_name = group_name (the (freeIndex (map row_name (rows ed)) 1)),
      row_ratio = num_of_int 1, row_selectable = True, row_description = []\<rparr>"

definition updated_rows :: "js_string \<Rightarrow> row_update \<Rightarrow> group_editor \<Rightarrow> pricing_row list" where
  "updated_rows i u ed = map (\<lambda>row. if row_id row = i then update_row u row else row) (rows ed)"

fun action_of :: "editor_event \<Rightarrow> group_editor \<Rightarrow> group_action option" where
  "action_of (UpdateRow i u) ed = Some (WriteTable (updated_rows i u ed))"
| "action_of (UpdateRatio i s) ed =
     Some (WriteTable (updated_rows i (Ratio (normalizeRatio (Some (JStr s)))) ed))"
| "action_of AddRow ed = Some (WriteTable (rows ed @ [new_row ed]))"
| "action_of (RemoveRow i) ed = Some (WriteTable (filter (\<lambda>row. row_id row \<noteq> i) (rows ed)))"
| "action_of SimpleSave ed =
     (if trim (simpleName ed) = [] \<or> trim (simpleValue ed) = [] then None
      else map_option (\<lambda>t. SetEntry t (map_option sg_name (simpleEditData ed)) (trim (simpleName ed))
              (json_of_float (parseFloat (trim (simpleValue ed))))) (simpleDialogType ed))"
| "action_of (SimpleDelete t n) ed = Some (DeleteEntry t n)"
| "action_of AutoSave ed =
     (if trim (autoGroupInput ed) = [] then None else Some (AppendAuto (trim (autoGroupInput ed))))"
| "action_of (AutoDelete i) ed = Some (RemoveAuto i)"
| "action_of (AutoMove i Up) ed = (if i = 0 then None else Some (SwapAuto (i - 1)))"
| "action_of (AutoMove i Down) ed = Some (SwapAuto i)"
| "action_of UserGroupSave ed =
     (if trim (userGroupInput ed) = [] then None else Some (CreateGroup (trim (userGroupInput ed))))"
| "action_of (UserGroupDelete g) ed = Some (DeleteGroup g)"
| "action_of OverrideSave ed =
     (if trim (overrideTarget ed) = [] \<or> trim (overrideRatio ed) = []
         \<or> parseFloat (overrideRatio ed) = NotANumber \<or> opt_str (groupOverrideUserGroup ed) = [] then None
      else Some (SetOverride (opt_str (groupOverrideUserGroup ed))
             (case groupOverrideEditData ed of
                None \<Rightarrow> None | Some ov \<Rightarrow> if go_targetGroup ov = [] then None else Some (go_targetGroup ov))
             (trim (overrideTarget ed)) (json_of_float (parseFloat (overrideRatio ed)))))"
| "action_of (OverrideDelete g t) ed = Some (DeleteOverride g t)"
| "action_of _ ed = None"

definition perform :: "group_action option \<Rightarrow> group_spec \<Rightarrow> group_spec" where
  "perform l a = (case l of None \<Rightarrow> a | Some x \<Rightarrow> spec_action x a)"

definition actions_of :: "editor_event \<Rightarrow> group_editor \<Rightarrow> group_action list" where
  "actions_of ev ed = (case action_of ev ed of None \<Rightarrow> [] | Some x \<Rightarrow> [x])"

section \<open>Invariant\<close>

definition rec_ok :: "js_string \<Rightarrow> bool" where
  "rec_ok s \<longleftrightarrow> (\<exists>m. record_of s = Some m \<and> json_ok (JObj m))"

definition nested_ok :: "js_string \<Rightarrow> bool" where
  "nested_ok s \<longleftrightarrow>
     (\<exists>m. record_of s = Some m \<and> json_ok (JObj m) \<and> list_all (\<lambda>p. overrides_of (snd p) \<noteq> None) m)"

definition auto_ok :: "group_editor \<Rightarrow> bool" where
  "auto_ok ed \<longleftrightarrow> (\<exists>xs. autoGroupsList ed = Some xs \<and> json_ok (JArr xs))"

definition edit_ok :: "group_editor \<Rightarrow> bool" where
  "edit_ok ed \<longleftrightarrow>
     rec_ok (GroupRatio ed) \<and> rec_ok (UserUsableGroups ed) \<and> rec_ok (TopupGroupRatio ed)
     \<and> nested_ok (GroupGroupRatio ed) \<and> auto_ok ed \<and> list_all row_ok (rows ed)
     \<and> str_ok (simpleName ed) \<and> str_ok (overrideTarget ed) \<and> str_ok (autoGroupInput ed)
     \<and> str_ok (userGroupInput ed) \<and> pred_option str_ok (groupOverrideUserGroup ed)
     \<and> pred_option (\<lambda>g. str_ok (sg_name g)) (simpleEditData ed)
     \<and> pred_option (\<lambda>g. str_ok (go_targetGroup g)) (groupOverrideEditData ed)"

text \<open>The texts an event carries are strings of code units, its numbers are canonical, and a position is one
  of the list.\<close>

fun update_ok :: "row_update \<Rightarrow> bool" where
  "update_ok (Name s) = str_ok s"
| "update_ok (Ratio r) = num_ok r"
| "update_ok (Selectable b) = True"
| "update_ok (Description s) = str_ok s"

fun event_ok :: "editor_event \<Rightarrow> group_editor \<Rightarrow> bool" where
  "event_ok (UpdateRow i u) ed = update_ok u"
| "event_ok (SimpleEdit t g) ed = str_ok (sg_name g)"
| "event_ok (SimpleName s) ed = str_ok s"
| "event_ok (AutoInput s) ed = str_ok s"
| "event_ok (AutoMove i d) ed = (case autoGroupsList ed of None \<Rightarrow> False | Some xs \<Rightarrow> i < length xs)"
| "event_ok (UserGroupInput s) ed = str_ok s"
| "event_ok (OverrideAdd g) ed = str_ok g"
| "event_ok (OverrideEdit g ov) ed = (str_ok g \<and> str_ok (go_targetGroup ov))"
| "event_ok (OverrideTarget s) ed = str_ok s"
| "event_ok _ ed = True"

section \<open>Texts\<close>

lemma json_ok_no_members: "json_ok (JObj [])"
  by simp

lemma rec_okE:
  assumes "rec_ok s"
  obtains m where "record_of s = Some m" and "json_ok (JObj m)" and "text_map s = obj_get m"
  using assms by (auto simp: rec_ok_def text_map_def [abs_def])

lemma text_pretty:
  assumes "json_ok (JObj m)"
  shows "rec_ok (json_pretty 0 (JObj m))" and "text_map (json_pretty 0 (JObj m)) = obj_get m"
  using record_of_pretty [OF assms] assms
  by (auto simp: rec_ok_def text_map_def [abs_def] simp del: json_ok.simps json_pretty.simps)

lemma json_ok_float: "json_ok (json_of_float (parseFloat s))"
  by (auto simp: json_of_float_def parseFloat_def signed_prefix_def Let_def num_ok_normalise
      split: js_float.splits list.splits option.splits if_splits)

definition nested_map :: "obj \<Rightarrow> js_string \<rightharpoonup> (js_string \<rightharpoonup> json)" where
  "nested_map m g = (case obj_get m g of Some (JObj os) \<Rightarrow> Some (obj_get os) | _ \<Rightarrow> None)"

definition objects_only :: "obj \<Rightarrow> bool" where
  "objects_only m \<longleftrightarrow> (\<forall>g v. obj_get m g = Some v \<longrightarrow> (\<exists>os. v = JObj os))"

lemma nested_okE:
  assumes "nested_ok s"
  obtains m where "record_of s = Some m" and "json_ok (JObj m)" and "objects_only m" and "overrides_map s = nested_map m"
proof -
  obtain m where m: "record_of s = Some m" "json_ok (JObj m)" "list_all (\<lambda>p. overrides_of (snd p) \<noteq> None) m"
    using assms by (auto simp: nested_ok_def)
  have "\<exists>os. v = JObj os" if "obj_get m g = Some v" for g v
  proof -
    have "overrides_of v \<noteq> None" using m(3) obj_get_mem [OF that] by (auto simp: list_all_iff)
    then show ?thesis by (cases v) (auto simp: overrides_of_def)
  qed
  then have "objects_only m" by (simp add: objects_only_def)
  then show ?thesis
    using that m by (simp add: overrides_map_def [abs_def] nested_map_def [abs_def] text_map_def)
qed

lemma nested_pretty:
  assumes "json_ok (JObj m)" and "objects_only m"
  shows "nested_ok (json_pretty 0 (JObj m))" and "overrides_map (json_pretty 0 (JObj m)) = nested_map m"
proof -
  have "overrides_of (snd p) \<noteq> None" if "p \<in> set m" for p
  proof -
    have "obj_get m (fst p) = Some (snd p)"
      using that json_ok_distinct [OF assms(1)] by (simp add: obj_get_map_of)
    then obtain os where "snd p = JObj os" using assms(2) by (auto simp: objects_only_def)
    then show ?thesis by (simp add: overrides_of_def)
  qed
  then show "nested_ok (json_pretty 0 (JObj m))"
    using assms(1) record_of_pretty [OF assms(1)]
    by (auto simp: nested_ok_def list_all_iff simp del: json_ok.simps json_pretty.simps)
  show "overrides_map (json_pretty 0 (JObj m)) = nested_map m"
    by (simp add: overrides_map_def [abs_def] nested_map_def [abs_def] text_pretty(2) [OF assms(1)]
        del: json_pretty.simps)
qed

lemma nested_put:
  assumes "json_ok (JObj m)" and "objects_only m"
  shows "objects_only (obj_put m g (JObj os))" and "nested_map (obj_put m g (JObj os)) = (nested_map m)(g \<mapsto> obj_get os)"
  using assms(2)
  by (auto simp: objects_only_def nested_map_def [abs_def] obj_get_put [OF json_ok_distinct [OF assms(1)]])

lemma nested_delete:
  assumes "objects_only m"
  shows "objects_only (obj_delete m g)" and "nested_map (obj_delete m g) = (nested_map m)(g := None)"
  using assms by (auto simp: objects_only_def nested_map_def [abs_def])

lemma nested_get:
  assumes "json_ok (JObj m)" and "objects_only m"
  shows "truthy_opt (obj_get m g) \<longleftrightarrow> g \<in> dom (nested_map m)"
    and "nested_map m g = Some ov \<Longrightarrow> \<exists>os. obj_get m g = Some (JObj os) \<and> json_ok (JObj os) \<and> ov = obj_get os"
proof -
  show "truthy_opt (obj_get m g) \<longleftrightarrow> g \<in> dom (nested_map m)"
  proof (cases "obj_get m g")
    case (Some v)
    then obtain os where "v = JObj os" using assms(2) by (auto simp: objects_only_def)
    with Some show ?thesis by (auto simp: nested_map_def truthy_opt_def)
  qed (auto simp: nested_map_def truthy_opt_def)
  assume "nested_map m g = Some ov"
  then obtain os where os: "obj_get m g = Some (JObj os)" "ov = obj_get os"
    by (auto simp: nested_map_def split: option.splits json.splits)
  then show "\<exists>os. obj_get m g = Some (JObj os) \<and> json_ok (JObj os) \<and> ov = obj_get os"
    using json_ok_get [OF assms(1) os(1)] by blast
qed

lemma auto_pretty:
  assumes "json_ok (JArr xs)"
  shows "autoGroupsList (ed\<lparr>AutoGroups := json_pretty 0 (JArr xs)\<rparr>) = Some xs"
  using safeJsonParse_pretty [OF assms] by (simp add: autoGroupsList_def del: json_pretty.simps)

section \<open>Effects\<close>

lemma num_ok_string: "string_to_number t = Some n \<Longrightarrow> num_ok n"
  by (auto simp: string_to_number_def radix_digits_def signed_decimal_def Let_def num_ok_normalise
      split: if_splits list.splits)

lemma num_ok_json_to_number: "json_ok v \<Longrightarrow> json_to_number v = Some n \<Longrightarrow> num_ok n"
  by (cases v) (auto dest: num_ok_string)

lemma num_ok_typed: "num_ok (normalizeRatio (Some (JStr t)))"
  by (auto simp: normalizeRatio_def num_ok_string split: option.splits)

lemma num_ok_normalizeRatio: "pred_option json_ok v \<Longrightarrow> num_ok (normalizeRatio v)"
  by (auto simp: normalizeRatio_def num_ok_json_to_number split: option.splits)

lemma pricingRow_ok:
  assumes "json_ok (JObj gr)" and "json_ok (JObj uu)" and "str_ok n"
  shows "row_ok (pricingRow gr uu i n)"
proof -
  have get: "obj_get ps n = Some v \<Longrightarrow> json_ok (JObj ps) \<Longrightarrow> json_ok v" for ps v by (rule json_ok_get)
  have "pred_option json_ok (obj_get gr n)" using get [of gr] assms(1) by (cases "obj_get gr n") auto
  moreover have "json_ok (js_nullish (obj_get uu n) (JStr []))"
    using get [of uu] assms(2) by (auto simp: js_nullish_def split: option.splits json.splits)
  ultimately show ?thesis
    using assms(3) by (simp add: row_ok_def pricingRow_def num_ok_normalizeRatio json_to_string_ok)
qed

lemma buildRows_ok:
  assumes "json_ok (JObj gr)" and "json_ok (JObj uu)" and "list_all str_ok ns"
  shows "list_all row_ok (fst (buildRows gr uu c ns))"
  using assms(3)
  by (induction ns arbitrary: c) (simp_all add: createGroupPricingId_def case_prod_beta Let_def pricingRow_ok [OF assms(1,2)])

lemma build_refines:
  assumes "rec_ok gr" and "rec_ok uu"
  shows "\<exists>rs n. buildGroupPricingRows c gr uu = Some (rs, n) \<and> list_all row_ok rs"
proof -
  obtain g where g: "record_of gr = Some g" "json_ok (JObj g)" by (rule rec_okE [OF assms(1)])
  obtain u where u: "record_of uu = Some u" "json_ok (JObj u)" by (rule rec_okE [OF assms(2)])
  have "list_all str_ok (js_set (map fst g @ map fst u))"
    using g(2) u(2) by (auto simp: list_all_iff)
  from buildRows_ok [OF g(2) u(2) this, of c] show ?thesis
    using g(1) u(1) by (cases "buildRows g u c (js_set (map fst g @ map fst u))") (simp add: buildGroupPricingRows_def)
qed

lemma dialog_effects:
  assumes "edit_ok ed'"
  shows "edit_ok (overrideDialogEffect ed (simpleDialogEffect ed ed'))"
    and "abs_editor (overrideDialogEffect ed (simpleDialogEffect ed ed')) = abs_editor ed'"
proof -
  have "edit_ok (simpleDialogEffect ed e) \<and> abs_editor (simpleDialogEffect ed e) = abs_editor e" if "edit_ok e" for e
    using that
    by (cases "simpleEditData e") (auto simp: simpleDialogEffect_def edit_ok_def auto_ok_def abs_editor_def autoGroupsList_def)
  moreover have "edit_ok (overrideDialogEffect ed e) \<and> abs_editor (overrideDialogEffect ed e) = abs_editor e"
    if "edit_ok e" for e
    using that
    by (cases "groupOverrideEditData e")
      (auto simp: overrideDialogEffect_def edit_ok_def auto_ok_def abs_editor_def autoGroupsList_def)
  ultimately show "edit_ok (overrideDialogEffect ed (simpleDialogEffect ed ed'))"
    "abs_editor (overrideDialogEffect ed (simpleDialogEffect ed ed')) = abs_editor ed'"
    using assms by simp_all
qed

lemma effects_refine:
  assumes "edit_ok ed'"
  shows "\<exists>ed''. runEffects ed ed' = Some ed'' \<and> edit_ok ed'' \<and> abs_editor ed'' = abs_editor ed'"
proof -
  define e where "e = overrideDialogEffect ed (simpleDialogEffect ed ed')"
  have e: "edit_ok e" "abs_editor e = abs_editor ed'" using dialog_effects [OF assms] by (simp_all add: e_def)
  obtain rs n where s: "syncRows (rows e, idCounter e) (GroupRatio e) (UserUsableGroups e) = Some (rs, n)"
    "list_all row_ok rs"
  proof (cases "groupPricingSignature (rows e) = sourceGroupPricingSignature (GroupRatio e) (UserUsableGroups e)")
    case True
    then show ?thesis using that e(1) by (simp add: syncRows_def edit_ok_def)
  next
    case False
    then show ?thesis
      using that e(1) build_refines [of "GroupRatio e" "UserUsableGroups e" "idCounter e"]
      by (auto simp: syncRows_def edit_ok_def)
  qed
  have "edit_ok (e\<lparr>rows := rs, idCounter := n\<rparr>) \<and> abs_editor (e\<lparr>rows := rs, idCounter := n\<rparr>) = abs_editor e"
    using e(1) s(2) by (simp add: edit_ok_def auto_ok_def abs_editor_def autoGroupsList_def)
  then show ?thesis
    using e s(1) by (simp add: runEffects_def e_def [symmetric] tableEffect_def)
qed

section \<open>Handlers\<close>

definition refines :: "editor_event \<Rightarrow> group_editor \<Rightarrow> bool" where
  "refines ev ed \<longleftrightarrow>
     (\<exists>ed'. handler ev ed = Some ed' \<and> edit_ok ed'
        \<and> abs_editor ed' = perform (action_of ev ed) (abs_editor ed))"

lemma emit_refines:
  assumes "edit_ok ed" and "list_all row_ok rs"
  shows "edit_ok (emitRows rs ed)" and "abs_editor (emitRows rs ed) = spec_action (WriteTable rs) (abs_editor ed)"
proof -
  obtain g u where w: "serializeGroupPricingRows rs = (g, u)" by force
  obtain gr uu where r: "record_of g = Some gr" "record_of u = Some uu" "json_ok (JObj gr)" "json_ok (JObj uu)"
    "obj_get gr = ratios_of rs" "obj_get uu = usable_of rs"
    using written_ratios [OF assms(2)] w by auto
  then have "rec_ok g" "rec_ok u" by (simp_all add: rec_ok_def del: json_ok.simps)
  then show "edit_ok (emitRows rs ed)"
    using assms by (simp add: emitRows_def w edit_ok_def auto_ok_def autoGroupsList_def)
  have "text_map g = ratios_of rs" "text_map u = usable_of rs"
    using r by (simp_all add: text_map_def [abs_def])
  then show "abs_editor (emitRows rs ed) = spec_action (WriteTable rs) (abs_editor ed)"
    by (simp add: emitRows_def w abs_editor_def autoGroupsList_def)
qed

lemma update_row_ok: "row_ok r \<Longrightarrow> update_ok u \<Longrightarrow> row_ok (update_row u r)"
  by (cases u) (auto simp: update_row_def row_ok_def)

lemma updated_rows_ok: "list_all row_ok (rows ed) \<Longrightarrow> update_ok u \<Longrightarrow> list_all row_ok (updated_rows i u ed)"
  by (auto simp: updated_rows_def list_all_iff update_row_ok)

lemma refines_table:
  assumes "edit_ok ed"
  shows "update_ok u \<Longrightarrow> refines (UpdateRow i u) ed" and "refines (UpdateRatio i t) ed"
    and "refines AddRow ed" and "refines (RemoveRow i) ed"
proof -
  have rows: "list_all row_ok (rows ed)" using assms by (simp add: edit_ok_def)
  have upd: "edit_ok (updateRow i u ed) \<and> abs_editor (updateRow i u ed) =
      spec_action (WriteTable (updated_rows i u ed)) (abs_editor ed)" if "update_ok u" for u
    using emit_refines [OF assms updated_rows_ok [OF rows that]] by (simp add: updateRow_def updated_rows_def)
  then show "update_ok u \<Longrightarrow> refines (UpdateRow i u) ed"
    by (simp add: refines_def handler_def perform_def)
  show "refines (UpdateRatio i t) ed"
    using upd [of "Ratio (normalizeRatio (Some (JStr t)))"] num_ok_typed [of t]
    by (simp add: refines_def handler_def perform_def)
  show "refines AddRow ed"
  proof -
    obtain k where k: "freeIndex (map row_name (rows ed)) 1 = Some k" by (rule freeIndex_total)
    have "str_ok (group_name k)" by (simp add: group_name_def)
    then have "list_all row_ok (rows ed @ [new_row ed])"
      using rows k by (simp add: new_row_def row_ok_def)
    moreover have "edit_ok (ed\<lparr>idCounter := n\<rparr>)" "abs_editor (ed\<lparr>idCounter := n\<rparr>) = abs_editor ed" for n
      using assms by (simp_all add: edit_ok_def auto_ok_def abs_editor_def autoGroupsList_def)
    ultimately show ?thesis
      using emit_refines [of "ed\<lparr>idCounter := idCounter ed + 1\<rparr>" "rows ed @ [new_row ed]"] k
      by (simp add: refines_def handler_def perform_def addRow_def createGroupPricingId_def new_row_def)
  qed
  have "list_all row_ok (filter (\<lambda>row. row_id row \<noteq> i) (rows ed))" using rows by (auto simp: list_all_iff)
  from emit_refines [OF assms this] show "refines (RemoveRow i) ed"
    by (simp add: refines_def handler_def perform_def removeRow_def)
qed

text \<open>The events that only touch the dialogs.\<close>

lemma refines_dialogs:
  assumes "edit_ok ed" and "event_ok ev ed"
    and "ev \<in> {AutoAdd, AutoClose, UserGroupAdd, UserGroupClose, SimpleClose, OverrideClose}
      \<union> range SimpleAdd \<union> range SimpleName \<union> range SimpleValue \<union> range AutoInput \<union> range UserGroupInput
      \<union> range OverrideAdd \<union> range OverrideTarget \<union> range OverrideRatio
      \<union> range (\<lambda>(t, g). SimpleEdit t g) \<union> range (\<lambda>(g, ov). OverrideEdit g ov)"
  shows "refines ev ed"
  using assms
  by (auto simp: refines_def handler_def perform_def edit_ok_def auto_ok_def abs_editor_def autoGroupsList_def
      handleAutoGroupAdd_def handleUserGroupAdd_def handleSimpleAdd_def handleSimpleEdit_def setSimpleValue_def
      handleOverrideAdd_def handleOverrideEdit_def setOverrideRatio_def)

text \<open>The ratios by name.\<close>

lemma abs_changeSimple:
  "text_map s = put_entry old n v (text_map (simpleText t ed)) \<Longrightarrow>
     abs_editor (changeSimple t s ed) = spec_action (SetEntry t old n v) (abs_editor ed)"
  "text_map s = (text_map (simpleText t ed))(n := None) \<Longrightarrow>
     abs_editor (changeSimple t s ed) = spec_action (DeleteEntry t n) (abs_editor ed)"
  by (cases t; simp add: changeSimple_def simpleText_def abs_editor_def autoGroupsList_def)+

lemma edit_ok_changeSimple: "edit_ok ed \<Longrightarrow> rec_ok s \<Longrightarrow> edit_ok (changeSimple t s ed)"
  by (cases t) (simp_all add: changeSimple_def edit_ok_def auto_ok_def autoGroupsList_def)

lemma simpleText_ok: "edit_ok ed \<Longrightarrow> rec_ok (simpleText t ed)"
  by (cases t) (simp_all add: simpleText_def edit_ok_def)

lemma refines_simple_delete:
  assumes "edit_ok ed"
  shows "refines (SimpleDelete t n) ed"
proof -
  obtain m where m: "record_of (simpleText t ed) = Some m" "json_ok (JObj m)" "text_map (simpleText t ed) = obj_get m"
    by (rule rec_okE [OF simpleText_ok [OF assms]])
  have ok: "json_ok (JObj (obj_delete m n))" by (rule json_ok_delete [OF m(2)])
  have "text_map (json_pretty 0 (JObj (obj_delete m n))) = (text_map (simpleText t ed))(n := None)"
    unfolding text_pretty(2) [OF ok] m(3) by (rule obj_get_delete_upd)
  then show ?thesis
    using m(1) edit_ok_changeSimple [OF assms text_pretty(1) [OF ok]]
    by (simp add: refines_def handler_def handleSimpleDelete_def perform_def abs_changeSimple(2)
        del: json_pretty.simps spec_action.simps)
qed

lemma put_entry_refines:
  assumes "json_ok (JObj m)" and "str_ok n" and "json_ok v"
  shows "json_ok (JObj (obj_put (case old of None \<Rightarrow> m | Some k \<Rightarrow> if k \<noteq> n then obj_delete m k else m) n v))"
    and "obj_get (obj_put (case old of None \<Rightarrow> m | Some k \<Rightarrow> if k \<noteq> n then obj_delete m k else m) n v) =
      put_entry old n v (obj_get m)"
proof -
  let ?m = "case old of None \<Rightarrow> m | Some k \<Rightarrow> if k \<noteq> n then obj_delete m k else m"
  have ok: "json_ok (JObj ?m)" using assms(1) json_ok_delete by (auto simp del: json_ok.simps split: option.split)
  then show "json_ok (JObj (obj_put ?m n v))" using assms(2,3) by (rule json_ok_put)
  show "obj_get (obj_put ?m n v) = put_entry old n v (obj_get m)"
    unfolding obj_get_put [OF json_ok_distinct [OF ok]] put_entry_def
    by (rule ext) (auto split: option.split)
qed

lemma edit_ok_dialogs:
  "edit_ok (ed\<lparr>simpleDialogOpen := b\<rparr>) = edit_ok ed"
  "edit_ok (ed\<lparr>groupOverrideDialogOpen := b\<rparr>) = edit_ok ed"
  "edit_ok (ed\<lparr>autoGroupDialogOpen := b\<rparr>) = edit_ok ed"
  "edit_ok (ed\<lparr>userGroupDialogOpen := b\<rparr>) = edit_ok ed"
  "edit_ok ed \<Longrightarrow> edit_ok (ed\<lparr>simpleName := [], simpleValue := []\<rparr>)"
  "edit_ok ed \<Longrightarrow> edit_ok (ed\<lparr>overrideTarget := [], overrideRatio := []\<rparr>)"
  by (simp_all add: edit_ok_def auto_ok_def autoGroupsList_def)

lemma abs_dialogs:
  "abs_editor (ed\<lparr>simpleDialogOpen := b\<rparr>) = abs_editor ed"
  "abs_editor (ed\<lparr>groupOverrideDialogOpen := b\<rparr>) = abs_editor ed"
  "abs_editor (ed\<lparr>autoGroupDialogOpen := b\<rparr>) = abs_editor ed"
  "abs_editor (ed\<lparr>userGroupDialogOpen := b\<rparr>) = abs_editor ed"
  "abs_editor (ed\<lparr>simpleName := s, simpleValue := t\<rparr>) = abs_editor ed"
  "abs_editor (ed\<lparr>overrideTarget := s, overrideRatio := t\<rparr>) = abs_editor ed"
  by (simp_all add: abs_editor_def autoGroupsList_def)

lemma simpleSave_refines:
  assumes "edit_ok ed" and "str_ok n"
  shows "\<exists>ed'. handleSimpleSave n v ed = Some ed' \<and> edit_ok ed' \<and> abs_editor ed' =
    perform (map_option (\<lambda>t. SetEntry t (map_option sg_name (simpleEditData ed)) n (json_of_float (parseFloat v)))
      (simpleDialogType ed)) (abs_editor ed)"
proof (cases "simpleDialogType ed")
  case None
  then show ?thesis using assms by (simp add: handleSimpleSave_def perform_def)
next
  case (Some t)
  obtain m where m: "record_of (simpleText t ed) = Some m" "json_ok (JObj m)" "text_map (simpleText t ed) = obj_get m"
    by (rule rec_okE [OF simpleText_ok [OF assms(1)]])
  let ?old = "map_option sg_name (simpleEditData ed)" and ?v = "json_of_float (parseFloat v)"
  define m' where "m' = obj_put (case ?old of None \<Rightarrow> m | Some k \<Rightarrow> if k \<noteq> n then obj_delete m k else m) n ?v"
  have put: "json_ok (JObj m')" "obj_get m' = put_entry ?old n ?v (obj_get m)"
    unfolding m'_def by (rule put_entry_refines [OF m(2) assms(2) json_ok_float])+
  have e: "(case simpleEditData ed of None \<Rightarrow> m | Some g \<Rightarrow> if sg_name g \<noteq> n then obj_delete m (sg_name g) else m) =
      (case ?old of None \<Rightarrow> m | Some k \<Rightarrow> if k \<noteq> n then obj_delete m k else m)"
    by (cases "simpleEditData ed") simp_all
  have h: "handleSimpleSave n v ed =
      Some ((changeSimple t (json_pretty 0 (JObj m')) ed)\<lparr>simpleDialogOpen := False\<rparr>)"
    by (simp only: handleSimpleSave_def Some m(1) option.case Let_def e m'_def)
  have "text_map (json_pretty 0 (JObj m')) = put_entry ?old n ?v (text_map (simpleText t ed))"
    by (simp only: text_pretty(2) [OF put(1)] put(2) m(3))
  from abs_changeSimple(1) [OF this] show ?thesis
    unfolding h using edit_ok_changeSimple [OF assms(1) text_pretty(1) [OF put(1)], of t]
    by (simp add: edit_ok_dialogs abs_dialogs Some perform_def del: json_pretty.simps spec_action.simps)
qed

lemma refines_simple_save:
  assumes "edit_ok ed"
  shows "refines SimpleSave ed"
proof (cases "trim (simpleName ed) = [] \<or> trim (simpleValue ed) = []")
  case True
  then show ?thesis using assms by (simp add: refines_def handler_def simpleHandleSave_def perform_def)
next
  case False
  have "str_ok (trim (simpleName ed))" using assms by (simp add: edit_ok_def str_ok_trim)
  from simpleSave_refines [OF assms this, of "trim (simpleValue ed)"] False show ?thesis
    by (auto simp: refines_def handler_def simpleHandleSave_def edit_ok_dialogs abs_dialogs)
qed

text \<open>The automatic groups.\<close>

lemma auto_refines:
  assumes "edit_ok ed" and "json_ok (JArr xs)"
  shows "edit_ok (ed\<lparr>AutoGroups := json_pretty 0 (JArr xs)\<rparr>)"
    and "abs_editor (ed\<lparr>AutoGroups := json_pretty 0 (JArr xs)\<rparr>) = (abs_editor ed)\<lparr>sp_auto := xs\<rparr>"
  using assms auto_pretty [OF assms(2), of ed]
  by (simp_all add: edit_ok_def auto_ok_def abs_editor_def del: json_pretty.simps json_ok.simps)

lemma edit_ok_auto:
  assumes "edit_ok ed"
  obtains xs where "autoGroupsList ed = Some xs" and "json_ok (JArr xs)" and "sp_auto (abs_editor ed) = xs"
  using assms by (auto simp: edit_ok_def auto_ok_def abs_editor_def)

lemma refines_auto:
  assumes "edit_ok ed"
  shows "refines AutoSave ed" and "refines (AutoDelete i) ed" and "event_ok (AutoMove i d) ed \<Longrightarrow> refines (AutoMove i d) ed"
proof -
  obtain xs where xs: "autoGroupsList ed = Some xs" "json_ok (JArr xs)" "sp_auto (abs_editor ed) = xs"
    by (rule edit_ok_auto [OF assms])
  have "str_ok (trim (autoGroupInput ed))" using assms by (simp add: edit_ok_def str_ok_trim)
  then have "json_ok (JArr (xs @ [JStr (trim (autoGroupInput ed))]))" using xs(2) by simp
  from auto_refines [OF assms this] show "refines AutoSave ed"
    using assms xs
    by (auto simp: refines_def handler_def handleAutoGroupSave_def perform_def edit_ok_dialogs abs_dialogs
        simp del: json_pretty.simps)
  have "json_ok (JArr (take i xs @ drop (i + 1) xs))"
    using xs(2) by (auto simp: list_all_iff dest: in_set_takeD in_set_dropD)
  from auto_refines [OF assms this] show "refines (AutoDelete i) ed"
    using xs by (simp add: refines_def handler_def handleAutoGroupDelete_def perform_def del: json_pretty.simps)
  assume "event_ok (AutoMove i d) ed"
  then have i: "i < length xs" using xs(1) by simp
  have swap: "json_ok (JArr (xs[j := xs ! k, k := xs ! j]))" if "j < length xs" "k < length xs" for j k
    using xs(2) that by (auto simp: list_all_iff dest!: set_update_subset_insert [THEN subsetD])
  show "refines (AutoMove i d) ed"
  proof (cases d)
    case Up
    show ?thesis
    proof (cases i)
      case 0
      then show ?thesis
        using assms xs Up by (simp add: refines_def handler_def handleAutoGroupMove_def perform_def)
    next
      case (Suc j)
      have sw: "swapped xs i j = xs[j := xs ! Suc j, Suc j := xs ! j]"
        using i Suc by (simp add: swapped_def list_update_swap)
      have "json_ok (JArr (swapped xs i j))" unfolding sw by (rule swap) (use i Suc in auto)
      from auto_refines [OF assms this] show ?thesis
        using xs i Suc Up sw
        by (simp add: refines_def handler_def handleAutoGroupMove_def perform_def Let_def del: json_pretty.simps)
    qed
  next
    case Down
    show ?thesis
    proof (cases "Suc i < length xs")
      case False
      then show ?thesis
        using assms xs Down by (simp add: refines_def handler_def handleAutoGroupMove_def perform_def)
    next
      case True
      have sw: "swapped xs i (Suc i) = xs[i := xs ! Suc i, Suc i := xs ! i]"
        using i by (simp add: swapped_def)
      have n: "nat (int i + 1) = Suc i" by simp
      have "json_ok (JArr (swapped xs i (Suc i)))" unfolding sw by (rule swap) (use i True in auto)
      from auto_refines [OF assms this] show ?thesis
        using xs True Down sw n
        by (simp add: refines_def handler_def handleAutoGroupMove_def perform_def Let_def del: json_pretty.simps)
    qed
  qed
qed

text \<open>The overrides.\<close>

lemma overrides_refine:
  assumes "edit_ok ed" and "json_ok (JObj m)" and "objects_only m"
  shows "edit_ok (ed\<lparr>GroupGroupRatio := json_pretty 0 (JObj m)\<rparr>)"
    and "abs_editor (ed\<lparr>GroupGroupRatio := json_pretty 0 (JObj m)\<rparr>) = (abs_editor ed)\<lparr>sp_overrides := nested_map m\<rparr>"
  using assms nested_pretty [OF assms(2,3)]
  by (simp_all add: edit_ok_def auto_ok_def abs_editor_def autoGroupsList_def del: json_pretty.simps json_ok.simps)

lemma edit_ok_overrides:
  assumes "edit_ok ed"
  obtains m where "record_of (GroupGroupRatio ed) = Some m" and "json_ok (JObj m)" and "objects_only m"
    and "sp_overrides (abs_editor ed) = nested_map m"
  using assms nested_okE [of "GroupGroupRatio ed"] by (auto simp: edit_ok_def abs_editor_def)

lemma refines_user_group:
  assumes "edit_ok ed"
  shows "refines UserGroupSave ed" and "refines (UserGroupDelete g) ed"
proof -
  obtain m where m: "record_of (GroupGroupRatio ed) = Some m" "json_ok (JObj m)" "objects_only m"
    "sp_overrides (abs_editor ed) = nested_map m" by (rule edit_ok_overrides [OF assms])
  have del: "json_ok (JObj (obj_delete m g))" by (rule json_ok_delete [OF m(2)])
  show "refines (UserGroupDelete g) ed"
    using m(1,4) overrides_refine [OF assms del nested_delete(1) [OF m(3)]] nested_delete(2) [OF m(3)]
    by (simp add: refines_def handler_def handleUserGroupDelete_def perform_def del: json_pretty.simps)
  let ?g = "trim (userGroupInput ed)"
  have g: "str_ok ?g" using assms by (simp add: edit_ok_def str_ok_trim)
  define m' where "m' = (if truthy_opt (obj_get m ?g) then m else obj_put m ?g (JObj []))"
  have e: "obj_get [] = (Map.empty :: js_string \<rightharpoonup> json)" by (rule ext) simp
  have "json_ok (JObj m')" "objects_only m'"
    using m(2,3) json_ok_put [OF m(2) g json_ok_no_members] nested_put(1) [OF m(2,3)]
    by (auto simp: m'_def own_order_def simp del: json_ok.simps)
  moreover have "nested_map m' = (if ?g \<in> dom (nested_map m) then nested_map m else (nested_map m)(?g \<mapsto> Map.empty))"
    unfolding m'_def nested_get(1) [OF m(2,3)] using nested_put(2) [OF m(2,3), of ?g "[]"] by (simp add: e)
  ultimately show "refines UserGroupSave ed"
    using assms m(1,4) overrides_refine [of ed m']
    by (auto simp: refines_def handler_def handleUserGroupSave_def perform_def Let_def m'_def [symmetric]
        edit_ok_dialogs abs_dialogs simp del: json_pretty.simps)
qed

lemma refines_override_delete:
  assumes "edit_ok ed"
  shows "refines (OverrideDelete g t) ed"
proof -
  obtain m where m: "record_of (GroupGroupRatio ed) = Some m" "json_ok (JObj m)" "objects_only m"
    "sp_overrides (abs_editor ed) = nested_map m" by (rule edit_ok_overrides [OF assms])
  show ?thesis
  proof (cases "nested_map m g")
    case None
    then have f: "\<not> truthy_opt (obj_get m g)" using nested_get(1) [OF m(2,3)] by auto
    show ?thesis
      using m(1,4) overrides_refine [OF assms m(2,3)] f None
      by (simp add: refines_def handler_def handleOverrideDelete_def perform_def del: json_pretty.simps)
  next
    case (Some ov)
    obtain os where os: "obj_get m g = Some (JObj os)" "json_ok (JObj os)" "ov = obj_get os"
      using nested_get(2) [OF m(2,3) Some] by blast
    define os' where "os' = obj_delete os t"
    define m' where "m' = (if os' = [] then obj_delete m g else obj_put m g (JObj os'))"
    have os'_ok: "json_ok (JObj os')" unfolding os'_def by (rule json_ok_delete [OF os(2)])
    have str: "str_ok g" using m(2) obj_get_mem [OF os(1)] by (auto simp: list_all_iff)
    have "json_ok (JObj m')"
      unfolding m'_def using json_ok_delete [OF m(2)] json_ok_put [OF m(2) str os'_ok] by simp
    moreover have "objects_only m'"
      unfolding m'_def using nested_delete(1) [OF m(3)] nested_put(1) [OF m(2,3)] by simp
    ultimately have r: "edit_ok (ed\<lparr>GroupGroupRatio := json_pretty 0 (JObj m')\<rparr>)"
      "abs_editor (ed\<lparr>GroupGroupRatio := json_pretty 0 (JObj m')\<rparr>) = (abs_editor ed)\<lparr>sp_overrides := nested_map m'\<rparr>"
      by (rule overrides_refine [OF assms])+
    have "os' = [] \<longleftrightarrow> obj_get os' = Map.empty"
    proof
      assume "obj_get os' = Map.empty"
      then show "os' = []" by (cases os') (auto simp: fun_eq_iff split: if_splits)
    qed (auto simp: fun_eq_iff)
    then have "nested_map m' = (nested_map m)(g := drop_override ov t)"
      unfolding m'_def using nested_delete(2) [OF m(3)] nested_put(2) [OF m(2,3)]
      by (simp add: drop_override_def os(3) os'_def obj_get_delete_upd)
    moreover have "handleOverrideDelete g t ed = Some (ed\<lparr>GroupGroupRatio := json_pretty 0 (JObj m')\<rparr>)"
      using m(1) os(1)
      by (simp add: handleOverrideDelete_def truthy_opt_def overrides_of_def Let_def m'_def os'_def del: json_pretty.simps)
    ultimately show ?thesis
      using r m(4) Some by (simp add: refines_def handler_def perform_def del: json_pretty.simps)
  qed
qed

lemma override_entry:
  assumes "json_ok (JObj os)" and "str_ok t" and "json_ok v"
  shows "json_ok (JObj (obj_put (if k \<noteq> [] \<and> k \<noteq> t then obj_delete os k else os) t v))"
    and "obj_get (obj_put (if k \<noteq> [] \<and> k \<noteq> t then obj_delete os k else os) t v) =
      put_entry (if k = [] then None else Some k) t v (obj_get os)"
  using put_entry_refines [OF assms, of "if k = [] then None else Some k"] by (auto split: if_splits)

lemma overrideSave_refines:
  assumes "edit_ok ed" and "str_ok t" and ug: "opt_str (groupOverrideUserGroup ed) = ug" "ug \<noteq> []"
    and v: "json_ok (json_of_float r)"
  shows "\<exists>ed'. handleOverrideSave t r old ed = Some ed' \<and> edit_ok ed'
    \<and> abs_editor ed' = spec_action (SetOverride ug (if opt_str old = [] then None else Some (opt_str old)) t (json_of_float r))
        (abs_editor ed)"
proof -
  obtain m where m: "record_of (GroupGroupRatio ed) = Some m" "json_ok (JObj m)" "objects_only m"
    "sp_overrides (abs_editor ed) = nested_map m" by (rule edit_ok_overrides [OF assms(1)])
  have str: "str_ok ug"
    using assms(1) ug by (cases "groupOverrideUserGroup ed") (auto simp: edit_ok_def opt_str_def)
  define m1 where "m1 = (if truthy_opt (obj_get m ug) then m else obj_put m ug (JObj []))"
  obtain os where os: "obj_get m1 ug = Some (JObj os)" "json_ok (JObj os)"
    "obj_get os = (case nested_map m ug of None \<Rightarrow> Map.empty | Some ov \<Rightarrow> ov)"
  proof (cases "nested_map m ug")
    case None
    then have "m1 = obj_put m ug (JObj [])" using nested_get(1) [OF m(2,3)] by (auto simp: m1_def)
    then show ?thesis
      using that [of "[]"] None obj_get_put [OF json_ok_distinct [OF m(2)]] by (auto simp: fun_eq_iff own_order_def)
  next
    case (Some ov)
    then have "m1 = m" using nested_get(1) [OF m(2,3)] by (auto simp: m1_def)
    then show ?thesis using that nested_get(2) [OF m(2,3) Some] Some by auto
  qed
  have m1: "json_ok (JObj m1)" "objects_only m1"
    using m(2,3) json_ok_put [OF m(2) str json_ok_no_members] nested_put(1) [OF m(2,3)]
    by (auto simp: m1_def own_order_def simp del: json_ok.simps)
  let ?k = "opt_str old"
  define os2 where "os2 = obj_put (if ?k \<noteq> [] \<and> ?k \<noteq> t then obj_delete os ?k else os) t (json_of_float r)"
  have os2: "json_ok (JObj os2)"
    "obj_get os2 = put_entry (if ?k = [] then None else Some ?k) t (json_of_float r) (obj_get os)"
    unfolding os2_def by (rule override_entry [OF os(2) assms(2) v])+
  have h: "handleOverrideSave t r old ed =
      Some (ed\<lparr>GroupGroupRatio := json_pretty 0 (JObj (obj_put m1 ug (JObj os2))), groupOverrideDialogOpen := False\<rparr>)"
    using ug m(1) os(1)
    by (simp add: handleOverrideSave_def Let_def m1_def [symmetric] overrides_of_def os2_def del: json_pretty.simps)
  have "nested_map (obj_put m1 ug (JObj os2)) = (nested_map m)(ug \<mapsto> obj_get os2)"
    unfolding nested_put(2) [OF m1] by (rule ext) (simp add: m1_def nested_put(2) [OF m(2,3)])
  then show ?thesis
    using overrides_refine [OF assms(1) json_ok_put [OF m1(1) str os2(1)] nested_put(1) [OF m1]] os2(2) os(3) m(4)
    by (simp add: h edit_ok_dialogs abs_dialogs del: json_pretty.simps)
qed

lemma refines_override_save:
  assumes "edit_ok ed"
  shows "refines OverrideSave ed"
proof -
  let ?t = "trim (overrideTarget ed)" and ?old = "map_option go_targetGroup (groupOverrideEditData ed)"
  have t: "str_ok ?t" using assms by (simp add: edit_ok_def str_ok_trim)
  show ?thesis
  proof (cases "?t = [] \<or> trim (overrideRatio ed) = [] \<or> parseFloat (overrideRatio ed) = NotANumber")
    case True
    then show ?thesis using assms by (auto simp: refines_def handler_def overrideHandleSave_def perform_def)
  next
    case False
    show ?thesis
    proof (cases "opt_str (groupOverrideUserGroup ed) = []")
      case True
      then show ?thesis
        using assms False
        by (simp add: refines_def handler_def overrideHandleSave_def perform_def handleOverrideSave_def
            edit_ok_dialogs abs_dialogs)
    next
      case ne: False
      have "(if opt_str ?old = [] then None else Some (opt_str ?old)) =
          (case groupOverrideEditData ed of
             None \<Rightarrow> None | Some ov \<Rightarrow> if go_targetGroup ov = [] then None else Some (go_targetGroup ov))"
        by (cases "groupOverrideEditData ed") (simp_all add: opt_str_def)
      with overrideSave_refines [OF assms t refl ne json_ok_float [of "overrideRatio ed"], of ?old] False ne
      show ?thesis
        by (auto simp: refines_def handler_def overrideHandleSave_def perform_def edit_ok_dialogs abs_dialogs
            simp del: spec_action.simps)
    qed
  qed
qed

lemma handler_refines:
  assumes "edit_ok ed" and "event_ok ev ed"
  shows "refines ev ed"
  using assms refines_table [OF assms(1)] refines_simple_delete [OF assms(1)] refines_simple_save [OF assms(1)]
    refines_auto [OF assms(1)] refines_user_group [OF assms(1)] refines_override_delete [OF assms(1)]
    refines_override_save [OF assms(1)]
  by (cases ev) (simp_all add: refines_dialogs image_iff)

interpretation group_events: event_refinement react event_ok edit_ok abs_editor actions_of spec_action
proof
  fix ed ev
  assume ok: "edit_ok ed" and allowed: "event_ok ev ed"
  obtain ed' where ed': "handler ev ed = Some ed'" "edit_ok ed'"
    "abs_editor ed' = perform (action_of ev ed) (abs_editor ed)"
    using handler_refines [OF ok allowed] by (auto simp: refines_def)
  obtain ed'' where "runEffects ed ed' = Some ed''" "edit_ok ed''" "abs_editor ed'' = abs_editor ed'"
    using effects_refine [OF ed'(2)] by blast
  with ed' show "\<exists>ed'. react ev ed = Some ed' \<and> edit_ok ed'
      \<and> abs_editor ed' = fold spec_action (actions_of ev ed) (abs_editor ed)"
    by (cases "action_of ev ed") (simp_all add: react_def perform_def actions_of_def)
qed

text \<open>The texts of the form give a well-formed editor.\<close>

lemma record_of_ok: "str_ok s \<Longrightarrow> record_of s = Some m \<Longrightarrow> json_ok (JObj m)"
proof -
  assume "str_ok s" and r: "record_of s = Some m"
  then have "json_parse (trim s) = Some v \<Longrightarrow> json_ok v" for v by (auto dest: json_parse_ok [OF _ str_ok_trim])
  with r show ?thesis
    by (auto simp: record_of_def safeJsonParse_def js_nullish_def opt_str_def Let_def
        split: json.splits option.splits if_splits)
qed

section \<open>Property\<close>

text \<open>C1 (refinement): the editor implements the abstract machine. Whatever the user does on the page, no handler
  fails, the texts of the form stay well formed, and they stand for the state the abstract machine reaches by the
  actions of the events.\<close>

theorem group_editor_refines:
  assumes "edit_ok ed" and "allowed_run react event_ok evs ed"
  shows "\<exists>ed'. run_events react evs ed = Some ed' \<and> edit_ok ed'
    \<and> abs_editor ed' = fold spec_action (run_actions react actions_of evs ed) (abs_editor ed)"
  using assms by (rule group_events.run_refines)

definition demo_editor :: group_editor where
  "demo_editor =
     \<lparr>GroupRatio = json_pretty 0 (JObj []), UserUsableGroups = json_pretty 0 (JObj []),
      TopupGroupRatio = json_pretty 0 (JObj []), GroupGroupRatio = json_pretty 0 (JObj []),
      AutoGroups = json_pretty 0 (JArr []), rows = [], idCounter = 0, simpleDialogOpen = False,
      simpleDialogType = None, simpleEditData = None, autoGroupDialogOpen = True, autoGroupInput = [],
      groupOverrideDialogOpen = False, groupOverrideUserGroup = None, groupOverrideEditData = None,
      userGroupDialogOpen = False, userGroupInput = [], simpleName = [], simpleValue = [],
      overrideTarget = [], overrideRatio = []\<rparr>"

theorem group_editor_refines_witness:
  "edit_ok demo_editor
   \<and> (\<exists>ed'. run_events react [AutoInput (js ''vip''), AutoSave] demo_editor = Some ed'
        \<and> sp_auto (abs_editor ed') = [JStr (js ''vip'')])"
proof -
  have arr: "safeJsonParse (Some (json_pretty 0 (JArr []))) fb = JArr []" for fb
    by (rule safeJsonParse_pretty) simp
  have auto: "autoGroupsList demo_editor = Some []"
    by (simp add: autoGroupsList_def demo_editor_def arr del: json_pretty.simps)
  have nested: "nested_ok (json_pretty 0 (JObj []))"
    by (rule nested_pretty(1) [OF json_ok_no_members]) (simp add: objects_only_def)
  have ok: "edit_ok demo_editor"
    using nested text_pretty(1) [OF json_ok_no_members] auto
    by (simp add: edit_ok_def auto_ok_def demo_editor_def del: json_pretty.simps)
  let ?evs = "[AutoInput (js ''vip''), AutoSave]" and ?ed = "demo_editor\<lparr>autoGroupInput := js ''vip''\<rparr>"
  have r: "react (AutoInput (js ''vip'')) demo_editor = Some ?ed"
    by (simp add: react_def handler_def runEffects_def tableEffect_def simpleDialogEffect_def
        overrideDialogEffect_def del: json_pretty.simps)
  have t: "trim (js ''vip'') = js ''vip''" by (rule trim_id) (simp add: trimmed_def js_def is_ws_def)
  have acts: "run_actions react actions_of ?evs demo_editor = [AppendAuto (js ''vip'')]"
    by (simp add: r actions_of_def t split: option.split)
  have "allowed_run react event_ok ?evs demo_editor" by (simp add: r split: option.split)
  from group_editor_refines [OF ok this] obtain ed' where "run_events react ?evs demo_editor = Some ed'"
    "abs_editor ed' = fold spec_action [AppendAuto (js ''vip'')] (abs_editor demo_editor)"
    unfolding acts by blast
  then show ?thesis using ok by (auto simp: abs_editor_def auto)
qed

end
