(* ===== verification/SpecialRules.thy ===== *)
theory SpecialRules
  imports GroupRatioProps
begin

text \<open>
  The editor of the special usable groups, \<open>features/system-settings/models/group-special-usable-editor.tsx\<close>:
  rules that add, remove or append a group for the users of a group, kept as a flat list and written as a nested
  record whose inner keys carry the operation as a prefix.
\<close>

section \<open>Rules and their text\<close>

datatype op_type = OpAdd | OpRemove | OpAppend

record rule =
  rule_id :: js_string
  rule_userGroup :: js_string
  rule_op :: op_type
  rule_targetGroup :: js_string
  rule_description :: js_string

definition uid :: "nat \<Rightarrow> js_string \<times> nat" where
  "uid counter = (js ''gsu_'' @ digits (counter + 1), counter + 1)"

definition parsePrefix :: "js_string \<Rightarrow> op_type \<times> js_string" where
  "parsePrefix rawKey =
     (if prefix (js ''+:'') rawKey then (OpAdd, drop 2 rawKey)
      else if prefix (js ''-:'') rawKey then (OpRemove, drop 2 rawKey)
      else (OpAppend, rawKey))"

definition toRawKey :: "op_type \<Rightarrow> js_string \<Rightarrow> js_string" where
  "toRawKey op groupName =
     (case op of OpAdd \<Rightarrow> js ''+:'' @ groupName | OpRemove \<Rightarrow> js ''-:'' @ groupName | OpAppend \<Rightarrow> groupName)"

definition safeParseJson :: "js_string \<Rightarrow> json" where
  "safeParseJson s =
     (if trim s = [] then JObj [] else (case json_parse s of None \<Rightarrow> JObj [] | Some v \<Rightarrow> v))"

definition ruleOf :: "js_string \<Rightarrow> js_string \<Rightarrow> js_string \<times> json \<Rightarrow> rule" where
  "ruleOf i userGroup entry =
     (let (op, groupName) = parsePrefix (fst entry) in
      \<lparr>rule_id = i, rule_userGroup = userGroup, rule_op = op, rule_targetGroup = groupName,
       rule_description = (if op = OpRemove then js ''remove'' else str_of (Some (snd entry)))\<rparr>)"

text \<open>The pairs of the two loops, then the rules with their ids; \<open>None\<close> is the \<open>TypeError\<close> of
  \<open>Object.entries(null)\<close>.\<close>

definition innerEntries :: "js_string \<times> json \<Rightarrow> (js_string \<times> js_string \<times> json) list" where
  "innerEntries p =
     (if is_object (snd p) then map (Pair (fst p)) (case entries (snd p) of None \<Rightarrow> [] | Some es \<Rightarrow> es) else [])"

fun numberRules :: "nat \<Rightarrow> (js_string \<times> js_string \<times> json) list \<Rightarrow> rule list \<times> nat" where
  "numberRules counter [] = ([], counter)"
| "numberRules counter ((userGroup, entry) # es) =
     (let (i, counter1) = uid counter; (rules, counter2) = numberRules counter1 es in
      (ruleOf i userGroup entry # rules, counter2))"

definition flattenRules :: "nat \<Rightarrow> json \<Rightarrow> (rule list \<times> nat) option" where
  "flattenRules counter nested =
     map_option (\<lambda>es. numberRules counter (concat (map innerEntries es))) (entries nested)"

type_synonym nested_rules = "(js_string \<times> (js_string \<times> js_string) list) list"

definition nestRule :: "nested_rules \<Rightarrow> rule \<Rightarrow> nested_rules" where
  "nestRule result r =
     (if rule_userGroup r = [] \<or> rule_targetGroup r = [] then result
      else
        let inner = (case obj_get result (rule_userGroup r) of None \<Rightarrow> [] | Some i \<Rightarrow> i) in
        obj_put result (rule_userGroup r)
          (obj_put inner (toRawKey (rule_op r) (rule_targetGroup r)) (rule_description r)))"

definition nestRules :: "rule list \<Rightarrow> nested_rules" where
  "nestRules rules = foldl nestRule [] rules"

definition nested_json :: "nested_rules \<Rightarrow> json" where
  "nested_json n = JObj (map (\<lambda>(g, inner). (g, JObj (map (\<lambda>(k, d). (k, JStr d)) inner))) n)"

definition serializeRules :: "rule list \<Rightarrow> js_string" where
  "serializeRules rules =
     (let nested = nestRules rules in
      if nested = [] then js ''{}'' else json_pretty 0 (nested_json nested))"

section \<open>The editor\<close>

record rules_editor =
  re_value :: js_string
  re_rules :: "rule list"
  re_newGroupName :: js_string
  re_counter :: nat

definition openRules :: "nat \<Rightarrow> js_string \<Rightarrow> rules_editor option" where
  "openRules counter value =
     map_option (\<lambda>(rs, n). \<lparr>re_value = value, re_rules = rs, re_newGroupName = [], re_counter = n\<rparr>)
       (flattenRules counter (safeParseJson value))"

definition emitChange :: "rule list \<Rightarrow> rules_editor \<Rightarrow> rules_editor" where
  "emitChange newRules ed = ed\<lparr>re_rules := newRules, re_value := serializeRules newRules\<rparr>"

datatype rule_update = SetOp op_type | SetTarget js_string | SetDescription js_string

definition update_rule :: "rule_update \<Rightarrow> rule \<Rightarrow> rule" where
  "update_rule u r =
     (case u of
        SetOp op \<Rightarrow>
          let updated = r\<lparr>rule_op := op\<rparr> in
          if op = OpRemove then updated\<lparr>rule_description := js ''remove''\<rparr>
          else if rule_op r = OpRemove \<and> rule_description updated = js ''remove''
          then updated\<lparr>rule_description := []\<rparr> else updated
      | SetTarget t \<Rightarrow> r\<lparr>rule_targetGroup := t\<rparr>
      | SetDescription d \<Rightarrow> r\<lparr>rule_description := d\<rparr>)"

definition updateRule :: "js_string \<Rightarrow> rule_update \<Rightarrow> rules_editor \<Rightarrow> rules_editor" where
  "updateRule i u ed = emitChange (map (\<lambda>r. if rule_id r \<noteq> i then r else update_rule u r) (re_rules ed)) ed"

definition removeRule :: "js_string \<Rightarrow> rules_editor \<Rightarrow> rules_editor" where
  "removeRule i ed = emitChange (filter (\<lambda>r. rule_id r \<noteq> i) (re_rules ed)) ed"

definition removeGroup :: "js_string \<Rightarrow> rules_editor \<Rightarrow> rules_editor" where
  "removeGroup groupName ed = emitChange (filter (\<lambda>r. rule_userGroup r \<noteq> groupName) (re_rules ed)) ed"

definition addRuleToGroup :: "js_string \<Rightarrow> rules_editor \<Rightarrow> rules_editor" where
  "addRuleToGroup groupName ed =
     (let (i, n) = uid (re_counter ed) in
      emitChange
        (re_rules ed @ [\<lparr>rule_id = i, rule_userGroup = groupName, rule_op = OpAppend, rule_targetGroup = [],
           rule_description = []\<rparr>])
        (ed\<lparr>re_counter := n\<rparr>))"

definition addNewGroup :: "rules_editor \<Rightarrow> rules_editor" where
  "addNewGroup ed =
     (let name = trim (re_newGroupName ed) in
      if name = [] then ed else (addRuleToGroup name ed)\<lparr>re_newGroupName := []\<rparr>)"

definition groupRule :: "(js_string \<times> rule list) list \<Rightarrow> rule \<Rightarrow> (js_string \<times> rule list) list" where
  "groupRule acc r =
     (if rule_userGroup r = [] then acc
      else obj_set acc (rule_userGroup r)
        ((case obj_get acc (rule_userGroup r) of None \<Rightarrow> [] | Some rs \<Rightarrow> rs) @ [r]))"

definition grouped :: "rule list \<Rightarrow> (js_string \<times> rule list) list" where
  "grouped rules = foldl groupRule [] rules"

text \<open>What the page does with the editor; the description of a rule that removes is not shown as an input.\<close>

inductive rules_step :: "rules_editor \<Rightarrow> rules_editor \<Rightarrow> bool" where
  set_op: "rules_step ed (updateRule i (SetOp op) ed)"
| set_target: "str_ok t \<Longrightarrow> rules_step ed (updateRule i (SetTarget t) ed)"
| set_description: "str_ok d \<Longrightarrow> \<forall>r\<in>set (re_rules ed). rule_id r = i \<longrightarrow> rule_op r \<noteq> OpRemove \<Longrightarrow>
    rules_step ed (updateRule i (SetDescription d) ed)"
| remove_rule: "rules_step ed (removeRule i ed)"
| remove_group: "rules_step ed (removeGroup g ed)"
| add_rule: "str_ok g \<Longrightarrow> rules_step ed (addRuleToGroup g ed)"
| type_name: "str_ok s \<Longrightarrow> rules_step ed (ed\<lparr>re_newGroupName := s\<rparr>)"
| add_group: "rules_step ed (addNewGroup ed)"

inductive_cases rules_stepE: "rules_step ed ed'"

end
