(* ===== verification/SpecialRulesProps.thy ===== *)
theory SpecialRulesProps
  imports SpecialRules
begin

text \<open>
  The editor of the special usable groups: rules that remove keep their marker, the text of the form always is the
  one of the rules, and a list of complete rules without repetition is read back from it.
\<close>

section \<open>Nesting\<close>

type_synonym rule_content = "js_string \<times> op_type \<times> js_string \<times> js_string"

definition rule_content :: "rule \<Rightarrow> rule_content" where
  "rule_content r = (rule_userGroup r, rule_op r, rule_targetGroup r, rule_description r)"

abbreviation rule_key :: "rule \<Rightarrow> js_string \<times> js_string" where
  "rule_key r \<equiv> (rule_userGroup r, toRawKey (rule_op r) (rule_targetGroup r))"

abbreviation incomplete :: "rule \<Rightarrow> bool" where
  "incomplete r \<equiv> rule_userGroup r = [] \<or> rule_targetGroup r = []"

definition look :: "nested_rules \<Rightarrow> js_string \<times> js_string \<rightharpoonup> js_string" where
  "look n p = (case obj_get n (fst p) of None \<Rightarrow> None | Some inner \<Rightarrow> obj_get inner (snd p))"

definition inner_wf :: "(js_string \<times> js_string) list \<Rightarrow> bool" where
  "inner_wf i \<longleftrightarrow> distinct (map fst i) \<and> own_order i = i \<and> (\<forall>p\<in>set i. str_ok (fst p) \<and> str_ok (snd p))"

definition nested_wf :: "nested_rules \<Rightarrow> bool" where
  "nested_wf n \<longleftrightarrow>
     distinct (map fst n) \<and> own_order n = n \<and> (\<forall>p\<in>set n. str_ok (fst p) \<and> inner_wf (snd p))"

definition inner_of :: "nested_rules \<Rightarrow> js_string \<Rightarrow> (js_string \<times> js_string) list" where
  "inner_of n g = (case obj_get n g of None \<Rightarrow> [] | Some i \<Rightarrow> i)"

lemma own_order_put [simp]: "own_order (obj_put ps k v) = obj_put ps k v"
  by (simp add: obj_put_def)

definition rule_strings :: "rule \<Rightarrow> bool" where
  "rule_strings r \<longleftrightarrow> str_ok (rule_userGroup r) \<and> str_ok (rule_targetGroup r) \<and> str_ok (rule_description r)"

lemma str_ok_rawKey: "str_ok t \<Longrightarrow> str_ok (toRawKey op t)"
  by (cases op) (simp_all add: toRawKey_def)

lemma inner_wf_put: "inner_wf i \<Longrightarrow> str_ok k \<Longrightarrow> str_ok d \<Longrightarrow> inner_wf (obj_put i k d)"
  using set_obj_put [of i k d] by (auto simp: inner_wf_def distinct_obj_put)

lemma nested_wf_put: "nested_wf n \<Longrightarrow> str_ok g \<Longrightarrow> inner_wf i \<Longrightarrow> nested_wf (obj_put n g i)"
  using set_obj_put [of n g i] by (auto simp: nested_wf_def distinct_obj_put)

lemma inner_wf_of: "nested_wf n \<Longrightarrow> inner_wf (inner_of n g)"
proof (cases "obj_get n g")
  case None
  then show ?thesis by (simp add: inner_of_def inner_wf_def)
next
  case (Some i)
  assume "nested_wf n"
  then have "inner_wf (snd (g, i))" using obj_get_mem [OF Some] unfolding nested_wf_def by blast
  then show ?thesis by (simp add: inner_of_def Some)
qed

lemma nestRule_put:
  "nestRule n r =
     (if incomplete r then n
      else obj_put n (rule_userGroup r)
        (obj_put (inner_of n (rule_userGroup r)) (toRawKey (rule_op r) (rule_targetGroup r)) (rule_description r)))"
  by (simp add: nestRule_def Let_def inner_of_def)

lemma nestRule_wf: "nested_wf n \<Longrightarrow> rule_strings r \<Longrightarrow> nested_wf (nestRule n r)"
  by (simp add: nestRule_put nested_wf_put inner_wf_put inner_wf_of str_ok_rawKey rule_strings_def)

lemma look_nestRule:
  assumes "nested_wf n"
  shows "look (nestRule n r) = (if incomplete r then look n else (look n)(rule_key r \<mapsto> rule_description r))"
proof -
  have "distinct (map fst n)" using assms by (simp add: nested_wf_def)
  moreover have "distinct (map fst (inner_of n (rule_userGroup r)))"
    using inner_wf_of [OF assms, of "rule_userGroup r"] by (simp add: inner_wf_def)
  ultimately show ?thesis
    by (intro ext) (auto simp: look_def nestRule_put obj_get_put inner_of_def split: option.split)
qed

lemma nestRules_wf: "nested_wf n \<Longrightarrow> list_all rule_strings rs \<Longrightarrow> nested_wf (foldl nestRule n rs)"
  by (induction rs arbitrary: n) (simp_all add: nestRule_wf)

lemma look_foldl:
  "nested_wf n \<Longrightarrow> list_all rule_strings rs \<Longrightarrow>
   look (foldl nestRule n rs) =
     foldl (\<lambda>m r. if incomplete r then m else m(rule_key r \<mapsto> rule_description r)) (look n) rs"
  by (induction rs arbitrary: n) (simp_all add: nestRule_wf look_nestRule)

lemma nested_wf_Nil [simp]: "nested_wf []"
  by (simp add: nested_wf_def)

lemma json_ok_inner: "inner_wf i \<Longrightarrow> json_ok (JObj (map (\<lambda>p. (fst p, JStr (snd p))) i))"
  using own_order_map [of "\<lambda>p. JStr (snd p)" i] by (auto simp: inner_wf_def list_all_iff o_def)

lemma nested_json_map:
  "nested_json n = JObj (map (\<lambda>p. (fst p, JObj (map (\<lambda>p. (fst p, JStr (snd p))) (snd p)))) n)"
  by (simp add: nested_json_def case_prod_beta)

lemma json_ok_nested: "nested_wf n \<Longrightarrow> json_ok (nested_json n)"
  using own_order_map [of "\<lambda>p. JObj (map (\<lambda>p. (fst p, JStr (snd p))) (snd p))" n] json_ok_inner
  by (auto simp: nested_json_map nested_wf_def list_all_iff o_def simp del: json_ok.simps)
    (auto simp: list_all_iff o_def)

section \<open>Reading a nested record\<close>

definition nested_entries :: "nested_rules \<Rightarrow> (js_string \<times> js_string \<times> json) list" where
  "nested_entries n = concat (map (\<lambda>(g, inner). map (\<lambda>(k, d). (g, k, JStr d)) inner) n)"

lemma nested_entries_json:
  "map_option (\<lambda>es. concat (map innerEntries es)) (entries (nested_json n)) = Some (nested_entries n)"
proof -
  have "concat (map innerEntries (map (\<lambda>(g, inner). (g, JObj (map (\<lambda>(k, d). (k, JStr d)) inner))) n)) =
      nested_entries n"
    unfolding nested_entries_def map_map
    by (intro arg_cong [where f = concat] map_cong refl)
      (auto simp: innerEntries_def is_object_def entries_def)
  then show ?thesis by (simp add: nested_json_def entries_def)
qed

lemma set_nested_entries:
  assumes "nested_wf n"
  shows "(g, k, v) \<in> set (nested_entries n) \<longleftrightarrow> (\<exists>d. look n (g, k) = Some d \<and> v = JStr d)"
proof -
  have inner: "obj_get i k = Some d \<longleftrightarrow> (k, d) \<in> set i" if "(g, i) \<in> set n" for i d
    using assms that by (auto simp: nested_wf_def inner_wf_def obj_get_map_of)
  have outer: "obj_get n g = Some i \<longleftrightarrow> (g, i) \<in> set n" for i
    using assms by (auto simp: nested_wf_def obj_get_map_of)
  have "(g, k, v) \<in> set (nested_entries n) \<longleftrightarrow> (\<exists>i d. (g, i) \<in> set n \<and> (k, d) \<in> set i \<and> v = JStr d)"
    by (force simp: nested_entries_def)
  also have "\<dots> \<longleftrightarrow> (\<exists>i d. obj_get n g = Some i \<and> obj_get i k = Some d \<and> v = JStr d)"
    using inner outer by blast
  also have "\<dots> \<longleftrightarrow> (\<exists>d. look n (g, k) = Some d \<and> v = JStr d)"
    by (cases "obj_get n g") (simp_all add: look_def)
  finally show ?thesis .
qed

lemma distinct_nested_entries:
  assumes "nested_wf n"
  shows "distinct (map (\<lambda>(g, k, v). (g, k)) (nested_entries n))"
proof -
  have keys: "map (\<lambda>(g, k, v). (g, k)) (nested_entries n) =
      concat (map (\<lambda>p. map (Pair (fst p)) (map fst (snd p))) n)" for n
    by (induction n) (auto simp: nested_entries_def)
  have "distinct (concat (map (\<lambda>p. map (Pair (fst p)) (map fst (snd p))) n))"
    if "distinct (map fst n)" "\<forall>p\<in>set n. distinct (map fst (snd p))" for n :: nested_rules
    using that
  proof (induction n)
    case (Cons p n)
    then show ?case by (auto simp: distinct_map inj_on_def)
  qed simp
  then show ?thesis using assms by (simp add: keys nested_wf_def inner_wf_def)
qed

lemma numberRules_content:
  "map rule_content (fst (numberRules c es)) = map (\<lambda>(g, e). rule_content (ruleOf [] g e)) es"
proof (induction es arbitrary: c)
  case (Cons x es)
  then show ?case
    by (cases x) (simp add: uid_def Let_def case_prod_beta rule_content_def ruleOf_def)
qed simp

lemma serializeRules_pretty: "serializeRules rs = json_pretty 0 (nested_json (nestRules rs))"
  by (simp add: serializeRules_def Let_def nested_json_def js_def)

lemma safeParseJson_pretty: "json_ok v \<Longrightarrow> safeParseJson (json_pretty 0 v) = v"
  by (simp add: safeParseJson_def pretty_trimmed pretty_ne json_parse_pretty)

lemma reload_entries:
  assumes "list_all rule_strings rs"
  shows "flattenRules c (safeParseJson (serializeRules rs)) = Some (numberRules c (nested_entries (nestRules rs)))"
proof -
  have "nested_wf (nestRules rs)" unfolding nestRules_def by (rule nestRules_wf [OF nested_wf_Nil assms])
  then have "safeParseJson (serializeRules rs) = nested_json (nestRules rs)"
    unfolding serializeRules_pretty by (intro safeParseJson_pretty json_ok_nested)
  then show ?thesis
    using nested_entries_json [of "nestRules rs"] by (auto simp: flattenRules_def)
qed

text \<open>A rule that is read back as it was: complete, marked if it removes, and its key is not taken for another
  operation.\<close>

definition rule_stable :: "rule \<Rightarrow> bool" where
  "rule_stable r \<longleftrightarrow>
     \<not> incomplete r \<and> (rule_op r = OpRemove \<longrightarrow> rule_description r = js ''remove'')
     \<and> (rule_op r = OpAppend \<longrightarrow> parsePrefix (rule_targetGroup r) = (OpAppend, rule_targetGroup r))"

lemma ruleOf_stable:
  assumes "rule_stable r"
  shows "rule_content (ruleOf i (rule_userGroup r)
      (toRawKey (rule_op r) (rule_targetGroup r), JStr (rule_description r))) = rule_content r"
  using assms
  by (cases "rule_op r")
    (auto simp: rule_content_def ruleOf_def rule_stable_def toRawKey_def parsePrefix_def js_def str_of_def Let_def)

lemma stable_reload:
  assumes "list_all rule_strings rs" and "list_all rule_stable rs" and "distinct (map rule_key rs)"
  shows "\<exists>rs' n. flattenRules c (safeParseJson (serializeRules rs)) = Some (rs', n)
    \<and> rule_content ` set rs' = rule_content ` set rs \<and> length rs' = length rs"
proof -
  let ?n = "nestRules rs"
  have wf: "nested_wf ?n" unfolding nestRules_def by (rule nestRules_wf [OF nested_wf_Nil assms(1)])
  have look: "look ?n = foldl (\<lambda>m r. if incomplete r then m else m(rule_key r \<mapsto> rule_description r)) Map.empty rs"
    using look_foldl [OF nested_wf_Nil assms(1)] by (simp add: nestRules_def look_def [abs_def])
  have val: "look ?n (rule_key r) = Some (rule_description r)" if "r \<in> set rs" for r
    using foldl_upd_distinct [OF assms(3) that, of incomplete rule_description Map.empty] that assms(2)
    by (auto simp: look list_all_iff rule_stable_def)
  have "{r \<in> set rs. \<not> incomplete r} = set rs" using assms(2) by (auto simp: list_all_iff rule_stable_def)
  then have dom: "dom (look ?n) = rule_key ` set rs" unfolding look foldl_upd_dom by simp
  let ?es = "nested_entries ?n" and ?rs = "fst (numberRules c (nested_entries ?n))"
  have es: "set ?es = (\<lambda>r. (rule_userGroup r, toRawKey (rule_op r) (rule_targetGroup r), JStr (rule_description r))) ` set rs"
  proof (intro set_eqI)
    fix x :: "js_string \<times> js_string \<times> json"
    obtain g k v where x: "x = (g, k, v)" by (cases x) auto
    have "(\<exists>d. look ?n (g, k) = Some d \<and> v = JStr d) \<longleftrightarrow>
        (\<exists>r\<in>set rs. (g, k) = rule_key r \<and> v = JStr (rule_description r))"
    proof
      assume "\<exists>d. look ?n (g, k) = Some d \<and> v = JStr d"
      then obtain d where d: "look ?n (g, k) = Some d" "v = JStr d" by blast
      then have "(g, k) \<in> rule_key ` set rs" using dom by blast
      then obtain r where "r \<in> set rs" "(g, k) = rule_key r" by blast
      with d val [of r] show "\<exists>r\<in>set rs. (g, k) = rule_key r \<and> v = JStr (rule_description r)" by auto
    qed (use val in auto)
    then show "x \<in> set ?es \<longleftrightarrow> x \<in> (\<lambda>r. (rule_userGroup r, toRawKey (rule_op r) (rule_targetGroup r),
        JStr (rule_description r))) ` set rs"
      unfolding x set_nested_entries [OF wf] by auto
  qed
  have "rule_content ` set ?rs = (\<lambda>(g, e). rule_content (ruleOf [] g e)) ` set ?es"
    using arg_cong [OF numberRules_content [of c ?es], of set] by simp
  then have "rule_content ` set ?rs = (\<lambda>r. rule_content (ruleOf [] (rule_userGroup r)
      (toRawKey (rule_op r) (rule_targetGroup r), JStr (rule_description r)))) ` set rs"
    by (simp add: es image_image)
  also have "\<dots> = rule_content ` set rs"
    using assms(2) by (intro image_cong refl ruleOf_stable) (simp add: list_all_iff)
  finally have "rule_content ` set ?rs = rule_content ` set rs" .
  moreover have "length ?rs = length rs"
  proof -
    have "length ?rs = length ?es" using arg_cong [OF numberRules_content [of c ?es], of length] by simp
    also have "\<dots> = card ((\<lambda>(g, k, v). (g, k)) ` set ?es)"
      using distinct_card [OF distinct_nested_entries [OF wf]] by simp
    also have "(\<lambda>(g, k, v). (g, k)) ` set ?es = rule_key ` set rs"
      unfolding es by (simp add: image_image)
    also have "card \<dots> = length rs" using distinct_card [OF assms(3)] by simp
    finally show ?thesis .
  qed
  ultimately show ?thesis
    using reload_entries [OF assms(1), of c] by (intro exI [of _ ?rs] exI [of _ "snd (numberRules c ?es)"]) simp
qed

section \<open>Reachable states\<close>

lemma str_ok_nth: "str_ok t \<Longrightarrow> i < length t \<Longrightarrow> t ! i < 65536"
  by (simp add: str_ok_def)

lemma entries_ok: "json_ok v \<Longrightarrow> entries v = Some es \<Longrightarrow> p \<in> set es \<Longrightarrow> str_ok (fst p) \<and> json_ok (snd p)"
  by (cases v) (auto simp: entries_def list_all_iff str_ok_nth)

lemma flatten_strings:
  assumes "json_ok v" and "flattenRules c v = Some (rs, n)"
  shows "list_all (\<lambda>r. rule_strings r \<and> (rule_op r = OpRemove \<longrightarrow> rule_description r = js ''remove'')) rs"
proof -
  have rule: "rule_strings (ruleOf i g e) \<and> (rule_op (ruleOf i g e) = OpRemove \<longrightarrow> rule_description (ruleOf i g e) = js ''remove'')"
    if "str_ok g" "str_ok (fst e)" "json_ok (snd e)" for i g e
    using that by (cases "snd e") (auto simp: ruleOf_def parsePrefix_def rule_strings_def str_of_def Let_def)
  have num: "\<forall>(g, e)\<in>set es. str_ok g \<and> str_ok (fst e) \<and> json_ok (snd e) \<Longrightarrow>
      list_all (\<lambda>r. rule_strings r \<and> (rule_op r = OpRemove \<longrightarrow> rule_description r = js ''remove'')) (fst (numberRules c es))"
    for es c
    by (induction es arbitrary: c) (auto simp: uid_def Let_def case_prod_beta rule)
  obtain es where es: "entries v = Some es" "numberRules c (concat (map innerEntries es)) = (rs, n)"
    using assms(2) by (auto simp: flattenRules_def)
  have "\<forall>(g, e)\<in>set (concat (map innerEntries es)). str_ok g \<and> str_ok (fst e) \<and> json_ok (snd e)"
  proof clarsimp
    fix g v' g' k w
    assume m: "(g, v') \<in> set es" and i: "(g', k, w) \<in> set (innerEntries (g, v'))"
    have v': "str_ok g" "json_ok v'" using entries_ok [OF assms(1) es(1) m] by simp_all
    obtain qs where "entries v' = Some qs" "g' = g" "(k, w) \<in> set qs"
      using i by (cases "entries v'") (auto simp: innerEntries_def split: if_splits)
    then show "str_ok g' \<and> str_ok k \<and> json_ok w" using entries_ok [OF v'(2)] v'(1) by fastforce
  qed
  from num [OF this, of c] show ?thesis unfolding es(2) by simp
qed

definition rules_inv :: "js_string \<Rightarrow> rules_editor \<Rightarrow> rules_editor \<Rightarrow> bool" where
  "rules_inv value ed0 ed \<longleftrightarrow>
     list_all (\<lambda>r. rule_strings r \<and> (rule_op r = OpRemove \<longrightarrow> rule_description r = js ''remove'')) (re_rules ed)
     \<and> str_ok (re_newGroupName ed)
     \<and> (re_value ed = value \<and> re_rules ed = re_rules ed0 \<or> re_value ed = serializeRules (re_rules ed))"

lemma rules_inv_step:
  assumes "rules_inv value ed0 ed" and "rules_step ed ed'"
  shows "rules_inv value ed0 ed'"
  using assms(2,1)
proof cases
  case (set_op i op)
  then show ?thesis
    using assms(1)
    by (auto simp: rules_inv_def updateRule_def emitChange_def update_rule_def rule_strings_def list_all_iff Let_def)
next
  case (add_rule g)
  then show ?thesis
    using assms(1) by (auto simp: rules_inv_def addRuleToGroup_def uid_def emitChange_def rule_strings_def list_all_iff)
next
  case add_group
  then show ?thesis
    using assms(1)
    by (auto simp: rules_inv_def addNewGroup_def addRuleToGroup_def uid_def emitChange_def rule_strings_def list_all_iff
        Let_def str_ok_trim)
qed (auto simp: rules_inv_def updateRule_def removeRule_def removeGroup_def emitChange_def update_rule_def
    rule_strings_def list_all_iff)

lemma rules_inv_open:
  assumes "str_ok value" and "openRules c value = Some ed"
  shows "rules_inv value ed ed"
proof -
  have "json_ok (safeParseJson value)"
    using assms(1) json_parse_ok by (auto simp: safeParseJson_def split: option.split)
  then show ?thesis
    using assms(2) flatten_strings by (fastforce simp: openRules_def rules_inv_def)
qed

section \<open>Property\<close>


definition demo_open :: rules_editor where
  "demo_open = \<lparr>re_value = [], re_rules = [], re_newGroupName = [], re_counter = 0\<rparr>"

definition demo_edited :: rules_editor where
  "demo_edited = updateRule (js ''gsu_1'') (SetTarget (js ''svip'')) (addRuleToGroup (js ''vip'') demo_open)"


end
