(* ===== verification/RatioSettings.thy ===== *)
theory RatioSettings
  imports GroupRatioProps
begin

text \<open>
  \<open>features/system-settings/models/utils.ts\<close> and \<open>ratio-settings-card.tsx\<close>: the two forms of the pricing ratios,
  their validation, how they are filled from the options of the server, and what saving sends. What
  the server answers is an input.
\<close>

section \<open>Texts of JSON\<close>

definition formatJsonForTextarea :: "js_string \<Rightarrow> js_string" where
  "formatJsonForTextarea value =
     (if trim value = [] then []
      else (case json_parse value of None \<Rightarrow> value | Some parsed \<Rightarrow> json_pretty 0 parsed))"

definition normalizeJsonString :: "js_string \<Rightarrow> js_string" where
  "normalizeJsonString value =
     (let trimmed = trim value in
      if trimmed = [] then []
      else (case json_parse trimmed of None \<Rightarrow> trimmed | Some parsed \<Rightarrow> json_stringify parsed))"

text \<open>The message of a syntax error is built from the one of the engine; it is a parameter.\<close>

definition validateJsonString ::
  "(js_string \<Rightarrow> js_string) \<Rightarrow> bool \<Rightarrow> (json \<Rightarrow> bool) option \<Rightarrow> js_string option \<Rightarrow> js_string \<Rightarrow> bool \<times> js_string option" where
  "validateJsonString formatErrorMessage allowEmpty predicate predicateMessage value =
     (let trimmed = trim value in
      if trimmed = [] then (allowEmpty, if allowEmpty then None else Some (js ''Value is required''))
      else
        (case json_parse trimmed of
           None \<Rightarrow> (False, Some (formatErrorMessage trimmed))
         | Some parsed \<Rightarrow>
             if (case predicate of None \<Rightarrow> False | Some p \<Rightarrow> \<not> p parsed)
             then (False, Some (if opt_str predicateMessage = [] then js ''JSON structure is invalid''
                                else opt_str predicateMessage))
             else (True, None)))"

section \<open>Forms\<close>

datatype field_value = Text js_string | Flag bool

type_synonym form_values = "(js_string \<times> field_value) list"

definition MODEL_FIELDS :: "js_string list" where
  "MODEL_FIELDS =
     [js ''ModelPrice'', js ''ModelRatio'', js ''CacheRatio'', js ''CreateCacheRatio'', js ''CompletionRatio'',
      js ''ImageRatio'', js ''AudioRatio'', js ''AudioCompletionRatio'', js ''ExposeRatioEnabled'',
      js ''BillingMode'', js ''BillingExpr'']"

definition GROUP_FIELDS :: "js_string list" where
  "GROUP_FIELDS =
     [js ''GroupRatio'', js ''TopupGroupRatio'', js ''UserUsableGroups'', js ''GroupGroupRatio'',
      js ''AutoGroups'', js ''DefaultUseAutoGroup'', js ''GroupSpecialUsableGroup'']"

definition validText :: "(json \<Rightarrow> bool) option \<Rightarrow> form_values \<Rightarrow> js_string \<Rightarrow> bool" where
  "validText predicate vs k =
     (case obj_get vs k of Some (Text s) \<Rightarrow> fst (validateJsonString id True predicate None s) | _ \<Rightarrow> False)"

definition validFlag :: "form_values \<Rightarrow> js_string \<Rightarrow> bool" where
  "validFlag vs k = (case obj_get vs k of Some (Flag b) \<Rightarrow> True | _ \<Rightarrow> False)"

definition modelSchema :: "form_values \<Rightarrow> bool" where
  "modelSchema vs =
     (validText None vs (js ''ModelPrice'') \<and> validText None vs (js ''ModelRatio'')
      \<and> validText None vs (js ''CacheRatio'') \<and> validText None vs (js ''CreateCacheRatio'')
      \<and> validText None vs (js ''CompletionRatio'') \<and> validText None vs (js ''ImageRatio'')
      \<and> validText None vs (js ''AudioRatio'') \<and> validText None vs (js ''AudioCompletionRatio'')
      \<and> validFlag vs (js ''ExposeRatioEnabled'') \<and> validText None vs (js ''BillingMode'')
      \<and> validText None vs (js ''BillingExpr''))"

definition groupSchema :: "form_values \<Rightarrow> bool" where
  "groupSchema vs =
     (validText None vs (js ''GroupRatio'') \<and> validText None vs (js ''TopupGroupRatio'')
      \<and> validText None vs (js ''UserUsableGroups'') \<and> validText None vs (js ''GroupGroupRatio'')
      \<and> validText (Some isStringArray) vs (js ''AutoGroups'') \<and> validFlag vs (js ''DefaultUseAutoGroup'')
      \<and> validText None vs (js ''GroupSpecialUsableGroup''))"

text \<open>The values the forms are reset to, and the normalized values that are compared and sent.\<close>

definition map_texts :: "(js_string \<Rightarrow> js_string) \<Rightarrow> form_values \<Rightarrow> form_values" where
  "map_texts f vs = map (\<lambda>(k, v). (k, case v of Text s \<Rightarrow> Text (f s) | Flag b \<Rightarrow> Flag b)) vs"

definition formDefaults :: "form_values \<Rightarrow> form_values" where
  "formDefaults defaults = map_texts formatJsonForTextarea defaults"

definition normalizedValues :: "form_values \<Rightarrow> form_values" where
  "normalizedValues vs = map_texts normalizeJsonString vs"

definition modelApiKey :: "js_string \<Rightarrow> js_string" where
  "modelApiKey key =
     (if key = js ''BillingMode'' then js ''billing_setting.billing_mode''
      else if key = js ''BillingExpr'' then js ''billing_setting.billing_expr'' else key)"

definition groupApiKey :: "js_string \<Rightarrow> js_string" where
  "groupApiKey key =
     (if key = js ''GroupSpecialUsableGroup'' then js ''group_ratio_setting.group_special_usable_group'' else key)"

definition changedFields :: "form_values \<Rightarrow> form_values \<Rightarrow> form_values" where
  "changedFields normalized defaults = filter (\<lambda>p. obj_get defaults (fst p) \<noteq> Some (snd p)) normalized"

text \<open>The options are sent one after the other. The server stores an option or refuses it in its response; a
  request that fails ends the save.\<close>

datatype outcome = Stored | Refused | Failed

type_synonym server = "js_string \<times> field_value \<Rightarrow> outcome"

fun sendUpdates :: "server \<Rightarrow> form_values \<Rightarrow> form_values" where
  "sendUpdates server [] = []"
| "sendUpdates server (u # us) = u # (if server u = Failed then [] else sendUpdates server us)"

record ratio_card =
  modelForm :: form_values
  groupForm :: form_values
  modelNormalizedDefaults :: form_values
  groupNormalizedDefaults :: form_values

definition openCard :: "form_values \<Rightarrow> form_values \<Rightarrow> ratio_card" where
  "openCard modelDefaults groupDefaults =
     \<lparr>modelForm = formDefaults modelDefaults, groupForm = formDefaults groupDefaults,
      modelNormalizedDefaults = normalizedValues modelDefaults,
      groupNormalizedDefaults = normalizedValues groupDefaults\<rparr>"

text \<open>The effects for new defaults.\<close>

definition resetModel :: "form_values \<Rightarrow> ratio_card \<Rightarrow> ratio_card" where
  "resetModel modelDefaults rc =
     rc\<lparr>modelNormalizedDefaults := normalizedValues modelDefaults, modelForm := formDefaults modelDefaults\<rparr>"

definition resetGroup :: "form_values \<Rightarrow> ratio_card \<Rightarrow> ratio_card" where
  "resetGroup groupDefaults rc =
     rc\<lparr>groupNormalizedDefaults := normalizedValues groupDefaults, groupForm := formDefaults groupDefaults\<rparr>"

definition saveModelRatios ::
  "server \<Rightarrow> form_values \<Rightarrow> ratio_card \<Rightarrow> form_values" where
  "saveModelRatios server values rc =
     sendUpdates server
       (map (apfst modelApiKey) (changedFields (normalizedValues values) (modelNormalizedDefaults rc)))"

definition saveGroupRatios ::
  "server \<Rightarrow> form_values \<Rightarrow> ratio_card \<Rightarrow> form_values" where
  "saveGroupRatios server values rc =
     sendUpdates server
       (map (apfst groupApiKey) (changedFields (normalizedValues values) (groupNormalizedDefaults rc)))"

text \<open>The defaults of the forms are options of the server, \<open>billing/section-registry.tsx\<close>.\<close>

definition optionsOf :: "(js_string \<Rightarrow> js_string) \<Rightarrow> js_string list \<Rightarrow> form_values \<Rightarrow> form_values" where
  "optionsOf apiKey fs settings =
     List.map_filter (\<lambda>k. map_option (Pair k) (obj_get settings (apiKey k))) fs"

definition getModelDefaults :: "form_values \<Rightarrow> form_values" where
  "getModelDefaults settings = optionsOf modelApiKey MODEL_FIELDS settings"

definition getGroupDefaults :: "form_values \<Rightarrow> form_values" where
  "getGroupDefaults settings =
     optionsOf groupApiKey
       [js ''TopupGroupRatio'', js ''GroupRatio'', js ''UserUsableGroups'', js ''GroupGroupRatio'', js ''AutoGroups'',
        js ''DefaultUseAutoGroup'', js ''GroupSpecialUsableGroup''] settings"

text \<open>\<open>form.handleSubmit\<close>: a form the schema rejects is not saved.\<close>

definition submitModel :: "server \<Rightarrow> ratio_card \<Rightarrow> form_values" where
  "submitModel server rc = (if modelSchema (modelForm rc) then saveModelRatios server (modelForm rc) rc else [])"

definition submitGroup :: "server \<Rightarrow> ratio_card \<Rightarrow> form_values" where
  "submitGroup server rc = (if groupSchema (groupForm rc) then saveGroupRatios server (groupForm rc) rc else [])"

text \<open>\<open>form.setValue\<close>, as the editors call it.\<close>

definition handleFieldChange :: "js_string \<Rightarrow> js_string \<Rightarrow> ratio_card \<Rightarrow> ratio_card" where
  "handleFieldChange field value rc = rc\<lparr>groupForm := obj_set (groupForm rc) field (Text value)\<rparr>"

end
