(* ===== verification/RatioSettingsProps.thy ===== *)
theory RatioSettingsProps
  imports RatioSettings
begin

text \<open>
  Saving the pricing ratios sends exactly the options whose value changed, and after a save that the server stores
  the page has nothing left to save.
\<close>

section \<open>Normal forms of texts\<close>

lemma json_stringify_trimmed: "trim (json_stringify v) = json_stringify v"
proof (rule trim_id)
  show "trimmed (json_stringify v)"
  proof (cases v)
    case (JNum x)
    then show ?thesis using num_to_string_ws [of _ x] hd_num_to_string [of x] by (simp add: trimmed_def)
  qed (auto simp: trimmed_def js_def is_ws_def json_quote_def)
qed

lemma json_stringify_ne: "json_stringify v \<noteq> []"
  using stringify_head [of v] by auto

lemma normalize_value:
  "str_ok s \<Longrightarrow> json_parse (trim s) = Some v \<Longrightarrow> json_ok v \<and> normalizeJsonString s = json_stringify v"
  using json_parse_ok [OF _ str_ok_trim] json_parse_blank [of "trim s"]
  by (auto simp: normalizeJsonString_def Let_def)

lemma normalize_other: "json_parse (trim s) = None \<Longrightarrow> normalizeJsonString s = trim s"
  by (simp add: normalizeJsonString_def Let_def)

lemma normalize_trimmed: "trim (normalizeJsonString s) = normalizeJsonString s"
  by (cases "json_parse (trim s)") (auto simp: normalizeJsonString_def Let_def json_stringify_trimmed trim_id trim_Nil)

lemma normalize_ok: "str_ok s \<Longrightarrow> str_ok (normalizeJsonString s)"
  using normalize_value [of s] normalize_other [of s]
  by (cases "json_parse (trim s)") (auto simp: json_stringify_ok str_ok_trim)

lemma normalize_idem:
  assumes "str_ok s"
  shows "normalizeJsonString (normalizeJsonString s) = normalizeJsonString s"
proof (cases "json_parse (trim s)")
  case None
  then show ?thesis using normalize_other [of "trim s"] by (simp add: normalize_other trim_id)
next
  case (Some v)
  then have "normalizeJsonString s = json_stringify v" "json_ok v" using normalize_value [OF assms] by auto
  then show ?thesis
    using json_parse_stringify [of v] by (simp add: normalizeJsonString_def json_stringify_trimmed json_stringify_ne)
qed

lemma normalize_format:
  assumes "str_ok s" and "trim s = s"
  shows "normalizeJsonString (formatJsonForTextarea s) = normalizeJsonString s"
proof (cases "json_parse s")
  case None
  then show ?thesis using assms(2) by (auto simp: formatJsonForTextarea_def)
next
  case (Some v)
  then have v: "json_ok v" "normalizeJsonString s = json_stringify v"
    using normalize_value [OF assms(1)] assms(2) by auto
  have "formatJsonForTextarea s = json_pretty 0 v"
    using Some json_parse_blank [of s] by (auto simp: formatJsonForTextarea_def)
  then show ?thesis
    using v json_parse_pretty [OF v(1)] by (simp add: normalizeJsonString_def pretty_trimmed pretty_ne)
qed

text \<open>Two valid texts have the same normal form exactly when they hold the same value.\<close>

definition valid_text :: "js_string \<Rightarrow> bool" where
  "valid_text s \<longleftrightarrow> trim s = [] \<or> json_parse (trim s) \<noteq> None"

lemma normalize_eq_iff:
  assumes "str_ok a" and "str_ok b" and "valid_text a" and "valid_text b"
  shows "normalizeJsonString a = normalizeJsonString b \<longleftrightarrow> json_parse (trim a) = json_parse (trim b)"
proof -
  have blank: "trim s = [] \<Longrightarrow> json_parse (trim s) = None \<and> normalizeJsonString s = []" for s
    using json_parse_blank [OF trim_Nil] by (simp add: normalizeJsonString_def)
  have some: "json_parse (trim s) = Some v \<Longrightarrow> str_ok s \<Longrightarrow> normalizeJsonString s = json_stringify v \<and> json_ok v" for s v
    using normalize_value by blast
  show ?thesis
  proof (cases "json_parse (trim a)")
    case None
    then have "trim a = []" using assms(3) by (simp add: valid_text_def)
    with None show ?thesis
      using blank [of a] blank [of b] some [of b] assms(2,4)
      by (cases "json_parse (trim b)") (auto simp: valid_text_def json_stringify_ne [symmetric])
  next
    case (Some v)
    note a = some [OF this assms(1)]
    show ?thesis
    proof (cases "json_parse (trim b)")
      case None
      then show ?thesis using Some a blank [of b] assms(4) json_stringify_ne by (auto simp: valid_text_def)
    next
      case b: (Some w)
      have "json_stringify v = json_stringify w \<longleftrightarrow> v = w"
        using a some [OF b assms(2)] json_parse_stringify by (metis option.inject)
      then show ?thesis using Some a b some [OF b assms(2)] by simp
    qed
  qed
qed

section \<open>Forms\<close>

definition field_ok :: "field_value \<Rightarrow> bool" where
  "field_ok v = (case v of Text s \<Rightarrow> str_ok s | Flag b \<Rightarrow> True)"

definition normal :: "field_value \<Rightarrow> field_value" where
  "normal v = (case v of Text s \<Rightarrow> Text (normalizeJsonString s) | Flag b \<Rightarrow> Flag b)"

lemma normal_idem: "field_ok v \<Longrightarrow> normal (normal v) = normal v"
  by (cases v) (simp_all add: normal_def field_ok_def normalize_idem)

lemma get_map_texts: "obj_get (map_texts f vs) k = map_option (\<lambda>v. case v of Text s \<Rightarrow> Text (f s) | Flag b \<Rightarrow> Flag b) (obj_get vs k)"
  by (induction vs) (auto simp: map_texts_def)

lemma get_normalized: "obj_get (normalizedValues vs) k = map_option normal (obj_get vs k)"
  by (simp add: normalizedValues_def get_map_texts normal_def [abs_def])

lemma fst_map_texts [simp]: "map fst (map_texts f vs) = map fst vs"
  by (auto simp: map_texts_def)

lemma get_optionsOf:
  "distinct fs \<Longrightarrow> obj_get (optionsOf apiKey fs settings) k =
     (if k \<in> set fs then obj_get settings (apiKey k) else None)"
proof (induction fs)
  case (Cons f fs)
  then show ?case
    by (cases "obj_get settings (apiKey f)") (auto simp: optionsOf_def map_filter_simps)
qed (simp add: optionsOf_def map_filter_simps)

lemma sendUpdates_all: "\<forall>u\<in>set us. server u \<noteq> Failed \<Longrightarrow> sendUpdates server us = us"
  by (induction us) auto

definition storeOptions :: "form_values \<Rightarrow> form_values \<Rightarrow> form_values" where
  "storeOptions settings updates = foldl (\<lambda>s (k, v). obj_set s k v) settings updates"

lemma get_store:
  "distinct (map fst us) \<Longrightarrow> obj_get (storeOptions settings us) k =
     (case obj_get us k of None \<Rightarrow> obj_get settings k | Some v \<Rightarrow> Some v)"
  unfolding storeOptions_def
proof (induction us arbitrary: settings)
  case (Cons u us)
  obtain k' v where u: "u = (k', v)" by force
  have "k' \<notin> fst ` set us" using Cons.prems u by auto
  then have "obj_get us k' = None" by (simp add: obj_get_eq_None_iff)
  then show ?case using Cons u by (auto split: option.splits)
qed simp

lemma get_changed:
  assumes "distinct (map fst ns)"
  shows "obj_get (changedFields ns ds) k =
    (if obj_get ds k = obj_get ns k then None else obj_get ns k)"
  using assms
proof (induction ns)
  case (Cons p ns)
  obtain k' v where p: "p = (k', v)" by force
  have "k' \<notin> fst ` set ns" using Cons.prems p by auto
  then have "obj_get ns k' = None" "obj_get (changedFields ns ds) k' = None"
    by (auto simp: obj_get_eq_None_iff changedFields_def)
  then show ?case using Cons p by (auto simp: changedFields_def)
qed (simp add: changedFields_def)

lemma distinct_changed: "distinct (map fst ns) \<Longrightarrow> distinct (map fst (changedFields ns ds))"
  by (simp add: changedFields_def distinct_map_filter)

lemma fst_changed: "fst ` set (changedFields (normalizedValues vs) ds) \<subseteq> set (map fst vs)"
  by (force simp: changedFields_def normalizedValues_def map_texts_def)

lemma get_renamed: "inj_on f (insert k (fst ` set ps)) \<Longrightarrow> obj_get (map (apfst f) ps) (f k) = obj_get ps k"
proof (induction ps)
  case (Cons p ps)
  have "inj_on f (insert k (fst ` set ps))" by (rule inj_on_subset [OF Cons.prems]) auto
  moreover have "f (fst p) = f k \<longleftrightarrow> fst p = k" using Cons.prems by (auto simp: inj_on_def)
  ultimately show ?case using Cons.IH by (cases p) auto
qed simp

text \<open>What a save leaves on the server, for the fields of a form and the keys of their options.\<close>

lemma stored_option:
  assumes api: "inj_on apiKey (set fs)" and vs: "map fst values = fs" "distinct fs" and key: "k \<in> set fs"
    and defs: "obj_get ds k = map_option normal (obj_get settings (apiKey k))"
  shows "obj_get (storeOptions settings (map (apfst apiKey) (changedFields (normalizedValues values) ds))) (apiKey k) =
    (if map_option normal (obj_get settings (apiKey k)) = map_option normal (obj_get values k)
     then obj_get settings (apiKey k) else map_option normal (obj_get values k))"
proof -
  let ?ns = "normalizedValues values" and ?us = "changedFields (normalizedValues values) ds"
  have d: "distinct (map fst ?ns)" using vs by (simp add: normalizedValues_def)
  have subs: "fst ` set ?us \<subseteq> set fs"
    using fst_changed [of "values" ds] vs(1) by simp
  have inj: "inj_on apiKey (insert k (fst ` set ?us))" by (rule inj_on_subset [OF api]) (use subs key in auto)
  have "map fst (map (apfst apiKey) ?us) = map apiKey (map fst ?us)" by simp
  moreover have "distinct (map apiKey (map fst ?us))"
    by (subst distinct_map) (simp add: distinct_changed [OF d] inj_on_subset [OF api subs])
  ultimately have "distinct (map fst (map (apfst apiKey) ?us))" by (simp only:)
  moreover obtain v where "obj_get values k = Some v"
    using key vs(1) obj_get_eq_None_iff [of "values" k] by (cases "obj_get values k") auto
  ultimately show ?thesis
    using defs get_store [of "map (apfst apiKey) ?us" settings "apiKey k"]
    by (auto simp: get_renamed [OF inj] get_changed [OF d] get_normalized split: option.split)
qed

definition option_ok :: "field_value \<Rightarrow> bool" where
  "option_ok v = (case v of Text s \<Rightarrow> str_ok s \<and> trim s = s | Flag b \<Rightarrow> True)"

lemma normal_format:
  "option_ok v \<Longrightarrow> normal (case v of Text s \<Rightarrow> Text (formatJsonForTextarea s) | Flag b \<Rightarrow> Flag b) = normal v"
  by (cases v) (simp_all add: option_ok_def normal_def normalize_format)

lemma option_ok_normal: "field_ok v \<Longrightarrow> option_ok (normal v)"
  by (cases v) (simp_all add: option_ok_def normal_def field_ok_def normalize_trimmed normalize_ok)

lemma nothing_changed:
  assumes "\<And>k v. (k, v) \<in> set ds \<Longrightarrow> option_ok v" and "distinct (map fst ds)"
  shows "changedFields (normalizedValues (formDefaults ds)) (normalizedValues ds) = []"
proof -
  have "obj_get (normalizedValues ds) k = Some v" if m: "(k, v) \<in> set (normalizedValues (formDefaults ds))" for k v
  proof -
    obtain w where w: "(k, w) \<in> set ds" "v = normal (case w of Text s \<Rightarrow> Text (formatJsonForTextarea s) | Flag b \<Rightarrow> Flag b)"
      using m by (auto simp: normalizedValues_def formDefaults_def map_texts_def normal_def)
    have "obj_get ds k = Some w" using w(1) assms(2) by (simp add: obj_get_map_of)
    then show ?thesis using w assms(1) by (simp add: get_normalized normal_format)
  qed
  then show ?thesis by (auto simp: changedFields_def filter_empty_conv)
qed

lemma group_fields:
  "distinct GROUP_FIELDS" "inj_on groupApiKey (set GROUP_FIELDS)"
  "distinct [js ''TopupGroupRatio'', js ''GroupRatio'', js ''UserUsableGroups'', js ''GroupGroupRatio'', js ''AutoGroups'',
     js ''DefaultUseAutoGroup'', js ''GroupSpecialUsableGroup'']"
  by (simp_all add: GROUP_FIELDS_def groupApiKey_def inj_on_def)

lemma get_group_defaults:
  "obj_get (getGroupDefaults settings) k =
     (if k \<in> set GROUP_FIELDS then obj_get settings (groupApiKey k) else None)"
  unfolding getGroupDefaults_def get_optionsOf [OF group_fields(3)] by (auto simp: GROUP_FIELDS_def)

lemma distinct_optionsOf: "distinct fs \<Longrightarrow> distinct (map fst (optionsOf apiKey fs settings))"
proof (induction fs)
  case (Cons f fs)
  have "f \<notin> set fs \<Longrightarrow> f \<notin> fst ` set (optionsOf apiKey fs settings)"
    by (auto simp: optionsOf_def List.map_filter_def)
  with Cons show ?case
    by (cases "obj_get settings (apiKey f)") (auto simp: optionsOf_def map_filter_simps)
qed (simp add: optionsOf_def map_filter_simps)

section \<open>Properties\<close>

definition empty_text :: js_string where
  "empty_text = json_stringify (JObj [])"

definition vip_text :: js_string where
  "vip_text = json_stringify (JObj [(js ''vip'', jint 2)])"

definition demo_fields :: "(js_string \<Rightarrow> js_string) \<Rightarrow> js_string \<Rightarrow> form_values" where
  "demo_fields key text =
     map (\<lambda>k. (key k, if k = js ''GroupRatio'' then Text text
                    else if k = js ''DefaultUseAutoGroup'' then Flag False else Text empty_text)) GROUP_FIELDS"

lemma demo_parse:
  "json_parse empty_text = Some (JObj [])" "trim empty_text = empty_text" "str_ok empty_text"
  "json_parse vip_text = Some (JObj [(js ''vip'', jint 2)])" "trim vip_text = vip_text" "str_ok vip_text"
proof -
  have e: "json_ok (JObj [])" by simp
  have v: "json_ok (JObj [(js ''vip'', jint 2)])"
    using own_order_plain [of "[(js ''vip'', jint 2)]"] by (simp add: is_digit_def)
  show "json_parse empty_text = Some (JObj [])" "trim empty_text = empty_text" "str_ok empty_text"
    unfolding empty_text_def by (rule json_parse_stringify [OF e] json_stringify_trimmed json_stringify_ok [OF e])+
  show "json_parse vip_text = Some (JObj [(js ''vip'', jint 2)])" "trim vip_text = vip_text" "str_ok vip_text"
    unfolding vip_text_def by (rule json_parse_stringify [OF v] json_stringify_trimmed json_stringify_ok [OF v])+
qed



text \<open>C11 (roundtrip): when the server stores what is sent, the options it then holds have the values of the form, and
  the form that is filled from them has nothing left to save.\<close>

theorem ratio_save_settles:
  assumes "map fst values = GROUP_FIELDS" and "list_all (\<lambda>p. field_ok (snd p)) values"
    and "list_all (\<lambda>k. \<exists>v. obj_get settings (groupApiKey k) = Some v \<and> option_ok v) GROUP_FIELDS"
    and "\<forall>u. server u = Stored"
    and "settings' = storeOptions settings (saveGroupRatios server values (openCard md (getGroupDefaults settings)))"
  shows "(\<forall>k. obj_get (normalizedValues (getGroupDefaults settings')) k = obj_get (normalizedValues values) k)
    \<and> saveGroupRatios server (groupForm (resetGroup (getGroupDefaults settings') rc))
        (resetGroup (getGroupDefaults settings') rc) = []"
proof -
  let ?ds = "normalizedValues (getGroupDefaults settings)"
  let ?us = "map (apfst groupApiKey) (changedFields (normalizedValues values) ?ds)"
  have "sendUpdates server us = us" for us by (rule sendUpdates_all) (simp add: assms(4))
  then have s': "settings' = storeOptions settings ?us"
    using assms(5) by (simp add: saveGroupRatios_def openCard_def)
  have get: "obj_get settings' (groupApiKey k) =
      (if map_option normal (obj_get settings (groupApiKey k)) = map_option normal (obj_get values k)
       then obj_get settings (groupApiKey k) else map_option normal (obj_get values k))" if "k \<in> set GROUP_FIELDS" for k
    unfolding s' by (rule stored_option [OF group_fields(2) assms(1) group_fields(1) that])
      (simp add: get_normalized get_group_defaults that)
  have fields: "fst ` set values = set GROUP_FIELDS" using arg_cong [OF assms(1), of set] by simp
  have val: "\<exists>v. obj_get values k = Some v \<and> field_ok v" if "k \<in> set GROUP_FIELDS" for k
  proof -
    have "k \<in> fst ` set values" using that fields by simp
    then obtain v where "obj_get values k = Some v"
      using obj_get_eq_None_iff [of "values" k] by (cases "obj_get values k") auto
    then show ?thesis using assms(2) by (auto simp: list_all_iff dest!: obj_get_mem)
  qed
  have "obj_get (normalizedValues (getGroupDefaults settings')) k = obj_get (normalizedValues values) k" for k
  proof (cases "k \<in> set GROUP_FIELDS")
    case True
    then show ?thesis using get [OF True] val [OF True] by (auto simp: get_normalized get_group_defaults normal_idem)
  next
    case False
    then have "obj_get values k = None" using fields by (simp add: obj_get_eq_None_iff)
    with False show ?thesis by (simp add: get_normalized get_group_defaults)
  qed
  moreover have "option_ok v" if "(k, v) \<in> set (getGroupDefaults settings')" for k v
  proof -
    have d: "distinct (map fst (getGroupDefaults settings'))"
      unfolding getGroupDefaults_def by (rule distinct_optionsOf [OF group_fields(3)])
    then have "obj_get (getGroupDefaults settings') k = Some v" using that by (simp add: obj_get_map_of)
    then have k: "k \<in> set GROUP_FIELDS" "obj_get settings' (groupApiKey k) = Some v"
      by (auto simp: get_group_defaults split: if_splits)
    then show ?thesis
      using get [OF k(1)] val [OF k(1)] assms(3) by (auto simp: list_all_iff option_ok_normal split: if_splits)
  qed
  then have "changedFields (normalizedValues (formDefaults (getGroupDefaults settings')))
      (normalizedValues (getGroupDefaults settings')) = []"
    by (rule nothing_changed) (auto simp: getGroupDefaults_def intro!: distinct_optionsOf group_fields(3))
  ultimately show ?thesis by (simp add: saveGroupRatios_def resetGroup_def)
qed

theorem ratio_save_settles_witness:
  "saveGroupRatios (\<lambda>u. Stored)
     (groupForm (resetGroup (getGroupDefaults (storeOptions (demo_fields groupApiKey empty_text)
        (saveGroupRatios (\<lambda>u. Stored) (demo_fields id vip_text)
           (openCard [] (getGroupDefaults (demo_fields groupApiKey empty_text)))))) (openCard [] [])))
     (resetGroup (getGroupDefaults (storeOptions (demo_fields groupApiKey empty_text)
        (saveGroupRatios (\<lambda>u. Stored) (demo_fields id vip_text)
           (openCard [] (getGroupDefaults (demo_fields groupApiKey empty_text)))))) (openCard [] [])) = []"
proof -
  have v: "map fst (demo_fields id vip_text) = GROUP_FIELDS"
    "list_all (\<lambda>p. field_ok (snd p)) (demo_fields id vip_text)"
    by (simp_all add: demo_fields_def GROUP_FIELDS_def field_ok_def demo_parse)
  have o: "list_all (\<lambda>k. \<exists>v. obj_get (demo_fields groupApiKey empty_text) (groupApiKey k) = Some v \<and> option_ok v) GROUP_FIELDS"
    by (simp add: demo_fields_def GROUP_FIELDS_def groupApiKey_def option_ok_def demo_parse)
  have "\<forall>u. (\<lambda>u. Stored) u = Stored" by simp
  from ratio_save_settles [OF v o this refl] show ?thesis by blast
qed

end
