(* ===== verification/Spec2Isabelle.thy ===== *)
theory Spec2Isabelle
  imports HttpStatusRules PlaygroundProps ChannelFormProps ChannelGuards Notifications NavigationProps GroupRefinement SpecialRulesProps RatioSettingsProps
begin

text \<open>
  Verification of the core logic of the \<open>web/default\<close> front end of new-api, an LLM gateway.
  (Skeleton: the header is completed as the components are added.)
\<close>

end
